(* ===== verification/Js_Prelude.thy ===== *)
theory Js_Prelude
  imports Complex_Main "HOL-Library.Multiset" "HOL-Library.Char_ord" "HOL-Library.List_Lexorder"
begin

text \<open>
  The JavaScript base of the development: what the TypeScript sources use of the language and
  of its standard library, and the generic lemmas every component shares.

  \<^item> Strings are \<^typ>\<open>string\<close>: one \<^typ>\<open>char\<close> per UTF-16 code unit, so the texts of
    the model are those whose code units are below 256. \<open><\<close> on strings is the order of
    \<open>HOL-Library.List_Lexorder\<close> over the character codes, the order of the JavaScript \<open><\<close>.
  \<^item> A number is an integral value, a finite non-integral one, \<open>NaN\<close> or an infinity.
  \<^item> \<open>jsval\<close> holds the values \<open>JSON.parse\<close> and object literals build, and \<open>undefined\<close>.
    An object is the list of its own enumerable properties in the order of their creation.
  \<^item> \<open>js_sort\<close> is \<open>Array.prototype.sort\<close> with a comparator: stable, as the language
    requires; the locale \<open>comparator\<close> states what a comparator promises and what sorting
    with it then gives.
  \<^item> The locale \<open>checker\<close> is the contract of a routine that pushes diagnostics: it pushes
    none exactly when its specification holds. The locale \<open>prefix_codec\<close> is the contract of
    an encoder whose decoder reads a value off the front of the input.
\<close>

named_theorems check_iff \<open>when a checking routine pushes no diagnostic\<close>
named_theorems js_simps \<open>unfolding of the JavaScript library functions\<close>

section \<open>Numbers and values\<close>

datatype js_number = NInt int | NFrac rat | NNaN | NInf bool

datatype jsval =
    JUndefined
  | JNull
  | JBool bool
  | JNumber js_number
  | JString string
  | JArray "jsval list"
  | JObject "(string \<times> jsval) list"

type_synonym jsobject = "(string \<times> jsval) list"

definition MAX_SAFE_INTEGER :: int where
  "MAX_SAFE_INTEGER = 9007199254740991"

fun isSafeInteger :: "js_number \<Rightarrow> bool" where
  "isSafeInteger (NInt i) = (\<bar>i\<bar> \<le> MAX_SAFE_INTEGER)"
| "isSafeInteger _ = False"

fun isFinite :: "js_number \<Rightarrow> bool" where
  "isFinite (NInt i) = True"
| "isFinite (NFrac r) = True"
| "isFinite NNaN = False"
| "isFinite (NInf b) = False"

text \<open>The comparison \<open>x < k\<close> with an integer; every comparison with \<open>NaN\<close> is false.\<close>

fun num_less_int :: "js_number \<Rightarrow> int \<Rightarrow> bool" where
  "num_less_int (NInt i) k = (i < k)"
| "num_less_int (NFrac r) k = (r < of_int k)"
| "num_less_int NNaN k = False"
| "num_less_int (NInf negative) k = negative"

text \<open>Property access \<open>o.k\<close> and the operator \<open>k in o\<close> on own properties.\<close>

definition obj_get :: "jsobject \<Rightarrow> string \<Rightarrow> jsval" where
  "obj_get ob k = (case map_of ob k of None \<Rightarrow> JUndefined | Some v \<Rightarrow> v)"

definition obj_has :: "jsobject \<Rightarrow> string \<Rightarrow> bool" where
  "obj_has ob k = (k \<in> fst ` set ob)"

lemma obj_get_Nil [simp]: "obj_get [] k = JUndefined"
  by (simp add: obj_get_def)

lemma obj_get_Cons [simp]: "obj_get ((k', v) # ob) k = (if k = k' then v else obj_get ob k)"
  by (simp add: obj_get_def)

lemma obj_has_Nil [simp]: "obj_has [] k = False"
  by (simp add: obj_has_def)

lemma obj_has_Cons [simp]: "obj_has ((k', v) # ob) k = (k = k' \<or> obj_has ob k)"
  by (auto simp: obj_has_def)

section \<open>Strings\<close>

text \<open>
  White space in the sense of \<open>String.prototype.trim\<close> among the code units below 256: tab,
  line feed, vertical tab, form feed, carriage return, space and no-break space.
\<close>

definition is_ws :: "char \<Rightarrow> bool" where
  "is_ws c = ((of_char c :: nat) \<in> {9, 10, 11, 12, 13, 32, 160})"

definition trim :: "string \<Rightarrow> string" where
  "trim s = rev (dropWhile is_ws (rev (dropWhile is_ws s)))"

lemma trim_eq_Nil_iff: "trim s = [] \<longleftrightarrow> (\<forall>c \<in> set s. is_ws c)"
proof -
  have "trim s = [] \<longleftrightarrow> (\<forall>c \<in> set (dropWhile is_ws s). is_ws c)"
    by (simp add: trim_def)
  also have "\<dots> \<longleftrightarrow> (\<forall>c \<in> set s. is_ws c)"
    by (induction s) auto
  finally show ?thesis .
qed

fun nat_to_string :: "nat \<Rightarrow> string" where
  "nat_to_string n =
     (if n < 10 then [char_of (48 + n)]
      else nat_to_string (n div 10) @ [char_of (48 + n mod 10)])"

declare nat_to_string.simps [simp del]

definition int_to_string :: "int \<Rightarrow> string" where
  "int_to_string i = (if i < 0 then ''-'' @ nat_to_string (nat (- i)) else nat_to_string (nat i))"

text \<open>The character class \<open>[a-f0-9]\<close>.\<close>

definition hex_digit :: "char \<Rightarrow> bool" where
  "hex_digit c = (c \<in> set ''0123456789abcdef'')"

fun js_join :: "string \<Rightarrow> string list \<Rightarrow> string" where
  "js_join sep [] = []"
| "js_join sep [s] = s"
| "js_join sep (s # t # ss) = s @ sep @ js_join sep (t # ss)"

definition compareStrings :: "string \<Rightarrow> string \<Rightarrow> int" where
  "compareStrings left right = (if left < right then - 1 else if right < left then 1 else 0)"

text \<open>An optional text tested for truth, as in \<open>...(text ? { k: text } : {})\<close>: the empty text is false.\<close>

definition truthy_text :: "string option \<Rightarrow> string option" where
  "truthy_text v = (case v of None \<Rightarrow> None | Some t \<Rightarrow> if t = [] then None else Some t)"

text \<open>The \<open>||\<close> of two comparison results: the second decides where the first is zero.\<close>

definition cmp_or :: "int \<Rightarrow> int \<Rightarrow> int" where
  "cmp_or a b = (if a \<noteq> 0 then a else b)"

section \<open>Searching\<close>

lemma find_SomeD: "List.find P xs = Some x \<Longrightarrow> x \<in> set xs \<and> P x"
  by (induction xs) (auto split: if_splits)

section \<open>Sorting with a comparator\<close>

fun js_insert :: "('a \<Rightarrow> 'a \<Rightarrow> int) \<Rightarrow> 'a \<Rightarrow> 'a list \<Rightarrow> 'a list" where
  "js_insert cmp x [] = [x]"
| "js_insert cmp x (y # ys) = (if cmp x y \<le> 0 then x # y # ys else y # js_insert cmp x ys)"

definition js_sort :: "('a \<Rightarrow> 'a \<Rightarrow> int) \<Rightarrow> 'a list \<Rightarrow> 'a list" where
  "js_sort cmp xs = foldr (js_insert cmp) xs []"

lemma js_sort_simps [simp]:
  "js_sort cmp [] = []"
  "js_sort cmp (x # xs) = js_insert cmp x (js_sort cmp xs)"
  by (simp_all add: js_sort_def)

lemma mset_js_insert [simp]: "mset (js_insert cmp x xs) = add_mset x (mset xs)"
  by (induction xs) auto

lemma mset_js_sort [simp]: "mset (js_sort cmp xs) = mset xs"
  by (induction xs) auto

lemma set_js_sort [simp]: "set (js_sort cmp xs) = set xs"
  by (metis mset_js_sort set_mset_mset)

lemma length_js_sort [simp]: "length (js_sort cmp xs) = length xs"
  by (metis mset_js_sort size_mset)

lemma distinct_map_js_sort [simp]: "distinct (map f (js_sort cmp xs)) = distinct (map f xs)"
proof -
  have "mset (map f (js_sort cmp xs)) = mset (map f xs)"
    by simp
  then show ?thesis
    by (metis mset_eq_imp_distinct_iff)
qed

text \<open>
  What a comparator promises: it compares the \<open>key\<close>s of its arguments, whose type is totally
  ordered. Sorting then yields a list sorted by key, and the result does not depend on the order
  of the input where the keys are distinct.
\<close>

locale comparator =
  fixes cmp :: "'a \<Rightarrow> 'a \<Rightarrow> int" and key :: "'a \<Rightarrow> 'k :: linorder"
  assumes cmp_le: "cmp x y \<le> 0 \<longleftrightarrow> key x \<le> key y"
begin

lemma js_insert_insort: "js_insert cmp x xs = insort_key key x xs"
  by (induction xs) (auto simp: cmp_le)

lemma js_sort_sort_key: "js_sort cmp xs = sort_key key xs"
  by (induction xs) (auto simp: js_insert_insort)

lemma sorted_js_sort: "sorted (map key (js_sort cmp xs))"
  by (simp add: js_sort_sort_key)

lemma js_sort_idem: "js_sort cmp (js_sort cmp xs) = js_sort cmp xs"
  using sorted_js_sort by (simp add: js_sort_sort_key sorted_sort_id sort_key_id_if_sorted)

lemma js_sort_sorted: "sorted (map key xs) \<Longrightarrow> js_sort cmp xs = xs"
  by (simp add: js_sort_sort_key sort_key_id_if_sorted)

lemma js_sort_perm_inj:
  assumes "mset xs = mset ys" and "inj_on key (set xs)"
  shows "js_sort cmp xs = js_sort cmp ys"
  using assms by (simp add: js_sort_sort_key sort_key_eq_sort_key properties_for_sort_key)

lemma js_sort_perm:
  "mset xs = mset ys \<Longrightarrow> distinct (map key xs) \<Longrightarrow> js_sort cmp xs = js_sort cmp ys"
  by (rule js_sort_perm_inj) (simp_all add: distinct_map)

end

interpretation strings: comparator compareStrings "\<lambda>s. s"
  by unfold_locales (auto simp: compareStrings_def)

section \<open>Routines that push diagnostics\<close>

locale checker =
  fixes check :: "'a \<Rightarrow> 'd list" and spec :: "'a \<Rightarrow> bool"
  assumes check_spec: "check x = [] \<longleftrightarrow> spec x"
begin

text \<open>The \<open>for (const x of xs)\<close> loop around a checking routine.\<close>

lemma check_all: "concat (map check xs) = [] \<longleftrightarrow> (\<forall>x \<in> set xs. spec x)"
  by (simp add: check_spec)

end

section \<open>Encoders with a prefix decoder\<close>

locale prefix_codec =
  fixes enc :: "'a \<Rightarrow> 'c list" and dec :: "'c list \<Rightarrow> ('a \<times> 'c list) option" and wf :: "'a \<Rightarrow> bool"
  assumes dec_enc: "wf x \<Longrightarrow> dec (enc x @ rest) = Some (x, rest)"
begin

lemma enc_prefix_free:
  assumes "wf x" and "wf y" and "enc x @ r = enc y @ s"
  shows "x = y \<and> r = s"
proof -
  have "Some (x, r) = dec (enc x @ r)"
    using assms(1) by (rule dec_enc [symmetric])
  also have "\<dots> = dec (enc y @ s)"
    by (rule arg_cong [OF assms(3)])
  also have "\<dots> = Some (y, s)"
    using assms(2) by (rule dec_enc)
  finally show ?thesis by simp
qed

lemma enc_list_inj:
  assumes "list_all wf xs" and "list_all wf ys" and "\<And>z. wf z \<Longrightarrow> enc z \<noteq> []"
    and "concat (map enc xs) = concat (map enc ys)"
  shows "xs = ys"
  using assms(1,2,4)
proof (induction xs arbitrary: ys)
  case Nil
  then show ?case using assms(3) by (cases ys) auto
next
  case (Cons x xs)
  then obtain y ys' where ys: "ys = y # ys'"
    using assms(3) by (cases ys) auto
  with Cons.prems have "enc x @ concat (map enc xs) = enc y @ concat (map enc ys')" by simp
  moreover have "wf x" and "wf y"
    using Cons.prems ys by simp_all
  ultimately have "x = y \<and> concat (map enc xs) = concat (map enc ys')"
    by (intro enc_prefix_free)
  with Cons ys show ?case by simp
qed

end

end
