(* ===== verification/Deployment_Types.thy ===== *)
theory Deployment_Types
  imports Js_Prelude
begin

text \<open>
  The data of \<^verbatim>\<open>packages/deployment-contract/src/types.ts\<close>: the deployment graph, its nodes,
  inputs, outputs, lifecycles and edges, and the diagnostics the validator pushes. A union of
  string literals is a datatype with a function to the literal; an interface is a record; an
  optional property is an \<open>option\<close>. The \<open>spec\<close> of a node extends an open JSON object, so it is
  kept as the object and its members are read by name.
\<close>

section \<open>Literal unions\<close>

datatype ApplicationDeploymentGraphMode = ModeFresh

datatype ApplicationDeploymentStrategy = StrategyDirect | StrategyKro

fun strategy_literal :: "ApplicationDeploymentStrategy \<Rightarrow> string" where
  "strategy_literal StrategyDirect = ''direct''"
| "strategy_literal StrategyKro = ''kro''"

datatype ApplicationDeploymentNodeKind =
    KArtifact | KExternalProvider | KKubernetesComposition | KKubernetesDirect
  | KSingleton | KExternalReference | KSecretReference | KStatusProjection

fun kind_literal :: "ApplicationDeploymentNodeKind \<Rightarrow> string" where
  "kind_literal KArtifact = ''artifact''"
| "kind_literal KExternalProvider = ''externalProvider''"
| "kind_literal KKubernetesComposition = ''kubernetesComposition''"
| "kind_literal KKubernetesDirect = ''kubernetesDirect''"
| "kind_literal KSingleton = ''singleton''"
| "kind_literal KExternalReference = ''externalReference''"
| "kind_literal KSecretReference = ''secretReference''"
| "kind_literal KStatusProjection = ''statusProjection''"

datatype ApplicationDeploymentPersistence = PState | PRedacted | PReference | PEphemeral

fun persistence_literal :: "ApplicationDeploymentPersistence \<Rightarrow> string" where
  "persistence_literal PState = ''state''"
| "persistence_literal PRedacted = ''redacted''"
| "persistence_literal PReference = ''reference''"
| "persistence_literal PEphemeral = ''ephemeral''"

datatype ApplicationDeploymentSensitivity = SPublic | SSensitive

fun sensitivity_literal :: "ApplicationDeploymentSensitivity \<Rightarrow> string" where
  "sensitivity_literal SPublic = ''public''"
| "sensitivity_literal SSensitive = ''sensitive''"

datatype ApplicationDeploymentOutputType =
    OTString | OTNumber | OTBoolean | OTJson
  | OTSecretReference | OTResourceReference | OTArtifactReference | OTArtifactDigest

fun output_type_literal :: "ApplicationDeploymentOutputType \<Rightarrow> string" where
  "output_type_literal OTString = ''string''"
| "output_type_literal OTNumber = ''number''"
| "output_type_literal OTBoolean = ''boolean''"
| "output_type_literal OTJson = ''json''"
| "output_type_literal OTSecretReference = ''secretReference''"
| "output_type_literal OTResourceReference = ''resourceReference''"
| "output_type_literal OTArtifactReference = ''artifactReference''"
| "output_type_literal OTArtifactDigest = ''artifactDigest''"

datatype lifecycle_ownership = OwnApplication | OwnShared | OwnExternal

fun ownership_literal :: "lifecycle_ownership \<Rightarrow> string" where
  "ownership_literal OwnApplication = ''application''"
| "ownership_literal OwnShared = ''shared''"
| "ownership_literal OwnExternal = ''external''"

datatype lifecycle_deletion = DelDelete | DelRetain | DelOrphan | DelNone

fun deletion_literal :: "lifecycle_deletion \<Rightarrow> string" where
  "deletion_literal DelDelete = ''delete''"
| "deletion_literal DelRetain = ''retain''"
| "deletion_literal DelOrphan = ''orphan''"
| "deletion_literal DelNone = ''none''"

datatype lifecycle_adoption = AdoptCreateOnly | AdoptCreateOrAdoptExact | AdoptExternalOnly

fun adoption_literal :: "lifecycle_adoption \<Rightarrow> string" where
  "adoption_literal AdoptCreateOnly = ''createOnly''"
| "adoption_literal AdoptCreateOrAdoptExact = ''createOrAdoptExact''"
| "adoption_literal AdoptExternalOnly = ''externalOnly''"

datatype ApplicationDeploymentEdgeKind =
    RequiresOutput | RequiresReady | InstallsApi | Owns | Retains | Publishes | ProjectsStatus

fun edge_kind_literal :: "ApplicationDeploymentEdgeKind \<Rightarrow> string" where
  "edge_kind_literal RequiresOutput = ''requiresOutput''"
| "edge_kind_literal RequiresReady = ''requiresReady''"
| "edge_kind_literal InstallsApi = ''installsApi''"
| "edge_kind_literal Owns = ''owns''"
| "edge_kind_literal Retains = ''retains''"
| "edge_kind_literal Publishes = ''publishes''"
| "edge_kind_literal ProjectsStatus = ''projectsStatus''"

section \<open>Identity and metadata\<close>

record ApplicationDeploymentConnectionIdentity =
  conn_provider :: string
  conn_cluster :: string
  conn_digest :: string

record ApplicationDeploymentIdentity =
  id_connection :: ApplicationDeploymentConnectionIdentity
  id_application :: string
  id_controlPlaneNamespace :: string
  id_instance :: string
  id_profile :: string

record ApplicationDeploymentGraphMetadata =
  meta_identity :: ApplicationDeploymentIdentity
  meta_mode :: ApplicationDeploymentGraphMode
  meta_strategy :: ApplicationDeploymentStrategy
  meta_sourceGraphDigest :: string
  meta_compilerVersion :: string
  meta_profileTransition :: "jsobject option"

section \<open>Nodes\<close>

record ApplicationDeploymentSource =
  src_semanticNodeId :: "string option"
  src_artifactPath :: "string option"
  src_file :: "string option"
  src_line :: "js_number option"
  src_column :: "js_number option"

record ApplicationDeploymentProviderIdentity =
  prov_interface :: string
  prov_implementation :: string
  prov_version :: string

record ApplicationDeploymentNodeScope =
  scope_connectionDigest :: string
  scope_namespace :: "string option"

record ApplicationDeploymentNodeCapabilities =
  cap_strategies :: "ApplicationDeploymentStrategy list"
  cap_alchemy :: bool

record ApplicationDeploymentOutput =
  out_name :: string
  out_type :: ApplicationDeploymentOutputType
  out_sensitivity :: ApplicationDeploymentSensitivity
  out_persistence :: ApplicationDeploymentPersistence

datatype ApplicationDeploymentInput =
    LiteralInput jsval
  | OutputInput (in_nodeId: string) (in_output: string)
      (in_sensitivity: ApplicationDeploymentSensitivity)
      (in_persistence: ApplicationDeploymentPersistence)
  | SecretReferenceInput (in_nodeId: string) (in_key: "string option")

record ApplicationDeploymentLifecycle =
  life_ownership :: lifecycle_ownership
  life_deletion :: lifecycle_deletion
  life_adoption :: lifecycle_adoption
  life_namespaceNodeId :: "string option"

record ApplicationDeploymentNode =
  node_id :: string
  node_kind :: ApplicationDeploymentNodeKind
  node_contractVersion :: js_number
  node_source :: ApplicationDeploymentSource
  node_provider :: ApplicationDeploymentProviderIdentity
  node_scope :: ApplicationDeploymentNodeScope
  node_capabilities :: ApplicationDeploymentNodeCapabilities
  node_configurationDigest :: string
  node_inputs :: "(string \<times> ApplicationDeploymentInput) list"
  node_outputs :: "ApplicationDeploymentOutput list"
  node_lifecycle :: ApplicationDeploymentLifecycle
  node_spec :: jsobject

text \<open>
  A member of a node's \<open>spec\<close> typed \<open>string\<close>. An absent member is \<open>undefined\<close>, which a
  template literal prints as \<open>undefined\<close>.
\<close>

definition spec_string :: "ApplicationDeploymentNode \<Rightarrow> string \<Rightarrow> string" where
  "spec_string n k = (case obj_get (node_spec n) k of JString s \<Rightarrow> s | _ \<Rightarrow> ''undefined'')"

section \<open>Edges, graph, diagnostics\<close>

record ApplicationDeploymentEdge =
  edge_from :: string
  edge_to :: string
  edge_relationship :: ApplicationDeploymentEdgeKind
  edge_output :: "string option"

record ApplicationDeploymentGraph =
  graph_apiVersion :: string
  graph_kind :: string
  graph_metadata :: ApplicationDeploymentGraphMetadata
  graph_nodes :: "ApplicationDeploymentNode list"
  graph_edges :: "ApplicationDeploymentEdge list"

datatype ApplicationDeploymentDiagnosticCode =
    DEPLOYMENT_GRAPH_INVALID | DEPLOYMENT_IDENTITY_INVALID | DEPLOYMENT_NODE_DUPLICATE
  | DEPLOYMENT_NODE_INVALID | DEPLOYMENT_EDGE_INVALID | DEPLOYMENT_EDGE_CYCLE
  | DEPLOYMENT_OUTPUT_INVALID | DEPLOYMENT_SECRET_UNSAFE | DEPLOYMENT_CONNECTION_UNSAFE
  | DEPLOYMENT_LIFECYCLE_UNSAFE | DEPLOYMENT_STRATEGY_UNSUPPORTED | DEPLOYMENT_SINGLETON_DRIFT
  | DEPLOYMENT_STATUS_INVALID

fun code_literal :: "ApplicationDeploymentDiagnosticCode \<Rightarrow> string" where
  "code_literal DEPLOYMENT_GRAPH_INVALID = ''DEPLOYMENT_GRAPH_INVALID''"
| "code_literal DEPLOYMENT_IDENTITY_INVALID = ''DEPLOYMENT_IDENTITY_INVALID''"
| "code_literal DEPLOYMENT_NODE_DUPLICATE = ''DEPLOYMENT_NODE_DUPLICATE''"
| "code_literal DEPLOYMENT_NODE_INVALID = ''DEPLOYMENT_NODE_INVALID''"
| "code_literal DEPLOYMENT_EDGE_INVALID = ''DEPLOYMENT_EDGE_INVALID''"
| "code_literal DEPLOYMENT_EDGE_CYCLE = ''DEPLOYMENT_EDGE_CYCLE''"
| "code_literal DEPLOYMENT_OUTPUT_INVALID = ''DEPLOYMENT_OUTPUT_INVALID''"
| "code_literal DEPLOYMENT_SECRET_UNSAFE = ''DEPLOYMENT_SECRET_UNSAFE''"
| "code_literal DEPLOYMENT_CONNECTION_UNSAFE = ''DEPLOYMENT_CONNECTION_UNSAFE''"
| "code_literal DEPLOYMENT_LIFECYCLE_UNSAFE = ''DEPLOYMENT_LIFECYCLE_UNSAFE''"
| "code_literal DEPLOYMENT_STRATEGY_UNSUPPORTED = ''DEPLOYMENT_STRATEGY_UNSUPPORTED''"
| "code_literal DEPLOYMENT_SINGLETON_DRIFT = ''DEPLOYMENT_SINGLETON_DRIFT''"
| "code_literal DEPLOYMENT_STATUS_INVALID = ''DEPLOYMENT_STATUS_INVALID''"

datatype diagnostic_severity = SeverityError | SeverityWarning

record ApplicationDeploymentDiagnostic =
  diag_severity :: diagnostic_severity
  diag_code :: ApplicationDeploymentDiagnosticCode
  diag_message :: string
  diag_nodeId :: "string option"
  diag_edge :: "ApplicationDeploymentEdge option"
  diag_source :: "ApplicationDeploymentSource option"

record ApplicationDeploymentValidationResult =
  result_valid :: bool
  result_diagnostics :: "ApplicationDeploymentDiagnostic list"

section \<open>The literals name their constructors\<close>

lemma strategy_literal_inj [simp]: "strategy_literal a = strategy_literal b \<longleftrightarrow> a = b"
  by (cases a; cases b) simp_all

lemma kind_literal_inj [simp]: "kind_literal a = kind_literal b \<longleftrightarrow> a = b"
  by (cases a; cases b) simp_all

lemma edge_kind_literal_inj [simp]: "edge_kind_literal a = edge_kind_literal b \<longleftrightarrow> a = b"
  by (cases a; cases b) simp_all

end
