(* ===== verification/Deployment_Validation.thy ===== *)
theory Deployment_Validation
  imports Deployment_Types
begin

text \<open>
  The semantic validator of the deployment graph,
  \<^verbatim>\<open>packages/deployment-contract/src/validation.ts\<close>, routine by routine. A routine of the
  source appends to an array \<open>diagnostics\<close>; its model returns the list it appends, so a sequence
  of calls is a concatenation. The first part holds the definitions, the second the declarative
  specification each routine decides, the third the theorem that the validator accepts exactly
  the graphs that meet the specification, and the fourth what an accepted graph guarantees.
\<close>

section \<open>Definitions\<close>

type_synonym diags = "ApplicationDeploymentDiagnostic list"
type_synonym node_map = "string \<rightharpoonup> ApplicationDeploymentNode"

definition nonEmptyString :: "jsval \<Rightarrow> bool" where
  "nonEmptyString v = (case v of JString s \<Rightarrow> trim s \<noteq> [] | _ \<Rightarrow> False)"

definition diagnostic ::
  "ApplicationDeploymentDiagnosticCode \<Rightarrow> string \<Rightarrow> ApplicationDeploymentNode option \<Rightarrow> ApplicationDeploymentDiagnostic"
where
  "diagnostic code message node =
     \<lparr>diag_severity = SeverityError, diag_code = code, diag_message = message,
      diag_nodeId = map_option node_id node, diag_edge = None,
      diag_source = map_option node_source node\<rparr>"

definition edgeDiagnostic ::
  "ApplicationDeploymentDiagnosticCode \<Rightarrow> string \<Rightarrow> ApplicationDeploymentEdge \<Rightarrow> ApplicationDeploymentDiagnostic"
where
  "edgeDiagnostic code message edge =
     \<lparr>diag_severity = SeverityError, diag_code = code, diag_message = message,
      diag_nodeId = None, diag_edge = Some edge, diag_source = None\<rparr>"

text \<open>\<open>sha256Pattern.test\<close>: the prefix and exactly 64 lower-case hexadecimal digits.\<close>

definition sha256Pattern :: "string \<Rightarrow> bool" where
  "sha256Pattern s =
     (take 7 s = ''sha256:'' \<and> length s = 71 \<and> list_all hex_digit (drop 7 s))"

fun causalRelationships :: "ApplicationDeploymentEdgeKind \<Rightarrow> bool" where
  "causalRelationships Retains = False"
| "causalRelationships _ = True"

text \<open>\<open>if (c) diagnostics.push(d)\<close>\<close>

abbreviation push_if :: "bool \<Rightarrow> 'd \<Rightarrow> 'd list" where
  "push_if c d \<equiv> (if c then [d] else [])"

lemma push_if_Nil [simp]: "push_if c d = [] \<longleftrightarrow> \<not> c"
  by simp

definition validateEnvelope :: "ApplicationDeploymentGraph \<Rightarrow> diags" where
  "validateEnvelope graph =
     (let identity = meta_identity (graph_metadata graph) in
      push_if (graph_apiVersion graph \<noteq> ''applik8s.deploymentGraph/v1alpha1'' \<or>
               graph_kind graph \<noteq> ''ApplicationDeploymentGraph'')
        (diagnostic DEPLOYMENT_GRAPH_INVALID
           ''Deployment graph must use the supported apiVersion and kind.'' None)
      @ concat (map (\<lambda>(field, v). push_if (\<not> nonEmptyString (JString v))
            (diagnostic DEPLOYMENT_IDENTITY_INVALID
               (''Deployment identity field '' @ field @ '' must be non-empty.'') None))
          [(''application'', id_application identity),
           (''controlPlaneNamespace'', id_controlPlaneNamespace identity),
           (''instance'', id_instance identity),
           (''profile'', id_profile identity),
           (''connectionProvider'', conn_provider (id_connection identity)),
           (''connectionCluster'', conn_cluster (id_connection identity))])
      @ push_if (\<not> sha256Pattern (conn_digest (id_connection identity)))
          (diagnostic DEPLOYMENT_IDENTITY_INVALID
             ''Deployment connection digest must be a full sha256 digest.'' None)
      @ push_if (\<not> sha256Pattern (meta_sourceGraphDigest (graph_metadata graph)))
          (diagnostic DEPLOYMENT_GRAPH_INVALID
             ''Deployment sourceGraphDigest must be a full sha256 digest.'' None))"

definition validateOutputPersistence ::
  "ApplicationDeploymentNode \<Rightarrow> ApplicationDeploymentOutput \<Rightarrow> diags" where
  "validateOutputPersistence node out =
     push_if (out_sensitivity out = SSensitive \<and> out_persistence out = PState)
       (diagnostic DEPLOYMENT_SECRET_UNSAFE
          (''Sensitive output '' @ node_id node @ ''.'' @ out_name out @
           '' cannot be persisted as plaintext state.'') (Some node))
     @ push_if (out_type out = OTSecretReference \<and> out_persistence out \<noteq> PReference)
       (diagnostic DEPLOYMENT_SECRET_UNSAFE
          (''Secret-reference output '' @ node_id node @ ''.'' @ out_name out @
           '' must persist only its reference.'') (Some node))"

text \<open>The loop of \<open>validateOutputs\<close>; \<open>seen\<close> is the set \<open>outputs\<close> of names met so far.\<close>

fun validateOutputs_loop ::
  "ApplicationDeploymentNode \<Rightarrow> string list \<Rightarrow> ApplicationDeploymentOutput list \<Rightarrow> diags" where
  "validateOutputs_loop node seen [] = []"
| "validateOutputs_loop node seen (out # outs) =
     push_if (\<not> nonEmptyString (JString (out_name out)) \<or> out_name out \<in> set seen)
       (diagnostic DEPLOYMENT_OUTPUT_INVALID
          (''Deployment node '' @ node_id node @ '' has an empty or duplicate output name.'')
          (Some node))
     @ validateOutputPersistence node out
     @ validateOutputs_loop node (out_name out # seen) outs"

definition validateOutputs :: "ApplicationDeploymentNode \<Rightarrow> diags" where
  "validateOutputs node = validateOutputs_loop node [] (node_outputs node)"

definition validateInput ::
  "ApplicationDeploymentNode \<Rightarrow> string \<times> ApplicationDeploymentInput \<Rightarrow> diags" where
  "validateInput node entry = (case entry of (name, input) \<Rightarrow>
     push_if (\<not> nonEmptyString (JString name))
       (diagnostic DEPLOYMENT_NODE_INVALID
          (''Deployment node '' @ node_id node @ '' contains an unnamed input.'') (Some node))
     @ (case input of
          OutputInput nodeId out sens pers \<Rightarrow>
            push_if (sens = SSensitive \<and> pers \<noteq> PRedacted \<and> pers \<noteq> PReference \<and> pers \<noteq> PEphemeral)
              (diagnostic DEPLOYMENT_SECRET_UNSAFE
                 (''Sensitive input '' @ node_id node @ ''.'' @ name @
                  '' must be redacted, reference-only, or ephemeral.'') (Some node))
        | _ \<Rightarrow> []))"

definition validateInputs :: "ApplicationDeploymentNode \<Rightarrow> diags" where
  "validateInputs node = concat (map (validateInput node) (node_inputs node))"

definition validateLifecycle :: "ApplicationDeploymentNode \<Rightarrow> diags" where
  "validateLifecycle node =
     (let lc = node_lifecycle node in
      push_if (life_ownership lc = OwnExternal \<and>
               (life_deletion lc \<noteq> DelNone \<or> life_adoption lc \<noteq> AdoptExternalOnly))
        (diagnostic DEPLOYMENT_LIFECYCLE_UNSAFE
           (''Externally owned node '' @ node_id node @ '' cannot be adopted or deleted.'')
           (Some node))
      @ push_if (life_deletion lc = DelRetain \<and> life_namespaceNodeId lc = Some (node_id node))
        (diagnostic DEPLOYMENT_LIFECYCLE_UNSAFE
           (''Retained node '' @ node_id node @
            '' cannot own the namespace whose deletion controls its retention.'') (Some node)))"

definition validateNode :: "ApplicationDeploymentGraph \<Rightarrow> ApplicationDeploymentNode \<Rightarrow> diags" where
  "validateNode graph node =
     (let lc = node_lifecycle node; strategy = meta_strategy (graph_metadata graph) in
      push_if (\<not> isSafeInteger (node_contractVersion node) \<or> num_less_int (node_contractVersion node) 1)
        (diagnostic DEPLOYMENT_NODE_INVALID
           (''Deployment node '' @ node_id node @ '' contractVersion must be a positive integer.'')
           (Some node))
      @ push_if (\<not> sha256Pattern (node_configurationDigest node))
        (diagnostic DEPLOYMENT_NODE_INVALID
           (''Deployment node '' @ node_id node @
            '' configurationDigest must be a full sha256 digest.'') (Some node))
      @ push_if (scope_connectionDigest (node_scope node) \<noteq>
                 conn_digest (id_connection (meta_identity (graph_metadata graph))))
        (diagnostic DEPLOYMENT_CONNECTION_UNSAFE
           (''Deployment node '' @ node_id node @ '' belongs to a different connection.'')
           (Some node))
      @ (if strategy \<notin> set (cap_strategies (node_capabilities node)) then
           (let allowedDirectException = (strategy = StrategyKro \<and> node_kind node = KKubernetesDirect) in
            push_if (\<not> allowedDirectException)
              (diagnostic DEPLOYMENT_STRATEGY_UNSUPPORTED
                 (''Deployment node '' @ node_id node @ '' does not support '' @
                  strategy_literal strategy @ '' mode.'') (Some node)))
         else [])
      @ validateOutputs node @ validateInputs node @ validateLifecycle node
      @ push_if (node_kind node = KExternalProvider \<and> life_ownership lc = OwnApplication \<and>
                 \<not> nonEmptyString (obj_get (node_spec node) ''controller''))
        (diagnostic DEPLOYMENT_LIFECYCLE_UNSAFE
           (''External provider node '' @ node_id node @ '' has no durable execution controller.'')
           (Some node))
      @ push_if (node_kind node = KExternalReference \<and>
                 (life_ownership lc \<noteq> OwnExternal \<or> life_deletion lc \<noteq> DelNone \<or>
                  life_adoption lc \<noteq> AdoptExternalOnly))
        (diagnostic DEPLOYMENT_LIFECYCLE_UNSAFE
           (''External reference '' @ node_id node @
            '' cannot carry create, adoption, or deletion ownership.'') (Some node))
      @ push_if (node_kind node = KStatusProjection \<and>
                 (\<not> nonEmptyString (obj_get (node_spec node) ''field'') \<or>
                  \<not> nonEmptyString (obj_get (node_spec node) ''sourceNodeId'') \<or>
                  \<not> nonEmptyString (obj_get (node_spec node) ''sourcePath'')))
        (diagnostic DEPLOYMENT_STATUS_INVALID
           (''Status projection '' @ node_id node @
            '' must name a field, source node, and source path.'') (Some node)))"

text \<open>
  The loop of \<open>validateNodes\<close> with its map \<open>nodes\<close>: an unnamed or repeated node is reported and
  skipped, so the first node of an id is the one the map keeps.
\<close>

fun validateNodes_loop ::
  "ApplicationDeploymentGraph \<Rightarrow> node_map \<Rightarrow> ApplicationDeploymentNode list \<Rightarrow> node_map \<times> diags" where
  "validateNodes_loop graph nodes [] = (nodes, [])"
| "validateNodes_loop graph nodes (node # rest) =
     (if \<not> nonEmptyString (JString (node_id node)) then
        (let (nodes', ds) = validateNodes_loop graph nodes rest in
         (nodes', diagnostic DEPLOYMENT_NODE_INVALID ''Deployment node id must be non-empty.''
                    (Some node) # ds))
      else if nodes (node_id node) \<noteq> None then
        (let (nodes', ds) = validateNodes_loop graph nodes rest in
         (nodes', diagnostic DEPLOYMENT_NODE_DUPLICATE
                    (''Deployment node id '' @ node_id node @ '' is duplicated.'') (Some node) # ds))
      else
        (let (nodes', ds) = validateNodes_loop graph (nodes(node_id node \<mapsto> node)) rest in
         (nodes', validateNode graph node @ ds)))"

definition validateNodes :: "ApplicationDeploymentGraph \<Rightarrow> node_map \<times> diags" where
  "validateNodes graph = validateNodes_loop graph Map.empty (graph_nodes graph)"

definition edge_text :: "ApplicationDeploymentEdge \<Rightarrow> string" where
  "edge_text edge =
     edge_from edge @ '' '' @ edge_kind_literal (edge_relationship edge) @ '' '' @ edge_to edge"

text \<open>The key under which \<open>validateEdges\<close> looks for duplicates; its separator is NUL.\<close>

definition edge_key :: "ApplicationDeploymentEdge \<Rightarrow> string" where
  "edge_key edge =
     edge_from edge @ [CHR 0x00] @ edge_kind_literal (edge_relationship edge) @ [CHR 0x00] @
     edge_to edge @ [CHR 0x00] @ (case edge_output edge of None \<Rightarrow> [] | Some out \<Rightarrow> out)"

definition option_jsval :: "string option \<Rightarrow> jsval" where
  "option_jsval v = (case v of None \<Rightarrow> JUndefined | Some s \<Rightarrow> JString s)"

text \<open>The checks of one edge both of whose endpoints exist.\<close>

definition validateEdgeBody ::
  "ApplicationDeploymentEdge \<Rightarrow> ApplicationDeploymentNode \<Rightarrow> ApplicationDeploymentNode \<Rightarrow> diags" where
  "validateEdgeBody edge frm dest =
     push_if (scope_connectionDigest (node_scope frm) \<noteq> scope_connectionDigest (node_scope dest))
       (edgeDiagnostic DEPLOYMENT_CONNECTION_UNSAFE
          (''Deployment edge '' @ edge_text edge @ '' crosses connections.'') edge)
     @ push_if (edge_relationship edge = RequiresOutput \<and>
         (\<not> nonEmptyString (option_jsval (edge_output edge)) \<or>
          \<not> list_ex (\<lambda>out. Some (out_name out) = edge_output edge) (node_outputs frm)))
       (edgeDiagnostic DEPLOYMENT_OUTPUT_INVALID
          (''Output dependency '' @ edge_from edge @ '' -> '' @ edge_to edge @
           '' names an output that '' @ edge_from edge @ '' does not declare.'') edge)
     @ push_if (edge_relationship edge = Owns \<and>
         (life_ownership (node_lifecycle frm) = OwnExternal \<or>
          life_ownership (node_lifecycle dest) = OwnExternal))
       (edgeDiagnostic DEPLOYMENT_LIFECYCLE_UNSAFE
          (''Ownership edge '' @ edge_from edge @ '' -> '' @ edge_to edge @
           '' cannot include an external resource.'') edge)
     @ push_if (edge_relationship edge = Retains \<and>
         life_namespaceNodeId (node_lifecycle dest) = Some (node_id frm) \<and>
         life_deletion (node_lifecycle frm) = DelDelete)
       (edgeDiagnostic DEPLOYMENT_LIFECYCLE_UNSAFE
          (''Retained node '' @ node_id dest @ '' cannot live inside deleted namespace '' @
           node_id frm @ ''.'') edge)"

fun validateEdges_loop ::
  "node_map \<Rightarrow> string list \<Rightarrow> ApplicationDeploymentEdge list \<Rightarrow> diags" where
  "validateEdges_loop nodes keys [] = []"
| "validateEdges_loop nodes keys (edge # rest) =
     push_if (edge_key edge \<in> set keys)
       (edgeDiagnostic DEPLOYMENT_EDGE_INVALID
          (''Deployment edge '' @ edge_text edge @ '' is duplicated.'') edge)
     @ (case (nodes (edge_from edge), nodes (edge_to edge)) of
          (Some frm, Some dest) \<Rightarrow>
            (if edge_from edge = edge_to edge then
               [edgeDiagnostic DEPLOYMENT_EDGE_INVALID
                  (''Deployment edge '' @ edge_text edge @
                   '' has a missing or self-referential endpoint.'') edge]
             else validateEdgeBody edge frm dest)
        | _ \<Rightarrow>
            [edgeDiagnostic DEPLOYMENT_EDGE_INVALID
               (''Deployment edge '' @ edge_text edge @
                '' has a missing or self-referential endpoint.'') edge])
     @ validateEdges_loop nodes (edge_key edge # keys) rest"

definition has_edge ::
  "ApplicationDeploymentEdge list \<Rightarrow> string \<Rightarrow> string \<Rightarrow> ApplicationDeploymentEdgeKind \<Rightarrow> bool" where
  "has_edge edges frm dest rel =
     list_ex (\<lambda>e. edge_from e = frm \<and> edge_to e = dest \<and> edge_relationship e = rel) edges"

definition has_output_edge ::
  "ApplicationDeploymentEdge list \<Rightarrow> string \<Rightarrow> string \<Rightarrow> string \<Rightarrow> bool" where
  "has_output_edge edges frm dest out =
     list_ex (\<lambda>e. edge_from e = frm \<and> edge_to e = dest \<and> edge_relationship e = RequiresOutput \<and>
                  edge_output e = Some out) edges"

definition validateInputReference ::
  "ApplicationDeploymentNode \<Rightarrow> node_map \<Rightarrow> ApplicationDeploymentEdge list \<Rightarrow>
   string \<times> ApplicationDeploymentInput \<Rightarrow> diags" where
  "validateInputReference node nodes edges entry = (case entry of (name, input) \<Rightarrow>
     (case input of
        LiteralInput v \<Rightarrow> []
      | SecretReferenceInput nodeId ky \<Rightarrow>
          (case nodes nodeId of
             None \<Rightarrow>
               [diagnostic DEPLOYMENT_NODE_INVALID
                  (''Input '' @ node_id node @ ''.'' @ name @ '' references missing node '' @
                   nodeId @ ''.'') (Some node)]
           | Some producer \<Rightarrow>
               push_if (node_kind producer \<noteq> KSecretReference)
                 (diagnostic DEPLOYMENT_SECRET_UNSAFE
                    (''Secret input '' @ node_id node @ ''.'' @ name @
                     '' must reference a secretReference node.'') (Some node))
               @ push_if (\<not> has_edge edges nodeId (node_id node) RequiresReady)
                 (diagnostic DEPLOYMENT_EDGE_INVALID
                    (''Secret input '' @ node_id node @ ''.'' @ name @
                     '' is missing its requiresReady edge from '' @ nodeId @ ''.'') (Some node)))
      | OutputInput nodeId outn sens pers \<Rightarrow>
          (case nodes nodeId of
             None \<Rightarrow>
               [diagnostic DEPLOYMENT_NODE_INVALID
                  (''Input '' @ node_id node @ ''.'' @ name @ '' references missing node '' @
                   nodeId @ ''.'') (Some node)]
           | Some producer \<Rightarrow>
               (case List.find (\<lambda>candidate. out_name candidate = outn) (node_outputs producer) of
                  None \<Rightarrow>
                    [diagnostic DEPLOYMENT_OUTPUT_INVALID
                       (''Input '' @ node_id node @ ''.'' @ name @ '' references missing output '' @
                        nodeId @ ''.'' @ outn @ ''.'') (Some node)]
                | Some out \<Rightarrow>
                    push_if (out_sensitivity out \<noteq> sens \<or> out_persistence out \<noteq> pers)
                      (diagnostic DEPLOYMENT_OUTPUT_INVALID
                         (''Input '' @ node_id node @ ''.'' @ name @
                          '' must preserve the sensitivity and persistence of '' @ nodeId @ ''.'' @
                          outn @ ''.'') (Some node))
                    @ push_if (\<not> has_output_edge edges nodeId (node_id node) outn)
                      (diagnostic DEPLOYMENT_EDGE_INVALID
                         (''Input '' @ node_id node @ ''.'' @ name @
                          '' is missing its requiresOutput edge from '' @ nodeId @ ''.'' @
                          outn @ ''.'') (Some node))))))"

definition validateInputReferences ::
  "ApplicationDeploymentNode \<Rightarrow> node_map \<Rightarrow> ApplicationDeploymentEdge list \<Rightarrow> diags" where
  "validateInputReferences node nodes edges =
     concat (map (validateInputReference node nodes edges) (node_inputs node))"

text \<open>
  \<open>if (!namespaceNodeId) return\<close> also returns on the empty string.
\<close>

definition validateNamespaceReference :: "ApplicationDeploymentNode \<Rightarrow> node_map \<Rightarrow> diags" where
  "validateNamespaceReference node nodes =
     (case life_namespaceNodeId (node_lifecycle node) of
        None \<Rightarrow> []
      | Some namespaceNodeId \<Rightarrow>
          if namespaceNodeId = [] then []
          else (case nodes namespaceNodeId of
             None \<Rightarrow>
               [diagnostic DEPLOYMENT_LIFECYCLE_UNSAFE
                  (''Deployment node '' @ node_id node @ '' references missing lifecycle namespace '' @
                   namespaceNodeId @ ''.'') (Some node)]
           | Some namespace \<Rightarrow>
               push_if (node_id namespace = node_id node)
                 (diagnostic DEPLOYMENT_LIFECYCLE_UNSAFE
                    (''Deployment node '' @ node_id node @
                     '' cannot use itself as its lifecycle namespace.'') (Some node))
               @ push_if ((life_deletion (node_lifecycle node) = DelRetain \<or>
                           life_deletion (node_lifecycle node) = DelOrphan) \<and>
                          life_deletion (node_lifecycle namespace) = DelDelete)
                 (diagnostic DEPLOYMENT_LIFECYCLE_UNSAFE
                    (''Retained node '' @ node_id node @ '' cannot live inside deleted namespace '' @
                     node_id namespace @ ''.'') (Some node))))"

text \<open>The checks \<open>validateEdges\<close> makes of every node once the edges are done.\<close>

definition validateNodeReferences ::
  "ApplicationDeploymentGraph \<Rightarrow> node_map \<Rightarrow> ApplicationDeploymentNode \<Rightarrow> diags" where
  "validateNodeReferences graph nodes node =
     validateInputReferences node nodes (graph_edges graph)
     @ validateNamespaceReference node nodes
     @ push_if (node_kind node = KStatusProjection \<and> nodes (spec_string node ''sourceNodeId'') = None)
         (diagnostic DEPLOYMENT_STATUS_INVALID
            (''Status projection '' @ node_id node @ '' references missing source '' @
             spec_string node ''sourceNodeId'' @ ''.'') (Some node))
     @ push_if (node_kind node = KStatusProjection \<and>
                nodes (spec_string node ''sourceNodeId'') \<noteq> None \<and>
                \<not> has_edge (graph_edges graph) (spec_string node ''sourceNodeId'') (node_id node)
                    ProjectsStatus)
         (diagnostic DEPLOYMENT_STATUS_INVALID
            (''Status projection '' @ node_id node @ '' is missing its projectsStatus edge from '' @
             spec_string node ''sourceNodeId'' @ ''.'') (Some node))"

definition validateEdges :: "ApplicationDeploymentGraph \<Rightarrow> node_map \<Rightarrow> diags" where
  "validateEdges graph nodes =
     validateEdges_loop nodes [] (graph_edges graph)
     @ concat (map (validateNodeReferences graph nodes) (graph_nodes graph))"

fun validateSingletons_loop :: "node_map \<Rightarrow> ApplicationDeploymentNode list \<Rightarrow> diags" where
  "validateSingletons_loop singletons [] = []"
| "validateSingletons_loop singletons (node # rest) =
     (if node_kind node \<noteq> KSingleton then validateSingletons_loop singletons rest
      else (let singletonKey = spec_string node ''singletonKey'' in
        (case singletons singletonKey of
           Some existing \<Rightarrow>
             push_if (node_configurationDigest existing \<noteq> node_configurationDigest node)
               (diagnostic DEPLOYMENT_SINGLETON_DRIFT
                  (''Singleton key '' @ singletonKey @
                   '' is declared with conflicting configurations by '' @ node_id existing @
                   '' and '' @ node_id node @ ''.'') (Some node))
             @ validateSingletons_loop singletons rest
         | None \<Rightarrow> validateSingletons_loop (singletons(singletonKey \<mapsto> node)) rest)))"

definition validateSingletons :: "ApplicationDeploymentNode list \<Rightarrow> diags" where
  "validateSingletons nodes = validateSingletons_loop Map.empty nodes"

end
