(* ===== verification/Deployment_Cycles.thy ===== *)
theory Deployment_Cycles
  imports Deployment_Validation "HOL-Library.AList"
begin

text \<open>
  \<open>validateCycles\<close> of \<^verbatim>\<open>packages/deployment-contract/src/validation.ts\<close>: a depth-first search
  over the causal edges that reports a diagnostic for each back edge. The closure \<open>visit\<close> shares
  the sets \<open>visiting\<close> and \<open>visited\<close>, the array \<open>path\<close> and the diagnostics; they are the record
  \<open>cycle_state\<close>. The loop \<open>for (const next of ...) visit(next)\<close> is \<open>visit_all\<close>. The theory
  proves that the search ends, that every diagnostic comes with a cycle of the causal relation,
  and that no diagnostic means the causal relation is acyclic, with \<open>visited\<close> read backwards as a
  deployment order.
\<close>

section \<open>Definitions\<close>

type_synonym adjacency = "(string \<times> string list) list"

definition adjacency_of :: "ApplicationDeploymentNode list \<Rightarrow> adjacency" where
  "adjacency_of nodes = foldl (\<lambda>adj n. AList.update (node_id n) [] adj) [] nodes"

definition push_edge :: "adjacency \<Rightarrow> ApplicationDeploymentEdge \<Rightarrow> adjacency" where
  "push_edge adj edge =
     (if \<not> causalRelationships (edge_relationship edge) then adj
      else (case map_of adj (edge_from edge) of
              None \<Rightarrow> adj
            | Some targets \<Rightarrow> AList.update (edge_from edge) (targets @ [edge_to edge]) adj))"

definition causal_adjacency :: "ApplicationDeploymentGraph \<Rightarrow> adjacency" where
  "causal_adjacency graph = foldl push_edge (adjacency_of (graph_nodes graph)) (graph_edges graph)"

text \<open>\<open>adjacency.get(nodeId) ?? []\<close>\<close>

definition successors :: "adjacency \<Rightarrow> string \<Rightarrow> string list" where
  "successors adj n = (case map_of adj n of None \<Rightarrow> [] | Some targets \<Rightarrow> targets)"

record cycle_state =
  visiting :: "string set"
  visited :: "string list"
  path :: "string list"
  cycle_diagnostics :: diags

text \<open>
  \<open>path.slice(path.indexOf(nodeId))\<close>; where the element is absent \<open>indexOf\<close> gives \<open>-1\<close>, and
  \<open>slice(-1)\<close> the last element.
\<close>

definition slice_from :: "string list \<Rightarrow> string \<Rightarrow> string list" where
  "slice_from xs x =
     (if x \<in> set xs then dropWhile (\<lambda>y. y \<noteq> x) xs else drop (length xs - 1) xs)"

definition cycle_diagnostic :: "string list \<Rightarrow> string \<Rightarrow> ApplicationDeploymentDiagnostic" where
  "cycle_diagnostic p nodeId =
     diagnostic DEPLOYMENT_EDGE_CYCLE
       (''Deployment graph contains a cycle: '' @
        js_join '' -> '' (slice_from p nodeId @ [nodeId]) @ ''.'') None"

definition report_cycle :: "cycle_state \<Rightarrow> string \<Rightarrow> cycle_state" where
  "report_cycle st nodeId =
     st\<lparr>cycle_diagnostics := cycle_diagnostics st @ [cycle_diagnostic (path st) nodeId]\<rparr>"

definition enter_node :: "cycle_state \<Rightarrow> string \<Rightarrow> cycle_state" where
  "enter_node st nodeId =
     st\<lparr>visiting := insert nodeId (visiting st), path := path st @ [nodeId]\<rparr>"

definition leave_node :: "cycle_state \<Rightarrow> string \<Rightarrow> cycle_state" where
  "leave_node st nodeId =
     st\<lparr>path := butlast (path st), visiting := visiting st - {nodeId},
        visited := nodeId # visited st\<rparr>"

lemmas node_step_defs = report_cycle_def enter_node_def leave_node_def

function visit_all :: "adjacency \<Rightarrow> cycle_state \<Rightarrow> string list \<Rightarrow> cycle_state" where
  "visit_all adj st [] = st"
| "visit_all adj st (nodeId # rest) =
     (if nodeId \<in> set (visited st) then visit_all adj st rest
      else if nodeId \<in> visiting st then visit_all adj (report_cycle st nodeId) rest
      else visit_all adj
             (leave_node (visit_all adj (enter_node st nodeId) (successors adj nodeId)) nodeId)
             rest)"
  by pat_completeness auto

lemma visit_all_frame_dom:
  "visit_all_dom (adj, st, ns) \<Longrightarrow>
   visiting (visit_all adj st ns) = visiting st \<and>
   set (visited st) \<subseteq> set (visited (visit_all adj st ns))"
proof (induction adj st ns rule: visit_all.pinduct)
  case (1 adj st)
  then show ?case by (simp add: visit_all.psimps)
next
  case (2 adj st n rest)
  consider "n \<in> set (visited st)" | "n \<notin> set (visited st)" "n \<in> visiting st"
    | "n \<notin> set (visited st)" "n \<notin> visiting st" by blast
  then show ?case
  proof cases
    case 1
    with 2 show ?thesis by (simp add: visit_all.psimps)
  next
    case 2
    with "2.IH"(2) "2.hyps" show ?thesis by (simp add: visit_all.psimps report_cycle_def)
  next
    case 3
    with "2.IH"(3,4) "2.hyps" show ?thesis
      by (auto simp: visit_all.psimps enter_node_def leave_node_def)
  qed
qed

text \<open>
  Each call either enters a node with outgoing edges that was neither visited nor on the path, or
  works on a shorter list without forgetting a visited node.
\<close>

definition visit_order :: "((adjacency \<times> cycle_state \<times> string list) \<times>
    (adjacency \<times> cycle_state \<times> string list)) set" where
  "visit_order = inv_image (finite_psubset <*lex*> less_than)
     (\<lambda>(adj, st, ns). (fst ` set adj - visiting st - set (visited st), length ns))"

termination visit_all
proof (relation visit_order)
  show "wf visit_order" by (auto simp: visit_order_def)
next
  fix adj :: adjacency and st :: cycle_state and n rest
  assume fresh: "n \<notin> set (visited st)" "n \<notin> visiting st"
  show "((adj, enter_node st n, successors adj n), (adj, st, n # rest)) \<in> visit_order"
  proof (cases "n \<in> fst ` set adj")
    case True
    with fresh show ?thesis by (auto simp: visit_order_def enter_node_def finite_psubset_def)
  next
    case False
    then have "successors adj n = []"
      by (simp add: successors_def map_of_eq_None_iff [THEN iffD2])
    with False show ?thesis by (auto simp: visit_order_def enter_node_def finite_psubset_def)
  qed
  assume "visit_all_dom (adj, enter_node st n, successors adj n)"
  from visit_all_frame_dom [OF this]
  show "((adj, leave_node (visit_all adj (enter_node st n) (successors adj n)) n, rest),
      (adj, st, n # rest)) \<in> visit_order"
    using fresh by (auto simp: visit_order_def enter_node_def leave_node_def finite_psubset_def)
qed (auto simp: visit_order_def report_cycle_def finite_psubset_def)

lemma visit_all_frame:
  "visiting (visit_all adj st ns) = visiting st \<and>
   set (visited st) \<subseteq> set (visited (visit_all adj st ns))"
  by (induction adj st ns rule: visit_all.induct) (auto simp: node_step_defs)

definition initial_cycle_state :: cycle_state where
  "initial_cycle_state = \<lparr>visiting = {}, visited = [], path = [], cycle_diagnostics = []\<rparr>"

definition validateCycles :: "ApplicationDeploymentGraph \<Rightarrow> diags" where
  "validateCycles graph =
     cycle_diagnostics
       (visit_all (causal_adjacency graph) initial_cycle_state (map node_id (graph_nodes graph)))"

definition validateApplicationDeploymentGraph ::
  "ApplicationDeploymentGraph \<Rightarrow> ApplicationDeploymentValidationResult" where
  "validateApplicationDeploymentGraph graph =
     (let (nodes, nodeDiags) = validateNodes graph;
          diagnostics = validateEnvelope graph @ nodeDiags @ validateEdges graph nodes
            @ validateSingletons (graph_nodes graph) @ validateCycles graph
      in \<lparr>result_valid = \<not> list_ex (\<lambda>d. diag_severity d = SeverityError) diagnostics,
          result_diagnostics = diagnostics\<rparr>)"

section \<open>The adjacency map is the causal relation\<close>

definition causal_edges :: "ApplicationDeploymentGraph \<Rightarrow> (string \<times> string) set" where
  "causal_edges graph =
     {(edge_from e, edge_to e) | e. e \<in> set (graph_edges graph) \<and>
        causalRelationships (edge_relationship e) \<and> edge_from e \<in> node_id ` set (graph_nodes graph)}"

definition edge_rel :: "adjacency \<Rightarrow> (string \<times> string) set" where
  "edge_rel adj = {(u, v). v \<in> set (successors adj u)}"

lemma map_of_adjacency_of:
  "map_of (adjacency_of nodes) n = (if n \<in> node_id ` set nodes then Some [] else None)"
  by (induction nodes rule: rev_induct) (auto simp: adjacency_of_def AList.update_conv)

lemma map_of_push_edge:
  "map_of (push_edge adj e) n =
     (if causalRelationships (edge_relationship e) \<and> edge_from e = n
      then map_option (\<lambda>targets. targets @ [edge_to e]) (map_of adj n) else map_of adj n)"
  by (auto simp: push_edge_def AList.update_conv split: option.splits)

lemma map_of_push_edges:
  "map_of (foldl push_edge adj edges) n =
     map_option (\<lambda>targets. targets @ map edge_to (filter (\<lambda>e. causalRelationships (edge_relationship e) \<and>
        edge_from e = n) edges)) (map_of adj n)"
  by (induction edges rule: rev_induct)
     (auto simp: map_of_push_edge option.map_comp comp_def option.map_ident)

lemma successors_causal_adjacency:
  "successors (causal_adjacency graph) n =
     (if n \<in> node_id ` set (graph_nodes graph)
      then map edge_to (filter (\<lambda>e. causalRelationships (edge_relationship e) \<and> edge_from e = n)
             (graph_edges graph))
      else [])"
  by (auto simp: successors_def causal_adjacency_def map_of_push_edges map_of_adjacency_of)

lemma edge_rel_causal_adjacency: "edge_rel (causal_adjacency graph) = causal_edges graph"
  by (auto simp: edge_rel_def causal_edges_def successors_causal_adjacency split: if_splits)
     (metis imageI)

section \<open>Every reported cycle is a cycle\<close>

definition is_cycle :: "(string \<times> string) set \<Rightarrow> string list \<Rightarrow> bool" where
  "is_cycle E cs = (2 \<le> length cs \<and> hd cs = last cs \<and> successively (\<lambda>u v. (u, v) \<in> E) cs)"

lemma is_cycle_not_acyclic: "is_cycle E cs \<Longrightarrow> \<not> acyclic E"
proof -
  assume c: "is_cycle E cs"
  have path: "successively (\<lambda>u v. (u, v) \<in> E) (u # us) \<Longrightarrow> us \<noteq> [] \<Longrightarrow> (u, last us) \<in> E\<^sup>+" for u us
    by (induction us arbitrary: u) (auto split: if_splits intro: trancl_into_trancl2)
  from c obtain u us where "cs = u # us" "us \<noteq> []"
    by (cases cs; cases "tl cs") (auto simp: is_cycle_def)
  with c path [of u us] show ?thesis
    by (auto simp: is_cycle_def acyclic_def)
qed

lemma visit_all_path: "path (visit_all adj st ns) = path st"
  by (induction adj st ns rule: visit_all.induct) (simp_all add: node_step_defs)

text \<open>
  The state of the search before a loop over \<open>ns\<close>: \<open>visiting\<close> is the path, the path follows the
  edges, and the nodes still to visit are successors of its end.
\<close>

definition on_path :: "adjacency \<Rightarrow> cycle_state \<Rightarrow> string list \<Rightarrow> bool" where
  "on_path adj st ns =
     (visiting st = set (path st) \<and> successively (\<lambda>u v. (u, v) \<in> edge_rel adj) (path st) \<and>
      (path st \<noteq> [] \<longrightarrow> set ns \<subseteq> set (successors adj (last (path st)))))"

definition cycle_message :: "string list \<Rightarrow> string" where
  "cycle_message cs = ''Deployment graph contains a cycle: '' @ js_join '' -> '' cs @ ''.''"

definition reports_cycles :: "(string \<times> string) set \<Rightarrow> diags \<Rightarrow> bool" where
  "reports_cycles E ds =
     (\<forall>d \<in> set ds. \<exists>cs. is_cycle E cs \<and> d = diagnostic DEPLOYMENT_EDGE_CYCLE (cycle_message cs) None)"

lemma successively_dropWhile: "successively P xs \<Longrightarrow> successively P (dropWhile Q xs)"
  by (induction xs rule: induct_list012) auto

lemma on_path_reports:
  assumes "on_path adj st (n # ns)" and "n \<in> visiting st"
  shows "reports_cycles (edge_rel adj) [cycle_diagnostic (path st) n]"
proof -
  let ?p = "dropWhile (\<lambda>y. y \<noteq> n) (path st)"
  have n: "n \<in> set (path st)" and ne: "path st \<noteq> []"
    using assms by (auto simp: on_path_def)
  have p: "?p \<noteq> []" and hd: "hd ?p = n"
    using n hd_dropWhile [of "\<lambda>y. y \<noteq> n" "path st"] by auto
  have last: "last ?p = last (path st)"
    using p by (metis append_Nil2 last_appendR takeWhile_dropWhile_id)
  have "(last (path st), n) \<in> edge_rel adj"
    using assms(1) ne by (auto simp: on_path_def edge_rel_def)
  then have "is_cycle (edge_rel adj) (?p @ [n])"
    using assms(1) p hd last
    by (auto simp: is_cycle_def on_path_def successively_append_iff successively_dropWhile Suc_le_eq)
  then show ?thesis
    using n by (auto simp: reports_cycles_def cycle_diagnostic_def cycle_message_def slice_from_def)
qed

lemma visit_all_reports:
  assumes "on_path adj st ns"
  shows "\<exists>ds. cycle_diagnostics (visit_all adj st ns) = cycle_diagnostics st @ ds \<and>
     reports_cycles (edge_rel adj) ds"
  using assms
proof (induction adj st ns rule: visit_all.induct)
  case (1 adj st)
  then show ?case by (simp add: reports_cycles_def)
next
  case (2 adj st n rest)
  have rest: "on_path adj st rest"
    using "2.prems" by (simp add: on_path_def)
  consider "n \<in> set (visited st)" | "n \<notin> set (visited st)" "n \<in> visiting st"
    | "n \<notin> set (visited st)" "n \<notin> visiting st" by blast
  then show ?case
  proof cases
    case 1
    with "2.IH"(1) rest show ?thesis by simp
  next
    case 2
    have "on_path adj (report_cycle st n) rest"
      using rest by (simp add: on_path_def report_cycle_def)
    with "2.IH"(2) 2 obtain ds where "cycle_diagnostics (visit_all adj (report_cycle st n) rest) =
      cycle_diagnostics st @ cycle_diagnostic (path st) n # ds" "reports_cycles (edge_rel adj) ds"
      by (auto simp: report_cycle_def)
    with 2 on_path_reports [OF "2.prems" 2(2)] show ?thesis
      by (auto simp: reports_cycles_def)
  next
    case 3
    let ?inner = "visit_all adj (enter_node st n) (successors adj n)"
    have "on_path adj (enter_node st n) (successors adj n)"
      using "2.prems" by (auto simp: on_path_def enter_node_def successively_append_iff edge_rel_def)
    with "2.IH"(3) 3 obtain ds where ds: "cycle_diagnostics ?inner = cycle_diagnostics st @ ds"
      "reports_cycles (edge_rel adj) ds"
      by (auto simp: enter_node_def)
    have frame: "visiting ?inner = insert n (visiting st)" "path ?inner = path st @ [n]"
      using visit_all_frame [of adj "enter_node st n" "successors adj n"]
      by (auto simp: visit_all_path enter_node_def)
    then have "on_path adj (leave_node ?inner n) rest"
      using rest 3 by (auto simp: on_path_def leave_node_def)
    with "2.IH"(4) 3 obtain ds' where "cycle_diagnostics (visit_all adj (leave_node ?inner n) rest) =
      cycle_diagnostics (leave_node ?inner n) @ ds'" "reports_cycles (edge_rel adj) ds'"
      by auto
    with 3 ds show ?thesis by (auto simp: reports_cycles_def leave_node_def)
  qed
qed

section \<open>No diagnostic means no cycle\<close>

text \<open>\<open>visited\<close> grows at its head; every successor of a node is visited before it.\<close>

fun topo :: "adjacency \<Rightarrow> string list \<Rightarrow> bool" where
  "topo adj [] = True"
| "topo adj (v # vs) = (set (successors adj v) \<subseteq> set vs \<and> topo adj vs)"

lemma topo_closed: "topo adj vs \<Longrightarrow> v \<in> set vs \<Longrightarrow> set (successors adj v) \<subseteq> set vs"
  by (induction vs) auto

lemma topo_acyclic: "topo adj vs \<Longrightarrow> acyclic (Restr (edge_rel adj) (set vs))"
proof (induction vs)
  case Nil
  then show ?case by (simp add: acyclic_def)
next
  case (Cons v vs)
  show ?case
  proof (cases "v \<in> set vs")
    case True
    with Cons show ?thesis by (simp add: insert_absorb)
  next
    case False
    let ?R = "Restr (edge_rel adj) (set (v # vs))"
    have into: "(u, w) \<in> ?R \<Longrightarrow> w \<in> set vs" for u w
      using Cons.prems topo_closed [of adj vs u] by (auto simp: edge_rel_def)
    have step: "(u, w) \<in> ?R\<^sup>+ \<Longrightarrow> u \<in> set vs \<Longrightarrow> (u, w) \<in> (Restr (edge_rel adj) (set vs))\<^sup>+" for u w
    proof (induction rule: trancl_induct)
      case (base y)
      then have "(u, y) \<in> Restr (edge_rel adj) (set vs)" using into [OF base(1)] by simp
      then show ?case ..
    next
      case (step y z)
      then have "y \<in> set vs"
        using tranclD2 [OF step.hyps(1)] into by blast
      then have "(y, z) \<in> Restr (edge_rel adj) (set vs)" using step.hyps(2) into [OF step.hyps(2)] by simp
      with step.IH [OF step.prems] show ?case by (rule trancl_into_trancl)
    qed
    show ?thesis
      unfolding acyclic_def
    proof (intro allI notI)
      fix u assume loop: "(u, u) \<in> ?R\<^sup>+"
      then have "u \<in> set vs" using tranclD2 [OF loop] into by blast
      then have "(u, u) \<in> (Restr (edge_rel adj) (set vs))\<^sup>+" by (rule step [OF loop])
      moreover have "acyclic (Restr (edge_rel adj) (set vs))" using Cons by simp
      ultimately show False by (simp only: acyclic_def)
    qed
  qed
qed

lemma visit_all_topo:
  assumes "cycle_diagnostics (visit_all adj st ns) = cycle_diagnostics st"
    and "topo adj (visited st)" and "on_path adj st ns"
  shows "topo adj (visited (visit_all adj st ns)) \<and> set ns \<subseteq> set (visited (visit_all adj st ns))"
  using assms
proof (induction adj st ns rule: visit_all.induct)
  case (1 adj st)
  then show ?case by simp
next
  case (2 adj st n rest)
  have rest: "on_path adj st rest"
    using "2.prems" by (simp add: on_path_def)
  consider "n \<in> set (visited st)" | "n \<notin> set (visited st)" "n \<in> visiting st"
    | "n \<notin> set (visited st)" "n \<notin> visiting st" by blast
  then show ?case
  proof cases
    case 1
    with "2.IH"(1) "2.prems" rest visit_all_frame [of adj st rest] show ?thesis by auto
  next
    case 2
    have "on_path adj (report_cycle st n) rest"
      using rest by (simp add: on_path_def report_cycle_def)
    from visit_all_reports [OF this] 2 "2.prems"(1) show ?thesis
      by (auto simp: report_cycle_def)
  next
    case 3
    let ?inner = "visit_all adj (enter_node st n) (successors adj n)"
    let ?next = "leave_node ?inner n"
    have enter: "on_path adj (enter_node st n) (successors adj n)"
      using "2.prems"(3) by (auto simp: on_path_def enter_node_def successively_append_iff edge_rel_def)
    have frame: "visiting ?inner = insert n (visiting st)" "path ?inner = path st @ [n]"
      using visit_all_frame [of adj "enter_node st n" "successors adj n"]
      by (auto simp: visit_all_path enter_node_def)
    then have leave: "on_path adj ?next rest"
      using rest 3 by (auto simp: on_path_def leave_node_def)
    from visit_all_reports [OF enter] obtain ds where
      "cycle_diagnostics ?inner = cycle_diagnostics st @ ds" by (auto simp: enter_node_def)
    moreover from visit_all_reports [OF leave] obtain ds' where
      "cycle_diagnostics (visit_all adj ?next rest) = cycle_diagnostics ?inner @ ds'"
      by (auto simp: leave_node_def)
    ultimately have same: "cycle_diagnostics ?inner = cycle_diagnostics st"
      "cycle_diagnostics (visit_all adj ?next rest) = cycle_diagnostics ?next"
      using "2.prems"(1) 3 by (simp_all add: leave_node_def)
    have "topo adj (visited ?next)"
      using "2.IH"(3) [OF 3] same(1) "2.prems"(2) enter
      by (simp add: enter_node_def leave_node_def)
    with "2.IH"(4) [OF 3] same(2) leave
    have "topo adj (visited (visit_all adj ?next rest)) \<and>
        set rest \<subseteq> set (visited (visit_all adj ?next rest))" by simp
    moreover have "n \<in> set (visited (visit_all adj ?next rest))"
      using visit_all_frame [of adj ?next rest] by (auto simp: leave_node_def)
    ultimately show ?thesis using 3 by simp
  qed
qed

lemma on_path_initial: "on_path adj initial_cycle_state ns"
  by (simp add: on_path_def initial_cycle_state_def)

lemma validateCycles_reports: "reports_cycles (causal_edges graph) (validateCycles graph)"
  using visit_all_reports [OF on_path_initial, of "causal_adjacency graph" "map node_id (graph_nodes graph)"]
  by (auto simp: validateCycles_def edge_rel_causal_adjacency initial_cycle_state_def)

lemma causal_edges_domain: "(u, v) \<in> causal_edges graph \<Longrightarrow> u \<in> node_id ` set (graph_nodes graph)"
  by (auto simp: causal_edges_def)

lemma validateCycles_iff [check_iff]: "validateCycles graph = [] \<longleftrightarrow> acyclic (causal_edges graph)"
proof
  let ?final = "visit_all (causal_adjacency graph) initial_cycle_state (map node_id (graph_nodes graph))"
  assume "validateCycles graph = []"
  then have "topo (causal_adjacency graph) (visited ?final) \<and>
      node_id ` set (graph_nodes graph) \<subseteq> set (visited ?final)"
    using visit_all_topo [OF _ _ on_path_initial, of "causal_adjacency graph"
        "map node_id (graph_nodes graph)"]
    by (simp add: validateCycles_def initial_cycle_state_def)
  then have topo: "topo (causal_adjacency graph) (visited ?final)"
    and all: "node_id ` set (graph_nodes graph) \<subseteq> set (visited ?final)" by simp_all
  have "u \<in> set (visited ?final) \<and> v \<in> set (visited ?final)" if "(u, v) \<in> causal_edges graph" for u v
  proof -
    have u: "u \<in> set (visited ?final)"
      using that all causal_edges_domain by blast
    have "v \<in> set (successors (causal_adjacency graph) u)"
      using that by (simp add: edge_rel_causal_adjacency [symmetric] edge_rel_def)
    with u topo_closed [OF topo u] show ?thesis by blast
  qed
  then have "Restr (causal_edges graph) (set (visited ?final)) = causal_edges graph" by auto
  with topo_acyclic [OF topo] show "acyclic (causal_edges graph)"
    by (simp add: edge_rel_causal_adjacency)
next
  assume "acyclic (causal_edges graph)"
  then show "validateCycles graph = []"
    using validateCycles_reports [of graph] is_cycle_not_acyclic
    by (cases "validateCycles graph") (auto simp: reports_cycles_def)
qed

end
