(* ===== verification/Deployment_Wellformed.thy ===== *)
theory Deployment_Wellformed
  imports Deployment_Cycles
begin

text \<open>
  What the validator of \<^verbatim>\<open>validation.ts\<close> decides. Each routine gets a declarative predicate and
  a lemma that the routine pushes no diagnostic exactly when the predicate holds; the predicates
  together are \<open>graph_ok\<close>. The routines meet the \<open>checker\<close> contract, which lifts them over the
  loops. The main theorem is that the validator accepts exactly the graphs with \<open>graph_ok\<close>; the
  last section draws the guarantees the deployment relies on.
\<close>

section \<open>The specification\<close>

definition nonblank :: "string \<Rightarrow> bool" where
  "nonblank s = (\<exists>c \<in> set s. \<not> is_ws c)"

definition nonblank_val :: "jsval \<Rightarrow> bool" where
  "nonblank_val v = (\<exists>s. v = JString s \<and> nonblank s)"

lemma nonEmptyString_iff [check_iff]: "nonEmptyString v \<longleftrightarrow> nonblank_val v"
  by (cases v) (auto simp: nonEmptyString_def nonblank_val_def nonblank_def trim_eq_Nil_iff)

lemma nonblank_val_JString [simp]: "nonblank_val (JString s) = nonblank s"
  by (simp add: nonblank_val_def)

lemma nonblank_val_option [simp]:
  "nonblank_val (option_jsval v) \<longleftrightarrow> (\<exists>s. v = Some s \<and> nonblank s)"
  by (cases v) (auto simp: option_jsval_def nonblank_val_def)

definition envelope_ok :: "ApplicationDeploymentGraph \<Rightarrow> bool" where
  "envelope_ok g =
     (let idn = meta_identity (graph_metadata g); conn = id_connection idn in
      graph_apiVersion g = ''applik8s.deploymentGraph/v1alpha1'' \<and>
      graph_kind g = ''ApplicationDeploymentGraph'' \<and>
      nonblank (id_application idn) \<and> nonblank (id_controlPlaneNamespace idn) \<and>
      nonblank (id_instance idn) \<and> nonblank (id_profile idn) \<and>
      nonblank (conn_provider conn) \<and> nonblank (conn_cluster conn) \<and>
      sha256Pattern (conn_digest conn) \<and> sha256Pattern (meta_sourceGraphDigest (graph_metadata g)))"

definition output_ok :: "ApplicationDeploymentOutput \<Rightarrow> bool" where
  "output_ok out =
     (\<not> (out_sensitivity out = SSensitive \<and> out_persistence out = PState) \<and>
      (out_type out = OTSecretReference \<longrightarrow> out_persistence out = PReference))"

definition outputs_ok :: "ApplicationDeploymentNode \<Rightarrow> bool" where
  "outputs_ok n =
     (distinct (map out_name (node_outputs n)) \<and>
      (\<forall>out \<in> set (node_outputs n). nonblank (out_name out) \<and> output_ok out))"

fun input_ok :: "string \<times> ApplicationDeploymentInput \<Rightarrow> bool" where
  "input_ok (name, OutputInput nid out sens pers) =
     (nonblank name \<and> \<not> (sens = SSensitive \<and> pers = PState))"
| "input_ok (name, _) = nonblank name"

definition external_lifecycle :: "ApplicationDeploymentLifecycle \<Rightarrow> bool" where
  "external_lifecycle lc =
     (life_ownership lc = OwnExternal \<and> life_deletion lc = DelNone \<and> life_adoption lc = AdoptExternalOnly)"

definition lifecycle_ok :: "ApplicationDeploymentNode \<Rightarrow> bool" where
  "lifecycle_ok n =
     ((life_ownership (node_lifecycle n) = OwnExternal \<longrightarrow> external_lifecycle (node_lifecycle n)) \<and>
      (life_deletion (node_lifecycle n) = DelRetain \<longrightarrow>
       life_namespaceNodeId (node_lifecycle n) \<noteq> Some (node_id n)))"

definition node_ok :: "ApplicationDeploymentGraph \<Rightarrow> ApplicationDeploymentNode \<Rightarrow> bool" where
  "node_ok g n =
     ((\<exists>i. node_contractVersion n = NInt i \<and> 1 \<le> i \<and> i \<le> MAX_SAFE_INTEGER) \<and>
      sha256Pattern (node_configurationDigest n) \<and>
      scope_connectionDigest (node_scope n) =
        conn_digest (id_connection (meta_identity (graph_metadata g))) \<and>
      (meta_strategy (graph_metadata g) \<in> set (cap_strategies (node_capabilities n)) \<or>
       meta_strategy (graph_metadata g) = StrategyKro \<and> node_kind n = KKubernetesDirect) \<and>
      outputs_ok n \<and> (\<forall>entry \<in> set (node_inputs n). input_ok entry) \<and> lifecycle_ok n \<and>
      (node_kind n = KExternalProvider \<and> life_ownership (node_lifecycle n) = OwnApplication \<longrightarrow>
       nonblank_val (obj_get (node_spec n) ''controller'')) \<and>
      (node_kind n = KExternalReference \<longrightarrow> external_lifecycle (node_lifecycle n)) \<and>
      (node_kind n = KStatusProjection \<longrightarrow>
       (\<forall>k \<in> {''field'', ''sourceNodeId'', ''sourcePath''}. nonblank_val (obj_get (node_spec n) k))))"

definition edge_ok :: "node_map \<Rightarrow> ApplicationDeploymentEdge \<Rightarrow> bool" where
  "edge_ok nodes e =
     (\<exists>frm dest. nodes (edge_from e) = Some frm \<and> nodes (edge_to e) = Some dest \<and>
        edge_from e \<noteq> edge_to e \<and>
        scope_connectionDigest (node_scope frm) = scope_connectionDigest (node_scope dest) \<and>
        (edge_relationship e = RequiresOutput \<longrightarrow>
          (\<exists>name. edge_output e = Some name \<and> nonblank name \<and> name \<in> out_name ` set (node_outputs frm))) \<and>
        (edge_relationship e = Owns \<longrightarrow>
          life_ownership (node_lifecycle frm) \<noteq> OwnExternal \<and>
          life_ownership (node_lifecycle dest) \<noteq> OwnExternal) \<and>
        \<not> (edge_relationship e = Retains \<and>
           life_namespaceNodeId (node_lifecycle dest) = Some (node_id frm) \<and>
           life_deletion (node_lifecycle frm) = DelDelete))"

fun input_reference_ok ::
  "node_map \<Rightarrow> ApplicationDeploymentEdge list \<Rightarrow> ApplicationDeploymentNode \<Rightarrow>
   ApplicationDeploymentInput \<Rightarrow> bool" where
  "input_reference_ok nodes edges n (LiteralInput v) = True"
| "input_reference_ok nodes edges n (SecretReferenceInput nid ky) =
     (\<exists>producer. nodes nid = Some producer \<and> node_kind producer = KSecretReference \<and>
        has_edge edges nid (node_id n) RequiresReady)"
| "input_reference_ok nodes edges n (OutputInput nid name sens pers) =
     (\<exists>producer out. nodes nid = Some producer \<and>
        List.find (\<lambda>candidate. out_name candidate = name) (node_outputs producer) = Some out \<and>
        out_sensitivity out = sens \<and> out_persistence out = pers \<and>
        has_output_edge edges nid (node_id n) name)"

definition namespace_ok :: "node_map \<Rightarrow> ApplicationDeploymentNode \<Rightarrow> bool" where
  "namespace_ok nodes n =
     (\<forall>ns. life_namespaceNodeId (node_lifecycle n) = Some ns \<and> ns \<noteq> [] \<longrightarrow>
        (\<exists>namespace. nodes ns = Some namespace \<and> node_id namespace \<noteq> node_id n \<and>
           (life_deletion (node_lifecycle n) \<in> {DelRetain, DelOrphan} \<longrightarrow>
            life_deletion (node_lifecycle namespace) \<noteq> DelDelete)))"

definition status_ok ::
  "node_map \<Rightarrow> ApplicationDeploymentEdge list \<Rightarrow> ApplicationDeploymentNode \<Rightarrow> bool" where
  "status_ok nodes edges n =
     (node_kind n = KStatusProjection \<longrightarrow>
        nodes (spec_string n ''sourceNodeId'') \<noteq> None \<and>
        has_edge edges (spec_string n ''sourceNodeId'') (node_id n) ProjectsStatus)"

definition references_ok :: "ApplicationDeploymentGraph \<Rightarrow> node_map \<Rightarrow> ApplicationDeploymentNode \<Rightarrow> bool" where
  "references_ok g nodes n =
     ((\<forall>entry \<in> set (node_inputs n). input_reference_ok nodes (graph_edges g) n (snd entry)) \<and>
      namespace_ok nodes n \<and> status_ok nodes (graph_edges g) n)"

definition compatible_singletons :: "ApplicationDeploymentNode \<Rightarrow> ApplicationDeploymentNode \<Rightarrow> bool" where
  "compatible_singletons a b =
     (node_kind a = KSingleton \<and> node_kind b = KSingleton \<and>
      spec_string a ''singletonKey'' = spec_string b ''singletonKey'' \<longrightarrow>
      node_configurationDigest a = node_configurationDigest b)"

definition singletons_ok :: "ApplicationDeploymentNode list \<Rightarrow> bool" where
  "singletons_ok ns = (\<forall>a \<in> set ns. \<forall>b \<in> set ns. compatible_singletons a b)"

definition node_table :: "ApplicationDeploymentGraph \<Rightarrow> node_map" where
  "node_table g = map_of (map (\<lambda>n. (node_id n, n)) (graph_nodes g))"

definition graph_ok :: "ApplicationDeploymentGraph \<Rightarrow> bool" where
  "graph_ok g =
     (envelope_ok g \<and>
      distinct (map node_id (graph_nodes g)) \<and>
      (\<forall>n \<in> set (graph_nodes g). nonblank (node_id n) \<and> node_ok g n) \<and>
      distinct (map edge_key (graph_edges g)) \<and>
      (\<forall>e \<in> set (graph_edges g). edge_ok (node_table g) e) \<and>
      (\<forall>n \<in> set (graph_nodes g). references_ok g (node_table g) n) \<and>
      singletons_ok (graph_nodes g) \<and>
      acyclic (causal_edges g))"

section \<open>Each routine decides its predicate\<close>

lemma validateEnvelope_iff [check_iff]: "validateEnvelope g = [] \<longleftrightarrow> envelope_ok g"
  by (auto simp: validateEnvelope_def envelope_ok_def Let_def check_iff)

interpretation persistence: checker "validateOutputPersistence n" output_ok for n
  by unfold_locales (auto simp: validateOutputPersistence_def output_ok_def)

lemma validateOutputs_loop_iff:
  "validateOutputs_loop n seen outs = [] \<longleftrightarrow>
     distinct (map out_name outs) \<and> out_name ` set outs \<inter> set seen = {} \<and>
     (\<forall>out \<in> set outs. nonblank (out_name out) \<and> output_ok out)"
proof (induction n seen outs rule: validateOutputs_loop.induct)
  case (2 n seen out outs)
  then show ?case by (simp add: persistence.check_spec check_iff) blast
qed simp

lemma validateOutputs_iff [check_iff]: "validateOutputs n = [] \<longleftrightarrow> outputs_ok n"
  by (auto simp: validateOutputs_def validateOutputs_loop_iff outputs_ok_def)

interpretation inputs: checker "validateInput n" input_ok for n
proof
  fix n and x :: "string \<times> ApplicationDeploymentInput"
  obtain name input where x: "x = (name, input)" by (cases x)
  have "sens = SSensitive \<and> pers \<noteq> PRedacted \<and> pers \<noteq> PReference \<and> pers \<noteq> PEphemeral \<longleftrightarrow>
      sens = SSensitive \<and> pers = PState" for sens pers
    by (cases pers) simp_all
  then show "validateInput n x = [] \<longleftrightarrow> input_ok x"
    unfolding x by (cases input) (auto simp: validateInput_def check_iff)
qed

lemma validateLifecycle_iff [check_iff]: "validateLifecycle n = [] \<longleftrightarrow> lifecycle_ok n"
  by (auto simp: validateLifecycle_def lifecycle_ok_def external_lifecycle_def Let_def)

lemma contract_version_iff:
  "isSafeInteger v \<and> \<not> num_less_int v 1 \<longleftrightarrow> (\<exists>i. v = NInt i \<and> 1 \<le> i \<and> i \<le> MAX_SAFE_INTEGER)"
  by (cases v) auto

lemma strategy_iff:
  "(if s \<notin> S then push_if (\<not> (s = k \<and> c)) d else []) = [] \<longleftrightarrow> s \<in> S \<or> s = k \<and> c"
  by simp

interpretation nodes: checker "validateNode g" "node_ok g" for g
  by unfold_locales
     (simp add: validateNode_def node_ok_def Let_def external_lifecycle_def validateInputs_def
       inputs.check_all check_iff contract_version_iff strategy_iff del: concat_eq_Nil_conv,
      blast)

lemma validateNodes_loop_iff:
  "snd (validateNodes_loop g m ns) = [] \<longleftrightarrow>
     distinct (map node_id ns) \<and> node_id ` set ns \<inter> dom m = {} \<and>
     (\<forall>n \<in> set ns. nonblank (node_id n) \<and> node_ok g n)"
proof (induction ns arbitrary: m)
  case (Cons n ns)
  have "snd (validateNodes_loop g m (n # ns)) = [] \<longleftrightarrow>
      nonblank (node_id n) \<and> m (node_id n) = None \<and> node_ok g n \<and>
      snd (validateNodes_loop g (m(node_id n \<mapsto> n)) ns) = []"
    by (simp add: check_iff nodes.check_spec split_beta Let_def)
  then show ?case
    unfolding Cons by auto
qed simp

lemma validateNodes_loop_map:
  assumes "snd (validateNodes_loop g m ns) = []"
  shows "fst (validateNodes_loop g m ns) = m ++ map_of (map (\<lambda>n. (node_id n, n)) ns)"
  using assms
proof (induction ns arbitrary: m)
  case (Cons n ns)
  let ?rest = "validateNodes_loop g (m(node_id n \<mapsto> n)) ns"
  have new: "node_id n \<notin> node_id ` set ns" and ok: "nonblank (node_id n)" "m (node_id n) = None"
    using Cons.prems unfolding validateNodes_loop_iff by auto
  then have eq: "fst (validateNodes_loop g m (n # ns)) = fst ?rest" "snd ?rest = []"
    using Cons.prems by (simp_all add: check_iff split_beta Let_def)
  have "node_id n \<notin> dom (map_of (map (\<lambda>n. (node_id n, n)) ns))"
    using new by (simp add: dom_map_of_conv_image_fst image_image)
  then have "m(node_id n \<mapsto> n) ++ map_of (map (\<lambda>n. (node_id n, n)) ns) =
      m ++ map_of (map (\<lambda>n. (node_id n, n)) (n # ns))"
    by (simp add: map_add_upd_left del: fun_upd_apply)
  with Cons.IH [OF eq(2)] eq(1) show ?case by (simp only:)
qed simp

lemma validateNodes_iff:
  "snd (validateNodes g) = [] \<longleftrightarrow>
     distinct (map node_id (graph_nodes g)) \<and>
     (\<forall>n \<in> set (graph_nodes g). nonblank (node_id n) \<and> node_ok g n)"
  by (simp add: validateNodes_def validateNodes_loop_iff)

lemma validateNodes_table: "snd (validateNodes g) = [] \<Longrightarrow> fst (validateNodes g) = node_table g"
  by (simp add: validateNodes_def validateNodes_loop_map node_table_def)

lemma list_ex_out_name:
  "list_ex (\<lambda>out. Some (out_name out) = v) outs \<longleftrightarrow> (\<exists>name. v = Some name \<and> name \<in> out_name ` set outs)"
  by (auto simp: list_ex_iff)

lemma validateEdges_loop_iff:
  "validateEdges_loop nodes keys edges = [] \<longleftrightarrow>
     distinct (map edge_key edges) \<and> edge_key ` set edges \<inter> set keys = {} \<and>
     (\<forall>e \<in> set edges. edge_ok nodes e)"
proof (induction nodes keys edges rule: validateEdges_loop.induct)
  case (2 nodes keys e edges)
  have body: "validateEdgeBody e frm dest = [] \<longleftrightarrow>
      scope_connectionDigest (node_scope frm) = scope_connectionDigest (node_scope dest) \<and>
        (edge_relationship e = RequiresOutput \<longrightarrow>
          (\<exists>name. edge_output e = Some name \<and> nonblank name \<and> name \<in> out_name ` set (node_outputs frm))) \<and>
        (edge_relationship e = Owns \<longrightarrow>
          life_ownership (node_lifecycle frm) \<noteq> OwnExternal \<and>
          life_ownership (node_lifecycle dest) \<noteq> OwnExternal) \<and>
        \<not> (edge_relationship e = Retains \<and>
           life_namespaceNodeId (node_lifecycle dest) = Some (node_id frm) \<and>
           life_deletion (node_lifecycle frm) = DelDelete)" for frm dest
    by (auto simp: validateEdgeBody_def check_iff list_ex_out_name)
  show ?case
    using 2 by (cases "nodes (edge_from e)"; cases "nodes (edge_to e)")
      (auto simp: edge_ok_def body)
qed simp

interpretation input_references: checker "validateInputReference n nodes edges"
    "\<lambda>entry. input_reference_ok nodes edges n (snd entry)" for n nodes edges
proof
  fix n nodes edges and x :: "string \<times> ApplicationDeploymentInput"
  obtain name input where x: "x = (name, input)" by (cases x)
  show "validateInputReference n nodes edges x = [] \<longleftrightarrow> input_reference_ok nodes edges n (snd x)"
    unfolding x by (cases input) (auto simp: validateInputReference_def split: option.splits)
qed

lemma validateNamespaceReference_iff [check_iff]:
  "validateNamespaceReference n nodes = [] \<longleftrightarrow> namespace_ok nodes n"
  by (auto simp: validateNamespaceReference_def namespace_ok_def split: option.splits)

interpretation references: checker "validateNodeReferences g nodes" "references_ok g nodes" for g nodes
  by unfold_locales
     (auto simp: validateNodeReferences_def references_ok_def validateInputReferences_def
       input_references.check_spec check_iff status_ok_def)

lemma validateEdges_iff:
  "validateEdges g nodes = [] \<longleftrightarrow>
     distinct (map edge_key (graph_edges g)) \<and> (\<forall>e \<in> set (graph_edges g). edge_ok nodes e) \<and>
     (\<forall>n \<in> set (graph_nodes g). references_ok g nodes n)"
  by (auto simp: validateEdges_def validateEdges_loop_iff references.check_spec)

text \<open>
  The table of singletons holds, for each key met so far, the first node that declared it.
\<close>

definition singleton_table :: "node_map \<Rightarrow> bool" where
  "singleton_table m =
     (\<forall>k n. m k = Some n \<longrightarrow> node_kind n = KSingleton \<and> spec_string n ''singletonKey'' = k)"

lemma compatible_singletons_sym: "compatible_singletons a b \<Longrightarrow> compatible_singletons b a"
  by (auto simp: compatible_singletons_def)

lemma singletons_ok_Cons:
  "singletons_ok (n # ns) \<longleftrightarrow> singletons_ok ns \<and> (\<forall>b \<in> set ns. compatible_singletons n b)"
proof -
  have "compatible_singletons n n"
    by (simp add: compatible_singletons_def)
  then show ?thesis
    by (auto simp: singletons_ok_def intro: compatible_singletons_sym)
qed

lemma validateSingletons_loop_iff:
  assumes "singleton_table m"
  shows "validateSingletons_loop m ns = [] \<longleftrightarrow>
     singletons_ok ns \<and> (\<forall>e \<in> ran m. \<forall>n \<in> set ns. compatible_singletons e n)"
  using assms
proof (induction ns arbitrary: m)
  case Nil
  then show ?case by (simp add: singletons_ok_def)
next
  case (Cons n ns)
  let ?k = "spec_string n ''singletonKey''"
  show ?case
  proof (cases "node_kind n = KSingleton")
    case False
    then have "compatible_singletons a n" "compatible_singletons n a" for a
      by (simp_all add: compatible_singletons_def)
    with False Cons show ?thesis by (simp add: singletons_ok_Cons)
  next
    case True
    show ?thesis
    proof (cases "m ?k")
      case None
      with True Cons.prems have "singleton_table (m(?k \<mapsto> n))"
        by (simp add: singleton_table_def)
      note IH = Cons.IH [OF this]
      have "compatible_singletons e n" if "e \<in> ran m" for e
        using that None Cons.prems by (force simp: singleton_table_def compatible_singletons_def ran_def)
      then show ?thesis
        using True None IH by (auto simp: singletons_ok_Cons ran_map_upd simp del: fun_upd_apply)
    next
      case (Some e)
      then have e: "e \<in> ran m" "node_kind e = KSingleton" "spec_string e ''singletonKey'' = ?k"
        using Cons.prems by (auto simp: singleton_table_def intro: ranI)
      have "compatible_singletons a n \<longleftrightarrow> a \<noteq> e \<or> compatible_singletons e n" if "a \<in> ran m" for a
        using that Some Cons.prems by (force simp: singleton_table_def compatible_singletons_def ran_def)
      then have "(\<forall>a \<in> ran m. compatible_singletons a n) \<longleftrightarrow> compatible_singletons e n"
        using e(1) by blast
      moreover have "compatible_singletons e n \<Longrightarrow> \<forall>b \<in> set ns. compatible_singletons e b \<Longrightarrow>
          \<forall>b \<in> set ns. compatible_singletons n b"
        using True e by (auto simp: compatible_singletons_def)
      moreover have "compatible_singletons e n \<longleftrightarrow> node_configurationDigest e = node_configurationDigest n"
        using True e by (simp add: compatible_singletons_def)
      ultimately show ?thesis
        using True Some e(1) Cons.IH [OF Cons.prems] by (auto simp: singletons_ok_Cons)
    qed
  qed
qed

lemma validateSingletons_iff [check_iff]: "validateSingletons ns = [] \<longleftrightarrow> singletons_ok ns"
  by (simp add: validateSingletons_def validateSingletons_loop_iff singleton_table_def)

section \<open>Every diagnostic is an error\<close>

definition all_errors :: "diags \<Rightarrow> bool" where
  "all_errors ds = (\<forall>d \<in> set ds. diag_severity d = SeverityError)"

named_theorems errors_only \<open>a routine pushes diagnostics of severity error only\<close>

lemma all_errors_simps [simp]:
  "all_errors []"
  "all_errors (d # ds) \<longleftrightarrow> diag_severity d = SeverityError \<and> all_errors ds"
  "all_errors (ds @ es) \<longleftrightarrow> all_errors ds \<and> all_errors es"
  "all_errors (if c then ds else es) \<longleftrightarrow> (if c then all_errors ds else all_errors es)"
  by (auto simp: all_errors_def)

lemma severity_error [simp]:
  "diag_severity (diagnostic code message n) = SeverityError"
  "diag_severity (edgeDiagnostic code message e) = SeverityError"
  by (simp_all add: diagnostic_def edgeDiagnostic_def)

lemma all_errors_concat: "(\<And>x. x \<in> set xs \<Longrightarrow> all_errors (f x)) \<Longrightarrow> all_errors (concat (map f xs))"
  by (auto simp: all_errors_def)

lemma errors_envelope [errors_only]: "all_errors (validateEnvelope g)"
  by (simp add: validateEnvelope_def Let_def)

lemma errors_outputs [errors_only]: "all_errors (validateOutputs_loop n seen outs)"
  by (induction n seen outs rule: validateOutputs_loop.induct) (simp_all add: validateOutputPersistence_def)

lemma errors_inputs [errors_only]: "all_errors (validateInputs n)"
  unfolding validateInputs_def
  by (rule all_errors_concat) (simp add: validateInput_def split: prod.splits ApplicationDeploymentInput.splits)

lemma errors_node [errors_only]: "all_errors (validateNode g n)"
  by (simp add: validateNode_def Let_def validateOutputs_def validateLifecycle_def errors_only)

lemma errors_nodes [errors_only]: "all_errors (snd (validateNodes_loop g m ns))"
  by (induction ns arbitrary: m) (simp_all add: errors_only split_beta Let_def)

lemma errors_edges [errors_only]: "all_errors (validateEdges_loop nodes keys es)"
  by (induction nodes keys es rule: validateEdges_loop.induct)
     (simp_all add: validateEdgeBody_def split: option.splits)

lemma errors_references [errors_only]: "all_errors (validateNodeReferences g nodes n)"
proof -
  have "all_errors (validateInputReferences n nodes (graph_edges g))"
    unfolding validateInputReferences_def
    by (rule all_errors_concat)
       (simp add: validateInputReference_def split: prod.splits option.splits ApplicationDeploymentInput.splits)
  then show ?thesis
    by (simp add: validateNodeReferences_def validateNamespaceReference_def split: option.splits)
qed

lemma errors_singletons [errors_only]: "all_errors (validateSingletons_loop m ns)"
  by (induction ns arbitrary: m) (simp_all add: Let_def split: option.splits)

lemma errors_cycles [errors_only]: "all_errors (validateCycles g)"
  using validateCycles_reports [of g] by (auto simp: all_errors_def reports_cycles_def)

lemma errors_all: "all_errors (result_diagnostics (validateApplicationDeploymentGraph g))"
  by (simp add: validateApplicationDeploymentGraph_def validateNodes_def validateEdges_def
      validateSingletons_def split_beta Let_def errors_only all_errors_concat)

section \<open>The validator decides well-formedness\<close>

lemma valid_iff_no_diagnostics:
  "result_valid (validateApplicationDeploymentGraph g) \<longleftrightarrow>
   result_diagnostics (validateApplicationDeploymentGraph g) = []"
proof -
  have "result_valid (validateApplicationDeploymentGraph g) \<longleftrightarrow>
      \<not> list_ex (\<lambda>d. diag_severity d = SeverityError) (result_diagnostics (validateApplicationDeploymentGraph g))"
    by (simp add: validateApplicationDeploymentGraph_def split_beta Let_def)
  also have "\<dots> \<longleftrightarrow> result_diagnostics (validateApplicationDeploymentGraph g) = []"
    using errors_all [of g]
    by (cases "result_diagnostics (validateApplicationDeploymentGraph g)") (auto simp: list_ex_iff)
  finally show ?thesis .
qed

lemma no_diagnostics_iff:
  "result_diagnostics (validateApplicationDeploymentGraph g) = [] \<longleftrightarrow> graph_ok g"
proof (cases "snd (validateNodes g) = []")
  case True
  then show ?thesis
    using validateNodes_table [OF True] validateNodes_iff [of g]
    by (auto simp: validateApplicationDeploymentGraph_def split_beta Let_def graph_ok_def
        validateEdges_iff check_iff)
next
  case False
  then show ?thesis
    using validateNodes_iff [of g]
    by (auto simp: validateApplicationDeploymentGraph_def split_beta Let_def graph_ok_def)
qed

lemma valid_iff_graph_ok: "result_valid (validateApplicationDeploymentGraph g) \<longleftrightarrow> graph_ok g"
  by (simp add: valid_iff_no_diagnostics no_diagnostics_iff)

section \<open>What a valid graph guarantees\<close>

lemma node_table_Some: "node_table g nid = Some n \<Longrightarrow> n \<in> set (graph_nodes g) \<and> node_id n = nid"
  by (auto simp: node_table_def dest: map_of_SomeD)

lemma node_table_dom: "node_table g nid \<noteq> None \<longleftrightarrow> nid \<in> node_id ` set (graph_nodes g)"
  by (simp add: node_table_def map_of_eq_None_iff image_image)

lemma graph_okD:
  assumes "graph_ok g"
  shows "n \<in> set (graph_nodes g) \<Longrightarrow> node_ok g n"
    and "n \<in> set (graph_nodes g) \<Longrightarrow> references_ok g (node_table g) n"
    and "e \<in> set (graph_edges g) \<Longrightarrow> edge_ok (node_table g) e"
    and "acyclic (causal_edges g)"
  using assms by (auto simp: graph_ok_def)

lemma causal_edges_nodes:
  assumes "graph_ok g"
  shows "causal_edges g \<subseteq> node_id ` set (graph_nodes g) \<times> node_id ` set (graph_nodes g)"
proof
  fix p assume "p \<in> causal_edges g"
  then obtain e where e: "e \<in> set (graph_edges g)" "p = (edge_from e, edge_to e)"
      "edge_from e \<in> node_id ` set (graph_nodes g)"
    by (auto simp: causal_edges_def)
  then have "node_table g (edge_to e) \<noteq> None"
    using graph_okD(3) [OF assms] by (auto simp: edge_ok_def)
  with e show "p \<in> node_id ` set (graph_nodes g) \<times> node_id ` set (graph_nodes g)"
    by (simp only: node_table_dom mem_Times_iff fst_conv snd_conv)
qed

lemma has_output_edge_causal:
  assumes "has_output_edge (graph_edges g) nid m name" and "nid \<in> node_id ` set (graph_nodes g)"
  shows "(nid, m) \<in> causal_edges g"
  using assms by (force simp: has_output_edge_def list_ex_iff causal_edges_def)

text \<open>A finite acyclic relation has an enumeration that respects it.\<close>

definition in_order :: "('a \<times> 'a) set \<Rightarrow> 'a list \<Rightarrow> bool" where
  "in_order E xs =
     (\<forall>u v. (u, v) \<in> E \<longrightarrow> (\<exists>i j. i < j \<and> j < length xs \<and> xs ! i = u \<and> xs ! j = v))"

lemma acyclic_enumeration:
  assumes "finite A" and "acyclic E" and "E \<subseteq> A \<times> A"
  shows "\<exists>xs. set xs = A \<and> distinct xs \<and> in_order E xs"
  using assms
proof (induction "card A" arbitrary: A E)
  case 0
  then show ?case by (intro exI [of _ "[]"]) (auto simp: in_order_def)
next
  case (Suc k)
  have "finite E" using Suc.prems by (meson finite_SigmaI finite_subset)
  then have "wf (E\<inverse>)"
    using Suc.prems(2) by (simp add: finite_acyclic_wf_converse)
  moreover obtain a where "a \<in> A" using Suc.hyps(2) by (metis card.empty ex_in_conv nat.distinct(1))
  ultimately obtain z where z: "z \<in> A" and last: "\<And>y. (z, y) \<in> E \<Longrightarrow> y \<notin> A"
    by (metis converse_iff wfE_min)
  let ?A = "A - {z}" and ?E = "E \<inter> (A - {z}) \<times> (A - {z})"
  have "\<exists>xs. set xs = ?A \<and> distinct xs \<and> in_order ?E xs"
    using Suc z by (intro Suc.hyps) (auto simp: acyclic_subset)
  then obtain xs where xs: "set xs = ?A" "distinct xs" "in_order ?E xs" by blast
  have "in_order E (xs @ [z])"
    unfolding in_order_def
  proof (intro allI impI)
    fix u v assume uv: "(u, v) \<in> E"
    then have u: "u \<in> set xs" using Suc.prems(3) last xs(1) by blast
    show "\<exists>i j. i < j \<and> j < length (xs @ [z]) \<and> (xs @ [z]) ! i = u \<and> (xs @ [z]) ! j = v"
    proof (cases "v = z")
      case True
      from u obtain i where "i < length xs" "xs ! i = u" by (auto simp: in_set_conv_nth)
      with True show ?thesis by (intro exI [of _ i] exI [of _ "length xs"]) (simp add: nth_append)
    next
      case False
      with uv u Suc.prems(3) xs(1) have "(u, v) \<in> ?E" by blast
      with xs(3) obtain i j where ij: "i < j" "j < length xs" "xs ! i = u" "xs ! j = v"
        unfolding in_order_def by blast
      then show ?thesis by (intro exI [of _ i] exI [of _ j]) (simp add: nth_append)
    qed
  qed
  with xs z show ?case by (intro exI [of _ "xs @ [z]"]) auto
qed

section \<open>Properties\<close>

definition example_digest :: string where
  "example_digest = ''sha256:'' @ replicate 64 (CHR ''a'')"

definition example_node ::
  "string \<Rightarrow> ApplicationDeploymentNodeKind \<Rightarrow> (string \<times> ApplicationDeploymentInput) list \<Rightarrow>
   ApplicationDeploymentOutput list \<Rightarrow> ApplicationDeploymentLifecycle \<Rightarrow> jsobject \<Rightarrow>
   ApplicationDeploymentNode" where
  "example_node nid k ins outs lc sp =
     \<lparr>node_id = nid, node_kind = k, node_contractVersion = NInt 1,
      node_source = \<lparr>src_semanticNodeId = None, src_artifactPath = None, src_file = None,
                     src_line = None, src_column = None\<rparr>,
      node_provider = \<lparr>prov_interface = ''p'', prov_implementation = ''i'', prov_version = ''1''\<rparr>,
      node_scope = \<lparr>scope_connectionDigest = example_digest, scope_namespace = None\<rparr>,
      node_capabilities = \<lparr>cap_strategies = [StrategyDirect], cap_alchemy = True\<rparr>,
      node_configurationDigest = example_digest, node_inputs = ins, node_outputs = outs,
      node_lifecycle = lc, node_spec = sp\<rparr>"

text \<open>
  A namespace, a database that publishes a sensitive password, and a composition that consumes it
  and is retained inside the namespace.
\<close>

definition example_graph :: ApplicationDeploymentGraph where
  "example_graph =
     \<lparr>graph_apiVersion = ''applik8s.deploymentGraph/v1alpha1'',
      graph_kind = ''ApplicationDeploymentGraph'',
      graph_metadata =
        \<lparr>meta_identity =
           \<lparr>id_connection = \<lparr>conn_provider = ''k'', conn_cluster = ''c'', conn_digest = example_digest\<rparr>,
            id_application = ''a'', id_controlPlaneNamespace = ''n'', id_instance = ''i'',
            id_profile = ''p''\<rparr>,
         meta_mode = ModeFresh, meta_strategy = StrategyDirect,
         meta_sourceGraphDigest = example_digest, meta_compilerVersion = ''1'',
         meta_profileTransition = None\<rparr>,
      graph_nodes =
        [example_node ''app'' KKubernetesComposition
           [(''password'', OutputInput ''db'' ''pw'' SSensitive PRedacted)] []
           \<lparr>life_ownership = OwnApplication, life_deletion = DelRetain,
            life_adoption = AdoptCreateOnly, life_namespaceNodeId = Some ''ns''\<rparr>
           [(''compositionId'', JString ''x''), (''fragmentIds'', JArray [])],
         example_node ''db'' KArtifact []
           [\<lparr>out_name = ''pw'', out_type = OTString, out_sensitivity = SSensitive,
             out_persistence = PRedacted\<rparr>]
           \<lparr>life_ownership = OwnApplication, life_deletion = DelDelete,
            life_adoption = AdoptCreateOnly, life_namespaceNodeId = None\<rparr>
           [(''artifactType'', JString ''migration''), (''sourceDescriptor'', JObject [])],
         example_node ''ns'' KKubernetesDirect [] []
           \<lparr>life_ownership = OwnShared, life_deletion = DelRetain,
            life_adoption = AdoptCreateOnly, life_namespaceNodeId = None\<rparr>
           [(''compositionId'', JString ''y''), (''reason'', JString ''z'')]],
      graph_edges =
        [\<lparr>edge_from = ''db'', edge_to = ''app'', edge_relationship = RequiresOutput,
          edge_output = Some ''pw''\<rparr>]\<rparr>"

lemma example_graph_valid: "result_valid (validateApplicationDeploymentGraph example_graph)"
  by code_simp

text \<open>
  C1: the validator accepts a deployment graph exactly when it meets the declarative
  specification \<open>graph_ok\<close>, and it accepts exactly when it reports no diagnostic.
\<close>

theorem validator_decides_wellformedness:
  "result_valid (validateApplicationDeploymentGraph g) = graph_ok g \<and>
   result_valid (validateApplicationDeploymentGraph g) =
     (result_diagnostics (validateApplicationDeploymentGraph g) = [])"
  using valid_iff_graph_ok valid_iff_no_diagnostics by blast

text \<open>
  C2: the depth-first search finds a cycle of the causal relation whenever there is one, and the
  node sequence printed in each diagnostic is a cycle of that relation.
\<close>

theorem cycle_search_correct:
  "(validateCycles g = [] \<longleftrightarrow> acyclic (causal_edges g)) \<and>
   reports_cycles (causal_edges g) (validateCycles g)"
  using validateCycles_iff validateCycles_reports by blast

text \<open>
  C3: the nodes of an accepted graph can be put in a deployment order in which every causal
  dependency comes before the node that depends on it.
\<close>

theorem valid_graph_has_deployment_order:
  assumes "result_valid (validateApplicationDeploymentGraph g)"
  shows "\<exists>order. set order = node_id ` set (graph_nodes g) \<and> distinct order \<and>
     in_order (causal_edges g) order"
proof -
  have ok: "graph_ok g" using assms by (simp add: valid_iff_graph_ok)
  show ?thesis
    by (rule acyclic_enumeration [OF _ graph_okD(4) [OF ok] causal_edges_nodes [OF ok]]) simp
qed

theorem valid_graph_has_deployment_order_witness:
  "\<exists>order. set order = {''app'', ''db'', ''ns''} \<and> distinct order \<and>
     in_order (causal_edges example_graph) order"
  using valid_graph_has_deployment_order [OF example_graph_valid]
  by (simp add: example_graph_def example_node_def insert_commute)

text \<open>
  C4: in an accepted graph a sensitive input comes from a declared output of an existing node that
  is itself sensitive with the same persistence, which is never plaintext state, and the
  dependency is a causal edge.
\<close>

theorem sensitive_inputs_never_plaintext:
  assumes "result_valid (validateApplicationDeploymentGraph g)"
    and "n \<in> set (graph_nodes g)"
    and "(name, OutputInput nid outn SSensitive pers) \<in> set (node_inputs n)"
  shows "pers \<noteq> PState \<and> (nid, node_id n) \<in> causal_edges g \<and>
    (\<exists>producer \<in> set (graph_nodes g). node_id producer = nid \<and>
      (\<exists>out \<in> set (node_outputs producer). out_name out = outn \<and>
        out_sensitivity out = SSensitive \<and> out_persistence out = pers))"
proof -
  have ok: "graph_ok g" using assms(1) by (simp add: valid_iff_graph_ok)
  have "input_ok (name, OutputInput nid outn SSensitive pers)"
    using graph_okD(1) [OF ok assms(2)] assms(3) unfolding node_ok_def by blast
  moreover have "input_reference_ok (node_table g) (graph_edges g) n (OutputInput nid outn SSensitive pers)"
    using graph_okD(2) [OF ok assms(2)] assms(3) unfolding references_ok_def by force
  then obtain producer out where producer: "node_table g nid = Some producer"
    and out: "List.find (\<lambda>c. out_name c = outn) (node_outputs producer) = Some out"
    and same: "out_sensitivity out = SSensitive" "out_persistence out = pers"
    and edge: "has_output_edge (graph_edges g) nid (node_id n) outn" by auto
  moreover have "out \<in> set (node_outputs producer) \<and> out_name out = outn"
    using out by (auto simp: find_Some_iff)
  moreover note node_table_Some [OF producer]
  ultimately show ?thesis
    using has_output_edge_causal [OF edge] by auto
qed

theorem sensitive_inputs_never_plaintext_witness:
  "PRedacted \<noteq> PState \<and> (''db'', ''app'') \<in> causal_edges example_graph"
  using sensitive_inputs_never_plaintext [OF example_graph_valid,
      of "hd (graph_nodes example_graph)" "''password''" "''db''" "''pw''" PRedacted]
  by (simp add: example_graph_def example_node_def)

text \<open>
  C5: a node an accepted graph retains or orphans on deletion never sits in a namespace that the
  same graph deletes: its namespace node exists, is another node and is not deleted.
\<close>

theorem retained_nodes_outlive_namespace:
  assumes "result_valid (validateApplicationDeploymentGraph g)"
    and "n \<in> set (graph_nodes g)"
    and "life_deletion (node_lifecycle n) \<in> {DelRetain, DelOrphan}"
    and "life_namespaceNodeId (node_lifecycle n) = Some ns" and "ns \<noteq> []"
  shows "\<exists>namespace \<in> set (graph_nodes g). node_id namespace = ns \<and> namespace \<noteq> n \<and>
    life_deletion (node_lifecycle namespace) \<noteq> DelDelete"
proof -
  have "graph_ok g" using assms(1) by (simp add: valid_iff_graph_ok)
  then have "namespace_ok (node_table g) n"
    using graph_okD(2) assms(2) unfolding references_ok_def by blast
  then show ?thesis
    using assms(3-5) node_table_Some by (fastforce simp: namespace_ok_def)
qed

theorem retained_nodes_outlive_namespace_witness:
  "\<exists>namespace \<in> set (graph_nodes example_graph). node_id namespace = ''ns'' \<and>
    namespace \<noteq> hd (graph_nodes example_graph) \<and>
    life_deletion (node_lifecycle namespace) \<noteq> DelDelete"
  by (rule retained_nodes_outlive_namespace [OF example_graph_valid])
     (simp_all add: example_graph_def example_node_def)

end
