(* ===== verification/Js_Json.thy ===== *)
theory Js_Json
  imports Js_Prelude "HOL-Library.AList"
begin

text \<open>
  The JSON of the language: enumeration and assignment of object properties, the primitive cases of
  \<open>JSON.stringify\<close> and \<open>JSON.parse\<close>. Two conversions between numbers and texts are
  parameters: \<open>fmt\<close> prints and \<open>rd\<close> reads the numbers that are not safe integers; a safe
  integer is printed and read in decimal here. The parser runs on fuel: each nested call spends one
  unit and twice the length of the text is enough for every text the printers of the development
  produce.
\<close>

section \<open>Objects\<close>

text \<open>
  An array index in the sense of the language: the canonical decimal text of a number below
  \<open>2 ^ 32 - 1\<close>. \<open>Object.entries\<close> lists those properties first, in ascending order, and the
  others in the order in which they were created.
\<close>

definition is_digit :: "char \<Rightarrow> bool" where
  "is_digit c = (48 \<le> (of_char c :: nat) \<and> (of_char c :: nat) \<le> 57)"

definition nat_of_digits :: "string \<Rightarrow> nat" where
  "nat_of_digits s = foldl (\<lambda>n c. 10 * n + (of_char c - 48)) 0 s"

definition canonical_digits :: "string \<Rightarrow> bool" where
  "canonical_digits s = (s \<noteq> [] \<and> list_all is_digit s \<and> (s = ''0'' \<or> hd s \<noteq> CHR ''0''))"

definition is_array_index :: "string \<Rightarrow> bool" where
  "is_array_index s = (canonical_digits s \<and> nat_of_digits s < 2 ^ 32 - 1)"

definition Object_entries :: "jsobject \<Rightarrow> jsobject" where
  "Object_entries ob =
     sort_key (\<lambda>p. nat_of_digits (fst p)) (filter (\<lambda>p. is_array_index (fst p)) ob) @
     filter (\<lambda>p. \<not> is_array_index (fst p)) ob"

lemma mset_Object_entries [simp]: "mset (Object_entries ob) = mset ob"
  by (simp add: Object_entries_def)

lemma set_Object_entries [simp]: "set (Object_entries ob) = set ob"
  by (metis mset_Object_entries set_mset_mset)

text \<open>
  \<open>result[key] = entry\<close> on an object literal: an own property is updated or created, but the key
  \<open>__proto__\<close> reaches the setter of \<open>Object.prototype\<close> and creates none.
\<close>

definition js_assign :: "jsobject \<Rightarrow> string \<Rightarrow> jsval \<Rightarrow> jsobject" where
  "js_assign ob k v = (if k = ''__proto__'' then ob else AList.update k v ob)"

definition assign_all :: "jsobject \<Rightarrow> (string \<times> jsval) list \<Rightarrow> jsobject" where
  "assign_all ob entries = foldl (\<lambda>ob (k, v). js_assign ob k v) ob entries"

lemma update_new: "k \<notin> fst ` set ob \<Longrightarrow> AList.update k v ob = ob @ [(k, v)]"
  by (induction ob) auto

lemma assign_all_new:
  assumes "distinct (map fst (ob @ entries))" and "''__proto__'' \<notin> fst ` set entries"
  shows "assign_all ob entries = ob @ entries"
  using assms
proof (induction entries arbitrary: ob)
  case Nil
  then show ?case by (simp add: assign_all_def)
next
  case (Cons p entries)
  obtain k v where p: "p = (k, v)" by fastforce
  then have "js_assign ob k v = ob @ [(k, v)]"
    using Cons.prems by (auto simp: js_assign_def update_new)
  then show ?case
    using Cons.IH [of "ob @ [(k, v)]"] Cons.prems p by (simp add: assign_all_def)
qed

section \<open>Printing\<close>

definition hex_of :: "nat \<Rightarrow> char" where
  "hex_of d = ''0123456789abcdef'' ! d"

definition quote_char :: "char \<Rightarrow> string" where
  "quote_char c =
     (let n = of_char c :: nat in
      if n = 34 then [CHR 92, CHR 34]
      else if n = 92 then [CHR 92, CHR 92]
      else if n = 8 then [CHR 92, CHR ''b'']
      else if n = 9 then [CHR 92, CHR ''t'']
      else if n = 10 then [CHR 92, CHR ''n'']
      else if n = 12 then [CHR 92, CHR ''f'']
      else if n = 13 then [CHR 92, CHR ''r'']
      else if n < 32 then [CHR 92, CHR ''u'', CHR ''0'', CHR ''0'', hex_of (n div 16), hex_of (n mod 16)]
      else [c])"

definition json_quote :: "string \<Rightarrow> string" where
  "json_quote s = [CHR 34] @ concat (map quote_char s) @ [CHR 34]"

text \<open>\<open>JSON.stringify\<close> of a number: a number that is not finite prints as \<open>null\<close>.\<close>

definition number_text :: "(js_number \<Rightarrow> string) \<Rightarrow> js_number \<Rightarrow> string" where
  "number_text fmt x =
     (if \<not> isFinite x then ''null''
      else if isSafeInteger x then (case x of NInt i \<Rightarrow> int_to_string i | _ \<Rightarrow> ''0'')
      else fmt x)"

section \<open>Parsing\<close>

definition json_ws :: "char \<Rightarrow> bool" where
  "json_ws c = ((of_char c :: nat) \<in> {9, 10, 13, 32})"

definition skip_ws :: "string \<Rightarrow> string" where
  "skip_ws s = dropWhile json_ws s"

definition hex_value :: "char \<Rightarrow> nat option" where
  "hex_value c =
     (let n = of_char c :: nat in
      if 48 \<le> n \<and> n \<le> 57 then Some (n - 48)
      else if 97 \<le> n \<and> n \<le> 102 then Some (n - 87)
      else if 65 \<le> n \<and> n \<le> 70 then Some (n - 55)
      else None)"

text \<open>
  The escape sequences of a string literal. A \<open>\u\<close> escape above \<open>00ff\<close> names a code
  unit that the model's strings do not have, and is refused.
\<close>

definition simple_escape :: "char \<Rightarrow> char option" where
  "simple_escape e =
     (if e \<in> {CHR 34, CHR 92, CHR ''/''} then Some e
      else if e = CHR ''b'' then Some (CHR 8)
      else if e = CHR ''t'' then Some (CHR 9)
      else if e = CHR ''n'' then Some (CHR 10)
      else if e = CHR ''f'' then Some (CHR 12)
      else if e = CHR ''r'' then Some (CHR 13)
      else None)"

definition unicode_escape :: "char \<Rightarrow> char \<Rightarrow> char \<Rightarrow> char \<Rightarrow> char option" where
  "unicode_escape a b c d =
     (case (hex_value a, hex_value b, hex_value c, hex_value d) of
        (Some 0, Some 0, Some x, Some y) \<Rightarrow> Some (char_of (16 * x + y))
      | _ \<Rightarrow> None)"

fun parse_string :: "string \<Rightarrow> (string \<times> string) option" where
  "parse_string [] = None"
| "parse_string (c # cs) =
     (if c = CHR 34 then Some ([], cs)
      else if c = CHR 92 then
        (case cs of
           [] \<Rightarrow> None
         | e # r \<Rightarrow>
             (if e = CHR ''u'' then
                (case r of
                   w # x # y # z # r' \<Rightarrow>
                     (case unicode_escape w x y z of
                        None \<Rightarrow> None
                      | Some u \<Rightarrow> map_option (apfst (Cons u)) (parse_string r'))
                 | _ \<Rightarrow> None)
              else
                (case simple_escape e of
                   None \<Rightarrow> None
                 | Some u \<Rightarrow> map_option (apfst (Cons u)) (parse_string r))))
      else if (of_char c :: nat) < 32 then None
      else map_option (apfst (Cons c)) (parse_string cs))"

definition number_char :: "char \<Rightarrow> bool" where
  "number_char c = (is_digit c \<or> c \<in> set ''-+.eE'')"

definition read_number :: "(string \<Rightarrow> js_number option) \<Rightarrow> string \<Rightarrow> js_number option" where
  "read_number rd token =
     (let negative = (token \<noteq> [] \<and> hd token = CHR ''-'');
          digits = (if negative then tl token else token);
          i = (if negative then - int (nat_of_digits digits) else int (nat_of_digits digits))
      in if canonical_digits digits \<and> isSafeInteger (NInt i) then Some (NInt i) else rd token)"

fun strip_prefix :: "string \<Rightarrow> string \<Rightarrow> string option" where
  "strip_prefix [] s = Some s"
| "strip_prefix (p # ps) [] = None"
| "strip_prefix (p # ps) (c # cs) = (if p = c then strip_prefix ps cs else None)"

definition parse_atom :: "(string \<Rightarrow> js_number option) \<Rightarrow> string \<Rightarrow> (jsval \<times> string) option" where
  "parse_atom rd s =
     (case strip_prefix ''null'' s of
        Some r \<Rightarrow> Some (JNull, r)
      | None \<Rightarrow> (case strip_prefix ''true'' s of
          Some r \<Rightarrow> Some (JBool True, r)
        | None \<Rightarrow> (case strip_prefix ''false'' s of
            Some r \<Rightarrow> Some (JBool False, r)
          | None \<Rightarrow>
              map_option (\<lambda>x. (JNumber x, dropWhile number_char s)) (read_number rd (takeWhile number_char s)))))"

fun parse_value :: "(string \<Rightarrow> js_number option) \<Rightarrow> nat \<Rightarrow> string \<Rightarrow> (jsval \<times> string) option"
  and parse_elements :: "(string \<Rightarrow> js_number option) \<Rightarrow> nat \<Rightarrow> jsval list \<Rightarrow> string \<Rightarrow> (jsval \<times> string) option"
  and parse_members :: "(string \<Rightarrow> js_number option) \<Rightarrow> nat \<Rightarrow> jsobject \<Rightarrow> string \<Rightarrow> (jsval \<times> string) option"
where
  "parse_value rd 0 s = None"
| "parse_value rd (Suc n) s =
     (case skip_ws s of
        [] \<Rightarrow> None
      | c # cs \<Rightarrow>
          (if c = CHR 34 then map_option (apfst JString) (parse_string cs)
           else if c = CHR ''['' then
             (if skip_ws cs \<noteq> [] \<and> hd (skip_ws cs) = CHR '']'' then Some (JArray [], tl (skip_ws cs))
              else parse_elements rd n [] cs)
           else if c = CHR ''{'' then
             (if skip_ws cs \<noteq> [] \<and> hd (skip_ws cs) = CHR ''}'' then Some (JObject [], tl (skip_ws cs))
              else parse_members rd n [] cs)
           else parse_atom rd (c # cs)))"
| "parse_elements rd 0 acc s = None"
| "parse_elements rd (Suc n) acc s =
     (case parse_value rd n s of
        None \<Rightarrow> None
      | Some (v, r) \<Rightarrow>
          (case skip_ws r of
             [] \<Rightarrow> None
           | c # cs \<Rightarrow>
               (if c = CHR '','' then parse_elements rd n (acc @ [v]) cs
                else if c = CHR '']'' then Some (JArray (acc @ [v]), cs)
                else None)))"
| "parse_members rd 0 acc s = None"
| "parse_members rd (Suc n) acc s =
     (case skip_ws s of
        [] \<Rightarrow> None
      | q # qs \<Rightarrow>
          (if q \<noteq> CHR 34 then None
           else case parse_string qs of
             None \<Rightarrow> None
           | Some (k, r) \<Rightarrow>
               (case skip_ws r of
                  [] \<Rightarrow> None
                | d # ds \<Rightarrow>
                    (if d \<noteq> CHR '':'' then None
                     else case parse_value rd n ds of
                       None \<Rightarrow> None
                     | Some (v, r') \<Rightarrow>
                         (case skip_ws r' of
                            [] \<Rightarrow> None
                          | c # cs \<Rightarrow>
                              (if c = CHR '','' then parse_members rd n (AList.update k v acc) cs
                               else if c = CHR ''}'' then Some (JObject (AList.update k v acc), cs)
                               else None))))))"

definition JSON_parse :: "(string \<Rightarrow> js_number option) \<Rightarrow> string \<Rightarrow> jsval option" where
  "JSON_parse rd s =
     (case parse_value rd (2 * length s + 2) s of
        None \<Rightarrow> None
      | Some (v, r) \<Rightarrow> if skip_ws r = [] then Some v else None)"

section \<open>Strings are read back\<close>

lemma hex_value_of: "d < 16 \<Longrightarrow> hex_value (hex_of d) = Some d"
proof -
  have "list_all (\<lambda>d. hex_value (hex_of d) = Some d) [0..<16]" by code_simp
  then show "d < 16 \<Longrightarrow> hex_value (hex_of d) = Some d" by (simp add: list_all_iff)
qed

lemma unicode_escape_of:
  assumes "(of_char c :: nat) < 32"
  shows "unicode_escape (CHR ''0'') (CHR ''0'') (hex_of (of_char c div 16)) (hex_of (of_char c mod 16)) = Some c"
proof -
  have "hex_value (CHR ''0'') = Some 0" by (simp add: hex_value_def)
  then show ?thesis
    using assms by (simp add: unicode_escape_def hex_value_of)
qed

lemma char_code_cases:
  "(of_char c :: nat) = 34 \<Longrightarrow> c = CHR 34" "(of_char c :: nat) = 92 \<Longrightarrow> c = CHR 92"
  "(of_char c :: nat) = 8 \<Longrightarrow> c = CHR 8" "(of_char c :: nat) = 9 \<Longrightarrow> c = CHR 9"
  "(of_char c :: nat) = 10 \<Longrightarrow> c = CHR 10" "(of_char c :: nat) = 12 \<Longrightarrow> c = CHR 12"
  "(of_char c :: nat) = 13 \<Longrightarrow> c = CHR 13"
  by (rule of_char_eqI [where ?'a = nat], simp)+

lemma parse_quote_char:
  "parse_string (quote_char c @ s) = map_option (apfst (Cons c)) (parse_string s)"
proof -
  have plain: "(of_char c :: nat) \<noteq> 34 \<Longrightarrow> c \<noteq> CHR 34" "(of_char c :: nat) \<noteq> 92 \<Longrightarrow> c \<noteq> CHR 92"
    by auto
  show ?thesis
    using char_code_cases [of c] unicode_escape_of [of c] plain
    by (cases "(of_char c :: nat) < 32")
       (auto simp: quote_char_def Let_def simple_escape_def)
qed

lemma parse_json_quote:
  "parse_string (concat (map quote_char s) @ CHR 34 # rest) = Some (s, rest)"
proof (induction s)
  case (Cons c s)
  have "parse_string (concat (map quote_char (c # s)) @ CHR 34 # rest) =
      map_option (apfst (Cons c)) (parse_string (concat (map quote_char s) @ CHR 34 # rest))"
    by (simp add: parse_quote_char del: parse_string.simps)
  with Cons show ?case by simp
qed simp

section \<open>Safe integers are read back\<close>

lemma digit_char: "d < 10 \<Longrightarrow> is_digit (char_of (48 + d)) \<and> of_char (char_of (48 + d)) - 48 = (d :: nat)"
  by (simp add: is_digit_def)

lemma nat_of_digits_snoc: "nat_of_digits (s @ [c]) = 10 * nat_of_digits s + (of_char c - 48)"
  by (simp add: nat_of_digits_def)

lemma nat_to_string_digits:
  "list_all is_digit (nat_to_string n) \<and> nat_of_digits (nat_to_string n) = n \<and>
   nat_to_string n \<noteq> [] \<and> (n \<noteq> 0 \<longrightarrow> hd (nat_to_string n) \<noteq> CHR ''0'')"
proof (induction n rule: nat_to_string.induct)
  case (1 n)
  show ?case
  proof (cases "n < 10")
    case True
    have "n \<noteq> 0 \<Longrightarrow> char_of (48 + n) \<noteq> CHR ''0''"
    proof
      assume "n \<noteq> 0" "char_of (48 + n) = CHR ''0''"
      then have "(of_char (char_of (48 + n)) :: nat) = of_char (CHR ''0'')" by simp
      with True \<open>n \<noteq> 0\<close> show False by simp
    qed
    with True show ?thesis
      by (subst (1 2 3 4) nat_to_string.simps) (simp add: digit_char nat_of_digits_def)
  next
    case False
    then have "n div 10 \<noteq> 0" by simp
    with 1 False show ?thesis
      by (subst (1 2 3 4) nat_to_string.simps) (simp add: digit_char nat_of_digits_snoc)
  qed
qed

lemma nat_to_string_0: "nat_to_string 0 = ''0''"
  by code_simp

lemma canonical_nat_to_string: "canonical_digits (nat_to_string n)"
  using nat_to_string_digits [of n] nat_to_string_0 by (cases "n = 0") (auto simp: canonical_digits_def)

lemma read_int_to_string:
  assumes "isSafeInteger (NInt i)"
  shows "read_number rd (int_to_string i) = Some (NInt i)"
proof (cases "i < 0")
  case True
  have "int (nat (- i)) = - i" using True by simp
  with True assms show ?thesis
    using nat_to_string_digits [of "nat (- i)"]
    by (simp add: read_number_def int_to_string_def canonical_nat_to_string)
next
  case False
  have "hd (nat_to_string (nat i)) \<noteq> CHR ''-''"
    using nat_to_string_digits [of "nat i"]
    by (cases "nat_to_string (nat i)") (auto simp: is_digit_def)
  with False assms show ?thesis
    using nat_to_string_digits [of "nat i"]
    by (simp add: read_number_def int_to_string_def canonical_nat_to_string Let_def)
qed

lemma int_to_string_chars: "list_all number_char (int_to_string i) \<and> int_to_string i \<noteq> []"
proof -
  have "list_all number_char (nat_to_string n)" for n
    using nat_to_string_digits [of n] by (auto simp: list_all_iff number_char_def)
  then show ?thesis
    using nat_to_string_digits by (auto simp: int_to_string_def number_char_def)
qed

section \<open>Atoms are read back\<close>

text \<open>
  A number prints back when its text is one number token that is read as the number: every safe
  integer does, and the others where \<open>rd\<close> inverts \<open>fmt\<close>, as the language's conversions do.
\<close>

definition prints_back :: "(js_number \<Rightarrow> string) \<Rightarrow> (string \<Rightarrow> js_number option) \<Rightarrow> js_number \<Rightarrow> bool" where
  "prints_back fmt rd x =
     (isSafeInteger x \<or>
      isFinite x \<and> fmt x \<noteq> [] \<and> list_all number_char (fmt x) \<and> read_number rd (fmt x) = Some x)"

text \<open>What may follow a value inside a text: nothing, or a character that ends a number.\<close>

definition ends_token :: "string \<Rightarrow> bool" where
  "ends_token rest = (rest = [] \<or> \<not> number_char (hd rest))"

lemma number_text_back:
  assumes "prints_back fmt rd x"
  shows "number_text fmt x \<noteq> [] \<and> list_all number_char (number_text fmt x) \<and>
    read_number rd (number_text fmt x) = Some x"
proof (cases "isSafeInteger x")
  case True
  then obtain i where "x = NInt i" by (cases x) auto
  with True show ?thesis
    using read_int_to_string [of i rd] int_to_string_chars [of i] by (simp add: number_text_def)
next
  case False
  with assms show ?thesis by (simp add: prints_back_def number_text_def)
qed

lemma number_char_not:
  "number_char c \<Longrightarrow> CHR ''n'' \<noteq> c \<and> CHR ''t'' \<noteq> c \<and> CHR ''f'' \<noteq> c \<and> c \<noteq> CHR 34 \<and> c \<noteq> CHR ''['' \<and>
     c \<noteq> CHR ''{'' \<and> \<not> json_ws c"
  by (auto simp: number_char_def is_digit_def json_ws_def)

lemma takeWhile_token:
  "list_all number_char t \<Longrightarrow> ends_token rest \<Longrightarrow>
   takeWhile number_char (t @ rest) = t \<and> dropWhile number_char (t @ rest) = rest"
  by (induction t; cases rest) (auto simp: ends_token_def)

lemma parse_value_number:
  assumes "prints_back fmt rd x" and "ends_token rest"
  shows "parse_value rd (Suc n) (number_text fmt x @ rest) = Some (JNumber x, rest)"
proof -
  note printed = number_text_back [OF assms(1)]
  obtain c cs where t: "number_text fmt x = c # cs" using printed by (cases "number_text fmt x") auto
  with printed have c: "number_char c" by simp
  have "takeWhile number_char (number_text fmt x @ rest) = number_text fmt x"
    "dropWhile number_char (number_text fmt x @ rest) = rest"
    using takeWhile_token printed assms(2) by blast+
  then have "parse_atom rd (number_text fmt x @ rest) = Some (JNumber x, rest)"
    using number_char_not [OF c] printed unfolding t
    by (simp add: parse_atom_def del: takeWhile.simps dropWhile.simps)
  then show ?thesis
    using number_char_not [OF c] unfolding t by (simp add: skip_ws_def)
qed

lemma parse_value_atoms:
  "parse_value rd (Suc n) (''null'' @ rest) = Some (JNull, rest)"
  "parse_value rd (Suc n) (''true'' @ rest) = Some (JBool True, rest)"
  "parse_value rd (Suc n) (''false'' @ rest) = Some (JBool False, rest)"
  "parse_value rd (Suc n) (json_quote s @ rest) = Some (JString s, rest)"
  using parse_json_quote [of s rest]
  by (simp_all add: skip_ws_def json_ws_def parse_atom_def json_quote_def)

end
