(* ===== verification/Json_Printer.thy ===== *)
theory Json_Printer
  imports Js_Json
begin

text \<open>
  The contract of a printer of JSON values, as the locale \<open>json_printer\<close>: it prints atoms and
  arrays as the language does, and the members of an object in an order of its own. Whatever that
  order is, the parser of \<open>Js_Json\<close> reads the text of a plain value back with the members in that
  order. The printers of the repository (\<open>stableJsonStringify\<close>, the \<open>canonicalJson\<close> of the scope
  language, \<open>JSON.stringify\<close>) interpret it.
\<close>

section \<open>Plain JSON values\<close>

text \<open>
  A plain value: no \<open>undefined\<close> anywhere, the members of every object have distinct keys other
  than \<open>__proto__\<close>, and every number satisfies \<open>P\<close>.
\<close>

fun plain_json :: "(js_number \<Rightarrow> bool) \<Rightarrow> jsval \<Rightarrow> bool" where
  "plain_json P JUndefined = False"
| "plain_json P (JNumber x) = P x"
| "plain_json P (JArray vs) = (\<forall>v \<in> set vs. plain_json P v)"
| "plain_json P (JObject ob) =
     (distinct (map fst ob) \<and> ''__proto__'' \<notin> fst ` set ob \<and> (\<forall>(k, v) \<in> set ob. plain_json P v))"
| "plain_json P _ = True"

lemma plain_member:
  "plain_json P (JObject ob) \<Longrightarrow> (k, v) \<in> set ob \<Longrightarrow> plain_json P v \<and> v \<noteq> JUndefined"
  by fastforce

lemma plain_json_mono:
  assumes "\<And>x. P x \<Longrightarrow> Q x" and "plain_json P v"
  shows "plain_json Q v"
  using assms(2) by (induction v) (fastforce simp: assms(1))+

text \<open>A text that begins neither with white space nor with the end of an array.\<close>

definition starts_value :: "string \<Rightarrow> bool" where
  "starts_value s = (s \<noteq> [] \<and> \<not> json_ws (hd s) \<and> hd s \<noteq> CHR '']'')"

lemma starts_value_number: "s \<noteq> [] \<Longrightarrow> list_all number_char s \<Longrightarrow> starts_value s"
  by (cases s) (auto simp: starts_value_def number_char_def is_digit_def json_ws_def)

lemma parse_value_array:
  assumes "starts_value body"
  shows "parse_value rd (Suc m) (CHR ''['' # body @ rest) = parse_elements rd m [] (body @ rest)"
  using assms by (cases body) (simp_all add: starts_value_def skip_ws_def json_ws_def)

lemma parse_value_object:
  "parse_value rd (Suc m) (CHR ''{'' # CHR 34 # body) = parse_members rd m [] (CHR 34 # body)"
  by (simp add: skip_ws_def json_ws_def)

lemma parse_value_empty:
  "parse_value rd (Suc m) (CHR ''['' # CHR '']'' # rest) = Some (JArray [], rest)"
  "parse_value rd (Suc m) (CHR ''{'' # CHR ''}'' # rest) = Some (JObject [], rest)"
  by (simp_all add: skip_ws_def json_ws_def)

section \<open>The contract\<close>

definition json_member :: "(jsval \<Rightarrow> string) \<Rightarrow> string \<times> jsval \<Rightarrow> string" where
  "json_member prn p = json_quote (fst p) @ '':'' @ prn (snd p)"

locale json_printer =
  fixes fmt :: "js_number \<Rightarrow> string" and rd :: "string \<Rightarrow> js_number option"
    and prn :: "jsval \<Rightarrow> string" and nf :: "jsval \<Rightarrow> jsval" and entries :: "jsobject \<Rightarrow> jsobject"
  assumes prn_atoms: "prn JNull = ''null''" "prn (JBool b) = (if b then ''true'' else ''false'')"
      "prn (JNumber x) = number_text fmt x" "prn (JString s) = json_quote s"
    and prn_array: "plain_json (prints_back fmt rd) (JArray vs) \<Longrightarrow> prn (JArray vs) = ''['' @ js_join '','' (map prn vs) @ '']''"
    and prn_object: "plain_json (prints_back fmt rd) (JObject ob) \<Longrightarrow>
      prn (JObject ob) = ''{'' @ js_join '','' (map (json_member prn) (entries ob)) @ ''}''"
    and nf_atoms: "nf JNull = JNull" "nf (JBool b) = JBool b" "nf (JNumber x) = JNumber x" "nf (JString s) = JString s"
    and nf_array: "nf (JArray vs) = JArray (map nf vs)"
    and nf_object: "plain_json (prints_back fmt rd) (JObject ob) \<Longrightarrow>
      nf (JObject ob) = JObject (map (apsnd nf) (entries ob))"
    and entries_mset: "plain_json (prints_back fmt rd) (JObject ob) \<Longrightarrow> mset (entries ob) = mset ob"
begin

lemmas prints = prn_atoms nf_atoms nf_array

lemma parse_elements_text:
  assumes "vs \<noteq> []"
    and "\<And>v n rest. v \<in> set vs \<Longrightarrow> 2 * length (prn v) \<le> n \<Longrightarrow> ends_token rest \<Longrightarrow>
        parse_value rd n (prn v @ rest) = Some (nf v, rest)"
    and "2 * length (js_join '','' (map prn vs)) + 1 \<le> n"
  shows "parse_elements rd n acc (js_join '','' (map prn vs) @ CHR '']'' # rest) =
    Some (JArray (acc @ map nf vs), rest)"
  using assms
proof (induction vs arbitrary: n acc)
  case Nil
  then show ?case by simp
next
  case (Cons v vs)
  then obtain m where n: "n = Suc m" by (cases n) auto
  have ends: "ends_token (CHR '']'' # r)" "ends_token (CHR '','' # r)" for r
    by (simp_all add: ends_token_def number_char_def is_digit_def)
  have ws: "skip_ws (CHR '']'' # r) = CHR '']'' # r" "skip_ws (CHR '','' # r) = CHR '','' # r" for r
    by (simp_all add: skip_ws_def json_ws_def)
  show ?case
  proof (cases vs)
    case Nil
    with Cons.prems n ends ws show ?thesis by simp
  next
    case (Cons w ws')
    with Cons.prems n ends have "parse_value rd m (prn v @ CHR '','' #
        js_join '','' (map prn vs) @ CHR '']'' # rest) =
        Some (nf v, CHR '','' # js_join '','' (map prn vs) @ CHR '']'' # rest)"
      by simp
    moreover have "parse_elements rd m (acc @ [nf v])
        (js_join '','' (map prn vs) @ CHR '']'' # rest) =
        Some (JArray ((acc @ [nf v]) @ map nf vs), rest)"
      using Cons.prems n Cons by (intro Cons.IH) auto
    ultimately show ?thesis using Cons n ws by simp
  qed
qed

lemma parse_members_text:
  assumes "es \<noteq> []"
    and "\<And>p n rest. p \<in> set es \<Longrightarrow> 2 * length (prn (snd p)) \<le> n \<Longrightarrow> ends_token rest \<Longrightarrow>
        parse_value rd n (prn (snd p) @ rest) = Some (nf (snd p), rest)"
    and "2 * length (js_join '','' (map (json_member prn) es)) + 1 \<le> n"
    and "distinct (map fst (acc @ es))"
  shows "parse_members rd n acc (js_join '','' (map (json_member prn) es) @ CHR ''}'' # rest) =
    Some (JObject (acc @ map (apsnd nf) es), rest)"
  using assms
proof (induction es arbitrary: n acc)
  case Nil
  then show ?case by simp
next
  case (Cons p es)
  obtain k v where p: "p = (k, v)" by fastforce
  obtain m where n: "n = Suc m" using Cons.prems(3) by (cases n) auto
  have ends: "ends_token (CHR ''}'' # r)" "ends_token (CHR '','' # r)" for r
    by (simp_all add: ends_token_def number_char_def is_digit_def)
  have ws: "skip_ws (CHR ''}'' # r) = CHR ''}'' # r" "skip_ws (CHR '','' # r) = CHR '','' # r"
    "skip_ws (CHR '':'' # r) = CHR '':'' # r" "skip_ws (CHR 34 # r) = CHR 34 # r" for r
    by (simp_all add: skip_ws_def json_ws_def)
  have shape: "json_member prn p @ r =
      CHR 34 # concat (map quote_char k) @ CHR 34 # CHR '':'' # prn v @ r" for r
    by (simp add: p json_member_def json_quote_def)
  have new: "AList.update k w acc = acc @ [(k, w)]" for w
    using Cons.prems(4) p by (intro update_new) auto
  note step = shape new ws parse_json_quote
  show ?case
  proof (cases es)
    case Nil
    with Cons.prems n ends have "parse_value rd m (prn v @ CHR ''}'' # rest) =
        Some (nf v, CHR ''}'' # rest)"
      by (simp add: p json_member_def)
    with Nil n show ?thesis by (simp add: step) (simp add: p)
  next
    case (Cons q qs)
    let ?tail = "js_join '','' (map (json_member prn) es) @ CHR ''}'' # rest"
    have "parse_value rd m (prn v @ CHR '','' # ?tail) =
        Some (nf v, CHR '','' # ?tail)"
    proof -
      have "2 * length (prn v) \<le> m"
        using Cons.prems(3) n Cons p by (simp add: json_member_def)
      then show ?thesis using Cons.prems(2) [of p m] p ends by simp
    qed
    moreover have "parse_members rd m (acc @ [(k, nf v)]) ?tail =
        Some (JObject ((acc @ [(k, nf v)]) @ map (apsnd nf) es), rest)"
      using Cons.prems n Cons p by (intro Cons.IH) auto
    moreover have "js_join '','' (map (json_member prn) (p # es)) @ CHR ''}'' # rest =
        json_member prn p @ CHR '','' # ?tail"
      using Cons by simp
    ultimately show ?thesis using n by (simp only: parse_members.simps step) (simp add: p ws new parse_json_quote)
  qed
qed

lemma starts_value_text:
  assumes "plain_json (prints_back fmt rd) v"
  shows "starts_value (prn v)"
proof (cases v)
  case (JNumber x)
  with assms number_text_back [of fmt rd x] show ?thesis by (simp add: starts_value_number prints)
qed (use assms in \<open>simp_all add: starts_value_def json_quote_def json_ws_def prints prn_object prn_array del: plain_json.simps(3,4)\<close>)

lemma starts_value_elements:
  "plain_json (prints_back fmt rd) v \<Longrightarrow> starts_value (js_join '','' (map prn (v # vs)))"
  using starts_value_text [of v] by (cases vs) (simp_all add: starts_value_def)

lemma members_head: "\<exists>cs. js_join '','' (map (json_member prn) (p # es)) = CHR 34 # cs"
  by (cases es) (simp_all add: json_member_def json_quote_def)

lemma parse_text_array:
  assumes "\<And>v n rest. v \<in> set vs \<Longrightarrow> plain_json (prints_back fmt rd) v \<Longrightarrow>
      2 * length (prn v) \<le> n \<Longrightarrow> ends_token rest \<Longrightarrow>
      parse_value rd n (prn v @ rest) = Some (nf v, rest)"
    and "plain_json (prints_back fmt rd) (JArray vs)"
    and "2 * length (prn (JArray vs)) \<le> Suc m"
  shows "parse_value rd (Suc m) (prn (JArray vs) @ rest) = Some (nf (JArray vs), rest)"
proof (cases vs)
  case Nil
  then show ?thesis using prn_array [OF assms(2)] by (simp add: parse_value_empty prints del: parse_value.simps)
next
  case (Cons v vs')
  let ?body = "js_join '','' (map prn vs)"
  have start: "starts_value ?body"
    using assms(2) starts_value_elements [of v vs'] unfolding Cons by simp
  have "parse_elements rd m [] (?body @ CHR '']'' # rest) = Some (JArray ([] @ map nf vs), rest)"
  proof (rule parse_elements_text)
    show "2 * length ?body + 1 \<le> m" using assms(3) prn_array [OF assms(2)] by simp
  qed (use Cons assms(1,2) in auto)
  then show ?thesis
    using parse_value_array [OF start, of rd m "CHR '']'' # rest"] prn_array [OF assms(2)]
    by (simp add: prints del: parse_value.simps)
qed

lemma parse_text_object:
  assumes "\<And>k v n rest. (k, v) \<in> set ob \<Longrightarrow> plain_json (prints_back fmt rd) v \<Longrightarrow>
      2 * length (prn v) \<le> n \<Longrightarrow> ends_token rest \<Longrightarrow>
      parse_value rd n (prn v @ rest) = Some (nf v, rest)"
    and plain: "plain_json (prints_back fmt rd) (JObject ob)"
    and fuel: "2 * length (prn (JObject ob)) \<le> Suc m"
  shows "parse_value rd (Suc m) (prn (JObject ob) @ rest) = Some (nf (JObject ob), rest)"
proof -
  let ?es = "entries ob"
  let ?body = "js_join '','' (map (json_member prn) ?es)"
  have es: "set ?es = set ob" by (rule mset_eq_setD) (rule entries_mset [OF plain])
  have keys: "distinct (map fst ?es)"
    using entries_mset [OF plain] plain mset_eq_imp_distinct_iff [of "map fst ?es" "map fst ob"] by simp
  have printed: "prn (JObject ob) = CHR ''{'' # ?body @ ''}''"
    by (simp add: prn_object [OF plain])
  note normal = nf_object [OF plain]
  show ?thesis
  proof (cases ?es)
    case Nil
    then show ?thesis unfolding printed normal by (simp add: parse_value_empty del: parse_value.simps)
  next
    case (Cons p es')
    then obtain cs where head: "?body = CHR 34 # cs" using members_head [of p es'] by auto
    have "parse_members rd m [] (?body @ CHR ''}'' # rest) = Some (JObject ([] @ map (apsnd nf) ?es), rest)"
    proof (rule parse_members_text)
      fix p n and rest :: string
      assume "p \<in> set ?es" and "2 * length (prn (snd p)) \<le> n" and "ends_token rest"
      then show "parse_value rd n (prn (snd p) @ rest) = Some (nf (snd p), rest)"
        using assms(1) [of "fst p" "snd p"] plain_member [OF plain, of "fst p" "snd p"] es by simp
    next
      show "?es \<noteq> []" using Cons by simp
      show "2 * length ?body + 1 \<le> m" using fuel unfolding printed by simp
      show "distinct (map fst ([] @ ?es))" using keys by simp
    qed
    then show ?thesis unfolding printed normal head by (simp add: parse_value_object del: parse_value.simps)
  qed
qed

lemma parse_text:
  assumes "plain_json (prints_back fmt rd) v" and "2 * length (prn v) \<le> n"
    and "ends_token rest"
  shows "parse_value rd n (prn v @ rest) = Some (nf v, rest)"
  using assms
proof (induction v arbitrary: n rest)
  case (JArray vs)
  then obtain m where n: "n = Suc m" using prn_array [OF JArray.prems(1)] by (cases n) auto
  show ?case unfolding n using JArray n by (intro parse_text_array) blast+
next
  case (JObject ob)
  then obtain m where n: "n = Suc m" using prn_object [OF JObject.prems(1)] by (cases n) auto
  show ?case unfolding n
  proof (rule parse_text_object)
    fix k v n' and rest' :: string
    assume "(k, v) \<in> set ob" "plain_json (prints_back fmt rd) v"
      "2 * length (prn v) \<le> n'" "ends_token rest'"
    then show "parse_value rd n' (prn v @ rest') = Some (nf v, rest')"
      using JObject.IH [of "(k, v)" v n' rest'] by simp
  qed (use JObject.prems n in blast)+
next
  case (JNumber x)
  then obtain m where n: "n = Suc m" using number_text_back [of fmt rd x] by (cases n) (auto simp: prints)
  show ?case unfolding n using parse_value_number [of fmt rd x rest m] JNumber.prems by (simp add: prints)
next
  case (JString s)
  then obtain m where n: "n = Suc m" by (cases n) (auto simp: json_quote_def prints)
  show ?case unfolding n using parse_value_atoms(4) [of rd m s rest] by (simp add: prints)
next
  case (JBool b)
  then obtain m where n: "n = Suc m" by (cases n; cases b) (auto simp: prints)
  show ?case unfolding n using parse_value_atoms(2,3) [of rd m rest] by (cases b) (simp_all add: prints)
next
  case JNull
  then obtain m where n: "n = Suc m" by (cases n) (auto simp: prints)
  show ?case unfolding n using parse_value_atoms(1) [of rd m rest] by (simp add: prints)
qed simp

lemma JSON_parse_text:
  assumes "plain_json (prints_back fmt rd) v" and "list_all json_ws rest"
  shows "JSON_parse rd (prn v @ rest) = Some (nf v)"
proof -
  have "ends_token rest"
    using assms(2) number_char_not by (cases rest) (auto simp: ends_token_def)
  moreover have "skip_ws rest = []"
    using assms(2) by (simp add: skip_ws_def list_all_iff)
  ultimately show ?thesis
    using parse_text [OF assms(1), of "2 * length (prn v @ rest) + 2" rest]
    by (simp add: JSON_parse_def)
qed

text \<open>The text determines the arranged value.\<close>

lemma text_determines:
  assumes "plain_json (prints_back fmt rd) v" and "plain_json (prints_back fmt rd) w" and "prn v = prn w"
  shows "nf v = nf w"
  using JSON_parse_text [OF assms(1), of "[]"] JSON_parse_text [OF assms(2), of "[]"] assms(3) by simp

end

end
