(* ===== verification/Canonical_Json.thy ===== *)
theory Canonical_Json
  imports Json_Printer
begin

text \<open>
  \<open>normalizeJson\<close> and \<open>stableJsonStringify\<close> of
  \<^verbatim>\<open>packages/deployment-contract/src/serialization.ts\<close>. The parser of \<open>Js_Json\<close> reads
  the canonical text of a plain JSON value back as its normal form, so the text determines the
  value up to the order of object members.
\<close>

section \<open>Definitions\<close>

definition compareEntries :: "string \<times> jsval \<Rightarrow> string \<times> jsval \<Rightarrow> int" where
  "compareEntries left right = compareStrings (fst left) (fst right)"

definition sorted_entries :: "jsobject \<Rightarrow> jsobject" where
  "sorted_entries ob = js_sort compareEntries (Object_entries ob)"

definition defined_entries :: "jsobject \<Rightarrow> jsobject" where
  "defined_entries ob = filter (\<lambda>(key, entry). entry \<noteq> JUndefined) (sorted_entries ob)"

lemma set_defined_entries [simp]: "set (defined_entries ob) = {p \<in> set ob. snd p \<noteq> JUndefined}"
  by (auto simp: defined_entries_def sorted_entries_def)

lemma size_entry: "(k, v) \<in> set ob \<Longrightarrow> size v < size (JObject ob)"
  by (induction ob) auto

function normalizeJson :: "jsval \<Rightarrow> jsval" where
  "normalizeJson (JArray vs) = JArray (map normalizeJson vs)"
| "normalizeJson (JObject ob) =
     JObject (assign_all [] (map (\<lambda>(key, entry). (key, normalizeJson entry)) (defined_entries ob)))"
| "normalizeJson JUndefined = JUndefined"
| "normalizeJson JNull = JNull"
| "normalizeJson (JBool b) = JBool b"
| "normalizeJson (JNumber x) = JNumber x"
| "normalizeJson (JString s) = JString s"
  by pat_completeness auto
termination
  by (relation "measure size") (auto dest: size_entry simp: less_Suc_eq_le size_list_estimation')

function stableJsonStringify :: "(js_number \<Rightarrow> string) \<Rightarrow> jsval \<Rightarrow> string" where
  "stableJsonStringify fmt JUndefined = ''null''"
| "stableJsonStringify fmt JNull = ''null''"
| "stableJsonStringify fmt (JBool b) = (if b then ''true'' else ''false'')"
| "stableJsonStringify fmt (JNumber x) = number_text fmt x"
| "stableJsonStringify fmt (JString s) = json_quote s"
| "stableJsonStringify fmt (JArray vs) = ''['' @ js_join '','' (map (stableJsonStringify fmt) vs) @ '']''"
| "stableJsonStringify fmt (JObject ob) =
     ''{'' @
     js_join '','' (map (\<lambda>(key, entry). json_quote key @ '':'' @ stableJsonStringify fmt entry) (defined_entries ob)) @
     ''}''"
  by pat_completeness auto
termination
  by (relation "measure (size \<circ> snd)") (auto dest: size_entry simp: less_Suc_eq_le size_list_estimation')

interpretation entries: comparator compareEntries fst
  by unfold_locales (auto simp: compareEntries_def compareStrings_def)

section \<open>Members of plain values\<close>

lemma mset_sorted_entries [simp]: "mset (sorted_entries ob) = mset ob"
  by (simp add: sorted_entries_def)

lemma distinct_sorted_entries [simp]: "distinct (map fst (sorted_entries ob)) = distinct (map fst ob)"
proof -
  have "mset (map fst (sorted_entries ob)) = mset (map fst ob)" by simp
  then show ?thesis by (metis mset_eq_imp_distinct_iff)
qed

lemma defined_entries_plain:
  assumes "plain_json P (JObject ob)"
  shows "defined_entries ob = sorted_entries ob" and "distinct (map fst (sorted_entries ob))"
    and "''__proto__'' \<notin> fst ` set (sorted_entries ob)"
proof -
  have "set (sorted_entries ob) = set ob" by (simp add: sorted_entries_def)
  then show "defined_entries ob = sorted_entries ob"
    using plain_member [OF assms] unfolding defined_entries_def by (auto simp: filter_id_conv)
  show "distinct (map fst (sorted_entries ob))" using assms by simp
  show "''__proto__'' \<notin> fst ` set (sorted_entries ob)"
    using assms \<open>set (sorted_entries ob) = set ob\<close> by simp
qed

lemma normalizeJson_plain_object:
  assumes "plain_json P (JObject ob)"
  shows "normalizeJson (JObject ob) = JObject (map (apsnd normalizeJson) (sorted_entries ob))"
proof -
  have eq: "map (\<lambda>(key, entry). (key, normalizeJson entry)) es = map (apsnd normalizeJson) es" for es
    by (simp add: apsnd_def map_prod_def)
  have "assign_all [] (map (apsnd normalizeJson) (sorted_entries ob)) = [] @ map (apsnd normalizeJson) (sorted_entries ob)"
    using defined_entries_plain(2,3) [OF assms] by (intro assign_all_new) (simp_all add: image_image)
  then show ?thesis
    by (simp add: eq defined_entries_plain(1) [OF assms])
qed

section \<open>The canonical text is read back\<close>

lemma stringify_object:
  "stableJsonStringify fmt (JObject ob) =
     ''{'' @ js_join '','' (map (json_member (stableJsonStringify fmt)) (defined_entries ob)) @ ''}''"
  by (simp add: json_member_def [abs_def] case_prod_beta' [abs_def])

interpretation stable: json_printer fmt rd "stableJsonStringify fmt" normalizeJson sorted_entries for fmt rd
proof
  fix ob
  assume plain: "plain_json (prints_back fmt rd) (JObject ob)"
  show "stableJsonStringify fmt (JObject ob) =
      ''{'' @ js_join '','' (map (json_member (stableJsonStringify fmt)) (sorted_entries ob)) @ ''}''"
    by (simp only: stringify_object defined_entries_plain(1) [OF plain])
  show "normalizeJson (JObject ob) = JObject (map (apsnd normalizeJson) (sorted_entries ob))"
    by (rule normalizeJson_plain_object [OF plain])
qed simp_all

lemmas JSON_parse_stringify = stable.JSON_parse_text

section \<open>Normal forms\<close>

lemma js_sort_apsnd: "js_sort compareEntries (map (apsnd f) ob) = map (apsnd f) (js_sort compareEntries ob)"
proof -
  have "js_insert compareEntries (apsnd f p) (map (apsnd f) es) = map (apsnd f) (js_insert compareEntries p es)" for p es
    by (induction es) (simp_all add: compareEntries_def)
  then show ?thesis by (induction ob) simp_all
qed

lemma sorted_entries_distinct: "distinct (map fst ob) \<Longrightarrow> sorted_entries ob = js_sort compareEntries ob"
  unfolding sorted_entries_def
  by (rule entries.js_sort_perm) (simp_all add: mset_eq_imp_distinct_iff [of "map fst (Object_entries ob)" "map fst ob"])

lemma sorted_entries_apsnd:
  "distinct (map fst ob) \<Longrightarrow> sorted_entries (map (apsnd f) ob) = map (apsnd f) (sorted_entries ob)"
  by (simp add: sorted_entries_distinct js_sort_apsnd comp_def)

lemma sorted_entries_perm:
  assumes "mset xs = mset ys" and "distinct (map fst xs)"
  shows "sorted_entries xs = sorted_entries ys"
proof -
  have "distinct (map fst ys)"
    using assms by (metis mset_eq_imp_distinct_iff mset_map)
  then show ?thesis
    using entries.js_sort_perm [OF assms] assms(2) by (simp add: sorted_entries_distinct)
qed

lemma sorted_entries_idem: "distinct (map fst ob) \<Longrightarrow> sorted_entries (sorted_entries ob) = sorted_entries ob"
  by (simp add: sorted_entries_distinct entries.js_sort_idem)

lemma plain_normalizeJson: "plain_json P v \<Longrightarrow> plain_json P (normalizeJson v)"
proof (induction v)
  case (JObject ob)
  have "plain_json P (normalizeJson e)" if "(k, e) \<in> set (sorted_entries ob)" for k e
  proof -
    have "(k, e) \<in> set ob" using that by (simp add: sorted_entries_def)
    with JObject.IH [of "(k, e)" e] plain_member [OF JObject.prems] show ?thesis by simp
  qed
  then show ?case
    using defined_entries_plain(2,3) [OF JObject.prems]
    unfolding normalizeJson_plain_object [OF JObject.prems]
    by (auto simp: comp_def image_image)
qed auto

lemma normalizeJson_idem: "plain_json P v \<Longrightarrow> normalizeJson (normalizeJson v) = normalizeJson v"
proof (induction v)
  case (JObject ob)
  have eq: "normalizeJson (normalizeJson e) = normalizeJson e" if "(k, e) \<in> set (sorted_entries ob)" for k e
  proof -
    have "(k, e) \<in> set ob" using that by (simp add: sorted_entries_def)
    with JObject.IH [of "(k, e)" e] plain_member [OF JObject.prems] show ?thesis by simp
  qed
  have "normalizeJson (normalizeJson (JObject ob)) =
      JObject (map (apsnd normalizeJson) (map (apsnd normalizeJson) (sorted_entries ob)))"
    using normalizeJson_plain_object [OF plain_normalizeJson [OF JObject.prems, unfolded normalizeJson_plain_object [OF JObject.prems]]]
    using defined_entries_plain(2) [OF JObject.prems]
    by (simp add: normalizeJson_plain_object [OF JObject.prems] sorted_entries_apsnd sorted_entries_idem del: normalizeJson.simps)
  also have "\<dots> = normalizeJson (JObject ob)"
    using eq by (auto simp: normalizeJson_plain_object [OF JObject.prems] simp del: normalizeJson.simps)
  finally show ?case .
qed auto

lemma stringify_normalizeJson:
  assumes "plain_json P v"
  shows "stableJsonStringify fmt (normalizeJson v) = stableJsonStringify fmt v"
  using assms
proof (induction v)
  case (JArray vs)
  then show ?case by (simp add: comp_def cong: map_cong)
next
  case (JObject ob)
  note defined = defined_entries_plain [OF JObject.prems]
  have member: "json_member (stableJsonStringify fmt) (apsnd normalizeJson p) = json_member (stableJsonStringify fmt) p" if "p \<in> set (sorted_entries ob)" for p
  proof -
    have "(fst p, snd p) \<in> set ob" using that by (simp add: sorted_entries_def)
    with JObject.IH [of p "snd p"] plain_member [OF JObject.prems, of "fst p" "snd p"] show ?thesis
      by (simp add: json_member_def snds.simps)
  qed
  have "defined_entries (map (apsnd normalizeJson) (sorted_entries ob)) =
      map (apsnd normalizeJson) (sorted_entries ob)"
    using defined_entries_plain(1) [OF plain_normalizeJson [OF JObject.prems, unfolded normalizeJson_plain_object [OF JObject.prems]]]
      defined(2)
    by (simp add: sorted_entries_apsnd sorted_entries_idem)
  then show ?case
    using member
    by (simp add: normalizeJson_plain_object [OF JObject.prems] stringify_object defined(1) comp_def cong: map_cong
        del: normalizeJson.simps stableJsonStringify.simps)
qed simp_all

section \<open>Equality up to the order of members\<close>

inductive same_json :: "jsval \<Rightarrow> jsval \<Rightarrow> bool" where
  same_atom: "(\<forall>vs. v \<noteq> JArray vs) \<Longrightarrow> (\<forall>ob. v \<noteq> JObject ob) \<Longrightarrow> same_json v v"
| same_array: "list_all2 same_json vs ws \<Longrightarrow> same_json (JArray vs) (JArray ws)"
| same_object: "fst ` set xs = fst ` set ys \<Longrightarrow>
    (\<And>k v w. (k, v) \<in> set xs \<Longrightarrow> (k, w) \<in> set ys \<Longrightarrow> same_json v w) \<Longrightarrow>
    same_json (JObject xs) (JObject ys)"

lemma entries_eqI:
  fixes f :: "jsval \<Rightarrow> jsval"
  assumes "distinct (map fst xs)" and "distinct (map fst ys)" and "fst ` set xs = fst ` set ys"
    and "\<And>k v w. (k, v) \<in> set xs \<Longrightarrow> (k, w) \<in> set ys \<Longrightarrow> f v = f w"
  shows "map (apsnd f) (sorted_entries xs) = map (apsnd f) (sorted_entries ys)"
proof -
  have sub: "apsnd f ` set us \<subseteq> apsnd f ` set vs"
    if keys: "fst ` set us \<subseteq> fst ` set vs" and vals: "\<And>k v w. (k, v) \<in> set us \<Longrightarrow> (k, w) \<in> set vs \<Longrightarrow> f v = f w"
    for us vs :: "(string \<times> jsval) list"
  proof
    fix p assume "p \<in> apsnd f ` set us"
    then obtain k v where u: "(k, v) \<in> set us" "p = (k, f v)" by auto
    then obtain w where "(k, w) \<in> set vs" using keys by force
    with u vals [of k v w] show "p \<in> apsnd f ` set vs" by force
  qed
  have "apsnd f ` set xs \<subseteq> apsnd f ` set ys"
    by (rule sub) (simp_all add: assms(3,4))
  moreover have "apsnd f ` set ys \<subseteq> apsnd f ` set xs"
    by (rule sub) (simp_all add: assms(3) assms(4) [symmetric])
  ultimately have "set (map (apsnd f) xs) = set (map (apsnd f) ys)" by auto
  moreover have "distinct (map (apsnd f) us)" if "distinct (map fst us)" for us :: "(string \<times> jsval) list"
    using that distinct_map [of fst "map (apsnd f) us"] by (simp add: comp_def del: distinct_map)
  ultimately have "mset (map (apsnd f) xs) = mset (map (apsnd f) ys)"
    using assms(1,2) by (simp add: set_eq_iff_mset_eq_distinct del: set_map mset_map)
  then have "sorted_entries (map (apsnd f) xs) = sorted_entries (map (apsnd f) ys)"
    by (rule sorted_entries_perm) (simp add: assms(1) comp_def)
  then show ?thesis using assms(1,2) by (simp add: sorted_entries_apsnd)
qed

lemma same_json_normalize:
  assumes "same_json v w" and "plain_json P v" and "plain_json P w"
  shows "normalizeJson v = normalizeJson w"
  using assms
proof (induction rule: same_json.induct)
  case (same_array vs ws)
  from same_array show ?case
    by (induction vs ws rule: list_all2_induct) simp_all
next
  case (same_object xs ys)
  have "map (apsnd normalizeJson) (sorted_entries xs) = map (apsnd normalizeJson) (sorted_entries ys)"
  proof (rule entries_eqI)
    fix k v w assume "(k, v) \<in> set xs" "(k, w) \<in> set ys"
    then show "normalizeJson v = normalizeJson w"
      using same_object.IH plain_member [OF same_object.prems(1)] plain_member [OF same_object.prems(2)] by blast
  qed (use same_object in simp_all)
  then show ?case
    by (simp only: normalizeJson_plain_object [OF same_object.prems(1)] normalizeJson_plain_object [OF same_object.prems(2)])
qed simp

lemma normalize_atom_cases:
  "normalizeJson w = normalizeJson v \<Longrightarrow> (\<forall>vs. v \<noteq> JArray vs) \<Longrightarrow> (\<forall>ob. v \<noteq> JObject ob) \<Longrightarrow> w = v"
  by (cases v; cases w) auto

lemma normalize_same_json:
  assumes "normalizeJson v = normalizeJson w" and "plain_json P v" and "plain_json P w"
  shows "same_json v w"
  using assms
proof (induction v arbitrary: w)
  case (JArray vs)
  then obtain ws where w: "w = JArray ws" by (cases w rule: jsval.exhaust) auto
  with JArray.prems have eq: "map normalizeJson vs = map normalizeJson ws" by simp
  have "list_all2 same_json vs ws"
  proof (rule list_all2_all_nthI)
    show len: "length vs = length ws" using eq map_eq_imp_length_eq by blast
    fix i assume i: "i < length vs"
    then have "normalizeJson (vs ! i) = normalizeJson (ws ! i)"
      using eq len by (metis nth_map)
    with i len JArray.IH [of "vs ! i" "ws ! i"] JArray.prems w show "same_json (vs ! i) (ws ! i)" by simp
  qed
  then show ?case unfolding w by (rule same_array)
next
  case (JObject xs)
  then obtain ys where w: "w = JObject ys" by (cases w rule: jsval.exhaust) auto
  note pl = JObject.prems(2) JObject.prems(3) [unfolded w]
  have "map (apsnd normalizeJson) (sorted_entries xs) = map (apsnd normalizeJson) (sorted_entries ys)"
    using JObject.prems(1) unfolding w normalizeJson_plain_object [OF pl(1)] normalizeJson_plain_object [OF pl(2)] by simp
  then have "set (map (apsnd normalizeJson) (sorted_entries xs)) = set (map (apsnd normalizeJson) (sorted_entries ys))" by simp
  then have sets: "apsnd normalizeJson ` set xs = apsnd normalizeJson ` set ys"
    by (simp add: sorted_entries_def)
  show ?case unfolding w
  proof (rule same_object)
    have "fst ` apsnd normalizeJson ` set xs = fst ` apsnd normalizeJson ` set ys" using sets by simp
    then show "fst ` set xs = fst ` set ys" by (simp add: image_image)
  next
    fix k v w' assume v: "(k, v) \<in> set xs" and w': "(k, w') \<in> set ys"
    have "(k, normalizeJson v) \<in> apsnd normalizeJson ` set ys" using v sets by force
    then obtain u where u: "(k, u) \<in> set ys" "normalizeJson u = normalizeJson v" by auto
    with w' pl(2) have "u = w'" by (auto dest: eq_key_imp_eq_value)
    with u v w' JObject.IH [of "(k, v)" v w'] plain_member [OF pl(1)] plain_member [OF pl(2)]
    show "same_json v w'" by simp
  qed
qed (use same_atom normalize_atom_cases in \<open>metis jsval.distinct\<close>)+

lemma stringify_eq_iff:
  assumes "plain_json (prints_back fmt rd) v" and "plain_json (prints_back fmt rd) w"
  shows "stableJsonStringify fmt v = stableJsonStringify fmt w \<longleftrightarrow> same_json v w"
proof
  assume "stableJsonStringify fmt v = stableJsonStringify fmt w"
  then have "normalizeJson v = normalizeJson w"
    using JSON_parse_stringify [OF assms(1), of "[]"] JSON_parse_stringify [OF assms(2), of "[]"] by simp
  then show "same_json v w" using assms by (rule normalize_same_json)
next
  assume "same_json v w"
  then have "normalizeJson v = normalizeJson w" using assms by (rule same_json_normalize)
  then show "stableJsonStringify fmt v = stableJsonStringify fmt w"
    using stringify_normalizeJson assms by metis
qed

declare normalizeJson.simps(2) [simp del] stableJsonStringify.simps(7) [simp del]

section \<open>Properties\<close>

text \<open>A printer and a reader of numbers that are not safe integers.\<close>

definition example_fmt :: "js_number \<Rightarrow> string" where
  "example_fmt x = (if x = NFrac (1 / 2) then ''0.5'' else [])"

definition example_rd :: "string \<Rightarrow> js_number option" where
  "example_rd s = (if s = ''0.5'' then Some (NFrac (1 / 2)) else None)"

definition example_value :: jsval where
  "example_value = JObject
     [(''b'', JArray [JNumber (NInt (- 7)), JNumber (NFrac (1 / 2)), JNull]),
      (''a'', JObject [(''2'', JBool True), (''10'', JString [CHR 34, CHR 10])])]"

lemma example_value_plain: "plain_json (prints_back example_fmt example_rd) example_value"
proof -
  have "prints_back example_fmt example_rd (NFrac (1 / 2))"
    by (simp add: prints_back_def example_fmt_def read_number_def canonical_digits_def is_digit_def
        example_rd_def number_char_def)
  moreover have "prints_back example_fmt example_rd (NInt (- 7))"
    by (simp add: prints_back_def MAX_SAFE_INTEGER_def)
  ultimately show ?thesis by (simp add: example_value_def)
qed

text \<open>
  C13: the canonical text of a plain JSON value, followed by any white space, is parsed back as the
  normal form of the value; normalizing again changes neither the value nor the text.
\<close>

theorem canonical_text_round_trip:
  assumes "plain_json (prints_back fmt rd) v" and "list_all json_ws rest"
  shows "JSON_parse rd (stableJsonStringify fmt v @ rest) = Some (normalizeJson v) \<and>
    normalizeJson (normalizeJson v) = normalizeJson v \<and>
    stableJsonStringify fmt (normalizeJson v) = stableJsonStringify fmt v"
  using JSON_parse_stringify [OF assms] normalizeJson_idem [OF assms(1)]
    stringify_normalizeJson [OF assms(1)] by blast

theorem canonical_text_round_trip_witness:
  "JSON_parse example_rd (stableJsonStringify example_fmt example_value @ [CHR 10]) =
     Some (normalizeJson example_value)"
  using canonical_text_round_trip [OF example_value_plain, of "[CHR 10]"] by (simp add: json_ws_def)

text \<open>
  C14: two plain JSON values have the same canonical text exactly when they are equal up to the order
  of object members.
\<close>

theorem canonical_text_decides_equality:
  assumes "plain_json (prints_back fmt rd) v" and "plain_json (prints_back fmt rd) w"
  shows "stableJsonStringify fmt v = stableJsonStringify fmt w \<longleftrightarrow> same_json v w"
  using assms by (rule stringify_eq_iff)

theorem canonical_text_decides_equality_witness:
  "stableJsonStringify example_fmt example_value = stableJsonStringify example_fmt (normalizeJson example_value)
     \<longleftrightarrow> same_json example_value (normalizeJson example_value)"
  using canonical_text_decides_equality [OF example_value_plain plain_normalizeJson [OF example_value_plain]] .

end
