(* ===== verification/Js_Integers.thy ===== *)
theory Js_Integers
  imports Js_Prelude "HOL-Library.Word"
begin

unbundle bit_operations_syntax

text \<open>
  The bitwise operators of JavaScript on integral numbers. Each operator converts its operands to
  32-bit integers and yields a signed one, except \<open>>>>\<close>, which yields an unsigned one; a shift
  count is taken modulo 32. The lemmas of \<open>word_of_js\<close> say which word operation each of them is,
  and the last section gives the arithmetic of the operators on small non-negative numbers.
\<close>

section \<open>JavaScript integer operators\<close>

definition toInt32 :: "int \<Rightarrow> int" where "toInt32 x = signed_take_bit 31 x"
definition toUint32 :: "int \<Rightarrow> int" where "toUint32 x = take_bit 32 x"

definition js_ushr :: "int \<Rightarrow> nat \<Rightarrow> int" where
  "js_ushr x n = drop_bit (n mod 32) (toUint32 x)"

definition js_shl :: "int \<Rightarrow> nat \<Rightarrow> int" where
  "js_shl x n = toInt32 (push_bit (n mod 32) (toInt32 x))"

definition js_or :: "int \<Rightarrow> int \<Rightarrow> int" where "js_or a b = toInt32 a OR toInt32 b"
definition js_and :: "int \<Rightarrow> int \<Rightarrow> int" where "js_and a b = toInt32 a AND toInt32 b"
definition js_xor :: "int \<Rightarrow> int \<Rightarrow> int" where "js_xor a b = toInt32 a XOR toInt32 b"
definition js_not :: "int \<Rightarrow> int" where "js_not a = NOT (toInt32 a)"

section \<open>The operators agree with the words\<close>

type_synonym u32 = "32 word"

abbreviation wi :: "int \<Rightarrow> u32" where "wi \<equiv> word_of_int"

named_theorems word_of_js \<open>the word a JavaScript bitwise operation denotes\<close>

lemma wi_toInt32 [word_of_js]: "wi (toInt32 x) = wi x"
  by (simp add: toInt32_def word_of_int_eq_iff take_bit_signed_take_bit)

lemma wi_toUint32 [word_of_js]: "wi (toUint32 x) = wi x"
  by (simp add: toUint32_def word_of_int_eq_iff)

lemma bit_toInt32: "k < 32 \<Longrightarrow> bit (toInt32 x) k = bit x k"
  by (cases "k = 31") (auto simp: toInt32_def bit_simps min_def)

lemma wi_or [word_of_js]: "wi (js_or a b) = wi a OR wi b"
  by (rule bit_word_eqI) (simp add: js_or_def bit_or_iff bit_word_of_int_iff bit_toInt32)

lemma wi_and [word_of_js]: "wi (js_and a b) = wi a AND wi b"
  by (rule bit_word_eqI) (simp add: js_and_def bit_and_iff bit_word_of_int_iff bit_toInt32)

lemma wi_xor [word_of_js]: "wi (js_xor a b) = wi a XOR wi b"
  by (rule bit_word_eqI) (simp add: js_xor_def bit_xor_iff bit_word_of_int_iff bit_toInt32)

lemma wi_not [word_of_js]: "wi (js_not a) = NOT (wi a)"
  by (rule bit_word_eqI)
     (simp add: js_not_def bit_simps bit_toInt32)

lemma wi_shl [word_of_js]: "n < 32 \<Longrightarrow> wi (js_shl x n) = push_bit n (wi x)"
  by (rule bit_word_eqI)
     (auto simp: js_shl_def bit_simps bit_toInt32)

lemma wi_ushr [word_of_js]: "n < 32 \<Longrightarrow> wi (js_ushr x n) = drop_bit n (wi x)"
  by (rule bit_word_eqI)
     (auto simp: js_ushr_def toUint32_def bit_simps)

lemma wi_ushr_0 [simp]: "wi (js_ushr x 0) = wi x"
  by (simp add: wi_ushr)

section \<open>Arithmetic on small numbers\<close>

lemma small_int: "0 \<le> x \<Longrightarrow> x < 2 ^ 31 \<Longrightarrow> toInt32 x = x \<and> toUint32 x = x"
  by (simp add: toInt32_def toUint32_def signed_take_bit_int_eq_self take_bit_int_eq_self)

lemma js_ushr_div: "0 \<le> x \<Longrightarrow> x < 2 ^ 31 \<Longrightarrow> n < 32 \<Longrightarrow> js_ushr x n = x div 2 ^ n"
  by (simp add: js_ushr_def small_int drop_bit_eq_div)

lemma js_and_63: "0 \<le> x \<Longrightarrow> x < 2 ^ 31 \<Longrightarrow> js_and x 0x3f = x mod 64"
proof -
  assume x: "0 \<le> x" "x < 2 ^ 31"
  have "x AND 63 = take_bit 6 x" by (simp add: take_bit_eq_mask mask_eq_exp_minus_1)
  moreover have "toInt32 63 = 63" by (simp add: toInt32_def)
  ultimately show ?thesis using x by (simp add: js_and_def small_int take_bit_eq_mod)
qed

lemma js_or_add:
  assumes "0 \<le> m" "0 \<le> y" "y < 2 ^ k" "m * 2 ^ k < 2 ^ 31" "k \<le> 31"
  shows "js_or (m * 2 ^ k) y = m * 2 ^ k + y"
proof -
  have "y < 2 ^ 31" using assms(3,5) power_increasing [of k 31 "2 :: int"] by linarith
  then have "js_or (m * 2 ^ k) y = push_bit k m OR take_bit k y"
    using assms by (simp add: js_or_def small_int push_bit_eq_mult take_bit_int_eq_self)
  also have "\<dots> = push_bit k m + take_bit k y"
    by (rule disjunctive_add [symmetric]) (auto simp: bit_push_bit_iff bit_take_bit_iff)
  finally show ?thesis using assms by (simp add: push_bit_eq_mult take_bit_int_eq_self)
qed

lemma js_and_255: "js_and (js_ushr x n) 255 = (x div 2 ^ n) mod 256" if "n \<le> 24"
proof -
  have "js_and (js_ushr x n) 255 = take_bit 8 (drop_bit n x)"
  proof (rule bit_eqI)
    fix k
    have "bit (255 :: int) k \<longleftrightarrow> k < 8"
      using bit_mask_iff [of 8 k, where ?'a = int] by (simp add: mask_eq_exp_minus_1)
    moreover have "toInt32 255 = 255" by (simp add: toInt32_def)
    ultimately show "bit (js_and (js_ushr x n) 255) k \<longleftrightarrow> bit (take_bit 8 (drop_bit n x)) k"
      using that by (cases "k < 8") (auto simp: js_and_def bit_and_iff bit_toInt32 js_ushr_def toUint32_def
          bit_drop_bit_eq bit_take_bit_iff)
  qed
  then show ?thesis by (simp add: take_bit_eq_mod drop_bit_eq_div)
qed

end
