(* ===== verification/Utf8.thy ===== *)
theory Utf8
  imports Js_Integers
begin

text \<open>
  \<open>utf8Bytes\<close> of \<^verbatim>\<open>packages/deployment-contract/src/serialization.ts\<close>: the UTF-8 bytes of a text,
  one code point at a time, computed with the JavaScript bit operators. The encoding of a code
  point is a prefix code (the locale \<open>prefix_codec\<close>), so different texts have different bytes.
\<close>

section \<open>Definitions\<close>

text \<open>The bytes \<open>utf8Bytes\<close> pushes for one code point.\<close>

definition utf8_char :: "int \<Rightarrow> int list" where
  "utf8_char codePoint =
     (if codePoint \<le> 0x7f then [codePoint]
      else if codePoint \<le> 0x7ff then
        [js_or 0xc0 (js_ushr codePoint 6), js_or 0x80 (js_and codePoint 0x3f)]
      else if codePoint \<le> 0xffff then
        [js_or 0xe0 (js_ushr codePoint 12), js_or 0x80 (js_and (js_ushr codePoint 6) 0x3f),
         js_or 0x80 (js_and codePoint 0x3f)]
      else
        [js_or 0xf0 (js_ushr codePoint 18), js_or 0x80 (js_and (js_ushr codePoint 12) 0x3f),
         js_or 0x80 (js_and (js_ushr codePoint 6) 0x3f), js_or 0x80 (js_and codePoint 0x3f)])"

definition utf8Bytes :: "int list \<Rightarrow> int list" where
  "utf8Bytes codePoints = concat (map utf8_char codePoints)"

text \<open>\<open>for (const character of value)\<close> over a string of code units below 256.\<close>

definition codePoints :: "string \<Rightarrow> int list" where
  "codePoints s = map of_char s"

section \<open>UTF-8 is a prefix code\<close>

text \<open>The bytes of a code point, as arithmetic.\<close>

lemma utf8_char_arith:
  assumes "0 \<le> c" and "c < 0x200000"
  shows "utf8_char c =
     (if c \<le> 0x7f then [c]
      else if c \<le> 0x7ff then [0xc0 + c div 64, 0x80 + c mod 64]
      else if c \<le> 0xffff then [0xe0 + c div 4096, 0x80 + c div 64 mod 64, 0x80 + c mod 64]
      else [0xf0 + c div 262144, 0x80 + c div 4096 mod 64, 0x80 + c div 64 mod 64, 0x80 + c mod 64])"
proof -
  have c: "c < 2 ^ 31" using assms(2) by simp
  have tail: "js_or 0x80 (y mod 64) = 0x80 + y mod 64" for y
    using js_or_add [of 2 "y mod 64" 6] by simp
  have shift: "js_ushr c 6 = c div 64" "js_ushr c 12 = c div 4096" "js_ushr c 18 = c div 262144"
    using assms(1) c by (simp_all add: js_ushr_div)
  have "0 \<le> c div 64" "c div 64 < 2 ^ 31" "0 \<le> c div 4096" "c div 4096 < 2 ^ 31"
    using assms by simp_all
  then have mid: "js_and (c div 64) 0x3f = c div 64 mod 64" "js_and (c div 4096) 0x3f = c div 4096 mod 64"
    by (simp_all add: js_and_63)
  have lead: "c \<le> 0x7ff \<Longrightarrow> js_or 0xc0 (c div 64) = 0xc0 + c div 64"
    "c \<le> 0xffff \<Longrightarrow> js_or 0xe0 (c div 4096) = 0xe0 + c div 4096"
    "js_or 0xf0 (c div 262144) = 0xf0 + c div 262144"
    using assms js_or_add [of 6 "c div 64" 5] js_or_add [of 14 "c div 4096" 4] js_or_add [of 30 "c div 262144" 3]
    by simp_all
  show ?thesis
    using assms c by (simp add: utf8_char_def shift mid tail lead js_and_63)
qed

fun utf8_decode :: "int list \<Rightarrow> (int \<times> int list) option" where
  "utf8_decode (b # bs) =
     (if b \<le> 0x7f then Some (b, bs)
      else if b < 0xe0 then (case bs of x # r \<Rightarrow> Some ((b - 0xc0) * 64 + (x - 0x80), r) | _ \<Rightarrow> None)
      else if b < 0xf0 then
        (case bs of x # y # r \<Rightarrow> Some ((b - 0xe0) * 4096 + (x - 0x80) * 64 + (y - 0x80), r) | _ \<Rightarrow> None)
      else
        (case bs of x # y # z # r \<Rightarrow>
           Some ((b - 0xf0) * 262144 + (x - 0x80) * 4096 + (y - 0x80) * 64 + (z - 0x80), r)
         | _ \<Rightarrow> None))"
| "utf8_decode [] = None"

definition code_point :: "int \<Rightarrow> bool" where
  "code_point c = (0 \<le> c \<and> c < 0x110000)"

lemma utf8_decode_bytes:
  "b \<le> 0x7f \<Longrightarrow> utf8_decode (b # rest) = Some (b, rest)"
  "0 \<le> q \<Longrightarrow> q < 32 \<Longrightarrow> utf8_decode ((0xc0 + q) # (0x80 + x) # rest) = Some (q * 64 + x, rest)"
  "0 \<le> q \<Longrightarrow> q < 16 \<Longrightarrow>
     utf8_decode ((0xe0 + q) # (0x80 + x) # (0x80 + y) # rest) = Some (q * 4096 + x * 64 + y, rest)"
  "0 \<le> q \<Longrightarrow> utf8_decode ((0xf0 + q) # (0x80 + x) # (0x80 + y) # (0x80 + z) # rest) =
     Some (q * 262144 + x * 4096 + y * 64 + z, rest)"
  by simp_all

lemma split_64: "d * 64 = e \<Longrightarrow> c div e * e + c div d mod 64 * d = c div d * d" for c d e :: int
proof -
  assume e: "d * 64 = e"
  have "c div d div 64 = c div e"
    using e zdiv_zmult2_eq [of 64 c d] by simp
  moreover have "c div d div 64 * 64 + c div d mod 64 = c div d" by (rule div_mult_mod_eq)
  ultimately have "(c div e * 64 + c div d mod 64) * d = c div d * d" by simp
  moreover have "(c div e * 64 + c div d mod 64) * d = c div e * (d * 64) + c div d mod 64 * d"
    by (simp add: algebra_simps)
  ultimately show ?thesis unfolding e by simp
qed

interpretation utf8: prefix_codec utf8_char utf8_decode code_point
proof
  fix c rest assume "code_point c"
  then have c: "0 \<le> c" "c < 0x200000" by (simp_all add: code_point_def)
  have parts: "c div 64 * 64 + c mod 64 = c" by (rule div_mult_mod_eq)
  have parts2: "c div 4096 * 4096 + c div 64 mod 64 * 64 = c div 64 * 64"
    "c div 262144 * 262144 + c div 4096 mod 64 * 4096 = c div 4096 * 4096"
    using split_64 [of 64 4096 c] split_64 [of 4096 262144 c] by simp_all
  have pos: "0 \<le> c div 64" "0 \<le> c div 4096" "0 \<le> c div 262144"
    using c(1) by simp_all
  consider "c \<le> 0x7f" | "0x7f < c" "c \<le> 0x7ff" | "0x7ff < c" "c \<le> 0xffff" | "0xffff < c" by linarith
  then show "utf8_decode (utf8_char c @ rest) = Some (c, rest)"
  proof cases
    case 1
    then show ?thesis by (simp only: utf8_char_arith [OF c] if_True append.simps utf8_decode_bytes)
  next
    case 2
    then have "c div 64 < 32" by simp
    moreover have "utf8_char c = [0xc0 + c div 64, 0x80 + c mod 64]"
      using 2 by (simp add: utf8_char_arith [OF c])
    ultimately show ?thesis using pos parts by (simp only: append.simps utf8_decode_bytes)
  next
    case 3
    then have "c div 4096 < 16" by simp
    moreover have "utf8_char c = [0xe0 + c div 4096, 0x80 + c div 64 mod 64, 0x80 + c mod 64]"
      using 3 by (simp add: utf8_char_arith [OF c])
    ultimately show ?thesis using pos parts parts2 by (simp only: append.simps utf8_decode_bytes)
  next
    case 4
    then have "utf8_char c =
        [0xf0 + c div 262144, 0x80 + c div 4096 mod 64, 0x80 + c div 64 mod 64, 0x80 + c mod 64]"
      by (simp add: utf8_char_arith [OF c])
    then show ?thesis using pos parts parts2 by (simp only: append.simps utf8_decode_bytes)
  qed
qed

lemma utf8_char_nonempty: "utf8_char c \<noteq> []"
  by (simp add: utf8_char_def)

lemma code_point_of_string: "list_all code_point (codePoints s)"
proof -
  have "code_point (of_char c)" for c :: char
  proof -
    have "(of_char c :: int) = int (of_char c)" by (rule of_nat_of_char [symmetric])
    moreover have "(of_char c :: nat) < 256" by (rule nat_of_char_less_256)
    ultimately show ?thesis by (simp only: code_point_def) linarith
  qed
  then show ?thesis by (simp add: codePoints_def list_all_iff)
qed

section \<open>Properties\<close>

text \<open>
  Different sequences of code points have different UTF-8 bytes, so nothing of a text is lost
  before it is hashed.
\<close>

theorem utf8Bytes_injective:
  assumes "list_all code_point xs" and "list_all code_point ys" and "utf8Bytes xs = utf8Bytes ys"
  shows "xs = ys"
  using utf8.enc_list_inj [OF assms(1,2) utf8_char_nonempty] assms(3) by (simp add: utf8Bytes_def)

theorem utf8Bytes_injective_witness:
  "utf8Bytes [0x41, 0xe9] = utf8Bytes (codePoints [CHR 0x41, CHR 0xE9]) \<and> [0x41, 0xe9] = codePoints [CHR 0x41, CHR 0xE9]"
proof -
  have "utf8Bytes [0x41, 0xe9] = utf8Bytes (codePoints [CHR 0x41, CHR 0xE9])" by (simp add: codePoints_def)
  moreover have "list_all code_point [0x41, 0xe9]" by (simp add: code_point_def)
  ultimately show ?thesis using utf8Bytes_injective code_point_of_string by blast
qed

end
