(* ===== verification/Sha256.thy ===== *)
theory Sha256
  imports Complex_Main Utf8
begin

unbundle bit_operations_syntax

text \<open>
  \<open>sha256Hex\<close> and \<open>rotateRight\<close> of \<^verbatim>\<open>packages/deployment-contract/src/serialization.ts\<close>. The
  source works on JavaScript numbers, so the model is on \<^typ>\<open>int\<close> with the operators of
  \<open>Js_Integers\<close>; additions are exact and \<open>>>> 0\<close> brings a sum back to 32 bits. The second half states SHA-256 as FIPS 180-4 does, on 32-bit
  words with a recursive message schedule, and proves that the source computes it.
\<close>

section \<open>Definitions\<close>

definition rotateRight :: "int \<Rightarrow> nat \<Rightarrow> int" where
  "rotateRight v bits = js_or (js_ushr v bits) (js_shl v (32 - bits))"

text \<open>The round constants, row by row as the source lists them.\<close>

definition sha_constants :: "int list" where
  "sha_constants = concat [
    [0x428a2f98, 0x71374491, 0xb5c0fbcf, 0xe9b5dba5, 0x3956c25b],
    [0x59f111f1, 0x923f82a4, 0xab1c5ed5, 0xd807aa98, 0x12835b01],
    [0x243185be, 0x550c7dc3, 0x72be5d74, 0x80deb1fe, 0x9bdc06a7],
    [0xc19bf174, 0xe49b69c1, 0xefbe4786, 0x0fc19dc6, 0x240ca1cc],
    [0x2de92c6f, 0x4a7484aa, 0x5cb0a9dc, 0x76f988da, 0x983e5152],
    [0xa831c66d, 0xb00327c8, 0xbf597fc7, 0xc6e00bf3, 0xd5a79147],
    [0x06ca6351, 0x14292967, 0x27b70a85, 0x2e1b2138, 0x4d2c6dfc],
    [0x53380d13, 0x650a7354, 0x766a0abb, 0x81c2c92e, 0x92722c85],
    [0xa2bfe8a1, 0xa81a664b, 0xc24b8b70, 0xc76c51a3, 0xd192e819],
    [0xd6990624, 0xf40e3585, 0x106aa070, 0x19a4c116, 0x1e376c08],
    [0x2748774c, 0x34b0bcb5, 0x391c0cb3, 0x4ed8aa4a, 0x5b9cca4f],
    [0x682e6ff3, 0x748f82ee, 0x78a5636f, 0x84c87814, 0x8cc70208],
    [0x90befffa, 0xa4506ceb, 0xbef9a3f7, 0xc67178f2]]"

definition sha_initial :: "int list" where
  "sha_initial = [
    0x6a09e667, 0xbb67ae85, 0x3c6ef372, 0xa54ff53a, 0x510e527f,
    0x9b05688c, 0x1f83d9ab, 0x5be0cd19]"

text \<open>\<open>while (bytes.length % 64 !== 56) bytes.push(0)\<close>\<close>

function pad_zeros :: "int list \<Rightarrow> int list" where
  "pad_zeros bytes = (if length bytes mod 64 \<noteq> 56 then pad_zeros (bytes @ [0]) else bytes)"
  by pat_completeness auto
termination
proof (relation "measure (\<lambda>bytes. let r = length bytes mod 64 in if r \<le> 56 then 56 - r else 120 - r)")
  fix bytes :: "int list"
  define r where "r = length bytes mod 64"
  assume "length bytes mod 64 \<noteq> 56"
  then have "r \<noteq> 56" "r < 64" by (simp_all add: r_def)
  moreover have "length (bytes @ [0]) mod 64 = (if r = 63 then 0 else r + 1)"
    by (simp add: r_def mod_Suc)
  ultimately show "(bytes @ [0], bytes) \<in>
      measure (\<lambda>bytes. let r = length bytes mod 64 in if r \<le> 56 then 56 - r else 120 - r)"
    by (simp add: Let_def flip: r_def) arith
qed simp

declare pad_zeros.simps [simp del]

definition be_bytes :: "int \<Rightarrow> int list" where
  "be_bytes w = map (\<lambda>shift. js_and (js_ushr w shift) 0xff) [24, 16, 8, 0]"

definition sha_padded :: "int list \<Rightarrow> int list" where
  "sha_padded bytes =
     (let bitLength = int (length bytes) * 8;
          high = bitLength div 0x100000000;
          low = js_ushr bitLength 0
      in pad_zeros (bytes @ [0x80]) @ be_bytes high @ be_bytes low)"

text \<open>\<open>xs[i] ?? 0\<close>\<close>

definition at_or_0 :: "int list \<Rightarrow> nat \<Rightarrow> int" where
  "at_or_0 xs i = (if i < length xs then xs ! i else 0)"

definition load_word :: "int list \<Rightarrow> nat \<Rightarrow> int" where
  "load_word bytes start =
     js_ushr (js_or (js_or (js_or (js_shl (at_or_0 bytes start) 24)
                                 (js_shl (at_or_0 bytes (start + 1)) 16))
                          (js_shl (at_or_0 bytes (start + 2)) 8))
                    (at_or_0 bytes (start + 3))) 0"

definition load_block :: "int list \<Rightarrow> nat \<Rightarrow> int list \<Rightarrow> int list" where
  "load_block bytes offset words =
     foldl (\<lambda>ws index. ws[index := load_word bytes (offset + index * 4)]) words [0..<16]"

definition extend_word :: "int list \<Rightarrow> nat \<Rightarrow> int list" where
  "extend_word words index =
     (let word15 = at_or_0 words (index - 15); word2 = at_or_0 words (index - 2);
          small0 = js_xor (js_xor (rotateRight word15 7) (rotateRight word15 18)) (js_ushr word15 3);
          small1 = js_xor (js_xor (rotateRight word2 17) (rotateRight word2 19)) (js_ushr word2 10)
      in words[index := js_ushr (at_or_0 words (index - 16) + small0 + at_or_0 words (index - 7) + small1) 0])"

definition extend_block :: "int list \<Rightarrow> int list" where
  "extend_block words = foldl extend_word words [16..<64]"

type_synonym 'a sha_regs = "'a \<times> 'a \<times> 'a \<times> 'a \<times> 'a \<times> 'a \<times> 'a \<times> 'a"

fun sha_round :: "int list \<Rightarrow> int sha_regs \<Rightarrow> nat \<Rightarrow> int sha_regs" where
  "sha_round words (a, b, c, d, e, f, g, h) index =
     (let upper1 = js_xor (js_xor (rotateRight e 6) (rotateRight e 11)) (rotateRight e 25);
          choice = js_xor (js_and e f) (js_and (js_not e) g);
          temporary1 = js_ushr (h + upper1 + choice + at_or_0 sha_constants index + at_or_0 words index) 0;
          upper0 = js_xor (js_xor (rotateRight a 2) (rotateRight a 13)) (rotateRight a 22);
          majority = js_xor (js_xor (js_and a b) (js_and a c)) (js_and b c);
          temporary2 = js_ushr (upper0 + majority) 0
      in (js_ushr (temporary1 + temporary2) 0, a, b, c, js_ushr (d + temporary1) 0, e, f, g))"

definition regs_of :: "int list \<Rightarrow> int sha_regs" where
  "regs_of hash = (at_or_0 hash 0, at_or_0 hash 1, at_or_0 hash 2, at_or_0 hash 3,
                   at_or_0 hash 4, at_or_0 hash 5, at_or_0 hash 6, at_or_0 hash 7)"

definition add_regs :: "int list \<Rightarrow> int sha_regs \<Rightarrow> int list" where
  "add_regs hash regs = (case regs of (a, b, c, d, e, f, g, h) \<Rightarrow>
     map2 (\<lambda>x y. js_ushr (x + y) 0) hash [a, b, c, d, e, f, g, h])"

text \<open>One iteration of the loop over the blocks; \<open>words\<close> is reused from block to block.\<close>

definition sha_block :: "int list \<Rightarrow> int list \<times> int list \<Rightarrow> nat \<Rightarrow> int list \<times> int list" where
  "sha_block bytes st offset = (case st of (words, hash) \<Rightarrow>
     (let words' = extend_block (load_block bytes offset words)
      in (words', add_regs hash (foldl (sha_round words') (regs_of hash) [0..<64]))))"

definition sha256_words :: "int list \<Rightarrow> int list" where
  "sha256_words bytes =
     (let padded = sha_padded bytes
      in snd (foldl (sha_block padded) (replicate 64 0, sha_initial)
               (map (\<lambda>k. k * 64) [0..<length padded div 64])))"

definition hex_char :: "int \<Rightarrow> char" where
  "hex_char d = ''0123456789abcdef'' ! nat d"

text \<open>\<open>toString(16)\<close> of a non-negative integer.\<close>

function to_hex :: "int \<Rightarrow> string" where
  "to_hex n = (if n < 16 then [hex_char n] else to_hex (n div 16) @ [hex_char (n mod 16)])"
  by pat_completeness auto
termination
  by (relation "measure nat") auto

declare to_hex.simps [simp del]

definition padStart :: "nat \<Rightarrow> char \<Rightarrow> string \<Rightarrow> string" where
  "padStart n c s = replicate (n - length s) c @ s"

definition sha256Hex :: "string \<Rightarrow> string" where
  "sha256Hex s =
     concat (map (\<lambda>word. padStart 8 (CHR ''0'') (to_hex (js_ushr word 0)))
       (sha256_words (utf8Bytes (codePoints s))))"

section \<open>FIPS 180-4\<close>

text \<open>
  The constants of FIPS 180-4: the first 32 bits of the fractional parts of the cube roots of the first
  64 primes and of the square roots of the first eight.
\<close>

definition is_prime :: "int \<Rightarrow> bool" where
  "is_prime n \<longleftrightarrow> 1 < n \<and> list_all (\<lambda>d. n mod d \<noteq> 0) [2..n - 1]"

definition first_primes :: "int list" where
  "first_primes = filter is_prime [2..311]"

definition root_bits :: "nat \<Rightarrow> int \<Rightarrow> int" where
  "root_bits n p = \<lfloor>frac (root n (of_int p)) * 2 ^ 32\<rfloor>"

text \<open>RFC 3629: the bits of a code point, six to a continuation byte, after the bits that mark the length.\<close>

definition rfc3629 :: "int \<Rightarrow> int list" where
  "rfc3629 c =
     (if c < 2 ^ 7 then [c]
      else if c < 2 ^ 11 then [192 + c div 2 ^ 6, 128 + c mod 2 ^ 6]
      else if c < 2 ^ 16 then [224 + c div 2 ^ 12, 128 + c div 2 ^ 6 mod 2 ^ 6, 128 + c mod 2 ^ 6]
      else [240 + c div 2 ^ 18, 128 + c div 2 ^ 12 mod 2 ^ 6, 128 + c div 2 ^ 6 mod 2 ^ 6, 128 + c mod 2 ^ 6])"

text \<open>The eight hexadecimal digits of a word, most significant first.\<close>

definition hex_word :: "u32 \<Rightarrow> string" where
  "hex_word w = map (\<lambda>i. ''0123456789abcdef'' ! nat (uint w div 16 ^ (7 - i) mod 16)) [0..<8]"

definition fips_Ch :: "u32 \<Rightarrow> u32 \<Rightarrow> u32 \<Rightarrow> u32" where
  "fips_Ch x y z = (x AND y) XOR (NOT x AND z)"

definition fips_Maj :: "u32 \<Rightarrow> u32 \<Rightarrow> u32 \<Rightarrow> u32" where
  "fips_Maj x y z = (x AND y) XOR (x AND z) XOR (y AND z)"

definition fips_Sigma0 :: "u32 \<Rightarrow> u32" where
  "fips_Sigma0 x = word_rotr 2 x XOR word_rotr 13 x XOR word_rotr 22 x"

definition fips_Sigma1 :: "u32 \<Rightarrow> u32" where
  "fips_Sigma1 x = word_rotr 6 x XOR word_rotr 11 x XOR word_rotr 25 x"

definition fips_sigma0 :: "u32 \<Rightarrow> u32" where
  "fips_sigma0 x = word_rotr 7 x XOR word_rotr 18 x XOR drop_bit 3 x"

definition fips_sigma1 :: "u32 \<Rightarrow> u32" where
  "fips_sigma1 x = word_rotr 17 x XOR word_rotr 19 x XOR drop_bit 10 x"

text \<open>The message schedule of a block \<open>M\<close> of sixteen words.\<close>

function fips_W :: "(nat \<Rightarrow> u32) \<Rightarrow> nat \<Rightarrow> u32" where
  "fips_W M t =
     (if t < 16 then M t
      else fips_sigma1 (fips_W M (t - 2)) + fips_W M (t - 7) + fips_sigma0 (fips_W M (t - 15)) +
           fips_W M (t - 16))"
  by pat_completeness auto
termination
  by (relation "measure snd") auto

declare fips_W.simps [simp del]

fun fips_round :: "(nat \<Rightarrow> u32) \<Rightarrow> u32 sha_regs \<Rightarrow> nat \<Rightarrow> u32 sha_regs" where
  "fips_round W (a, b, c, d, e, f, g, h) t =
     (let T1 = h + fips_Sigma1 e + fips_Ch e f g + word_of_int (root_bits 3 (first_primes ! t)) + W t;
          T2 = fips_Sigma0 a + fips_Maj a b c
      in (T1 + T2, a, b, c, d + T1, e, f, g))"

definition fips_regs :: "u32 list \<Rightarrow> u32 sha_regs" where
  "fips_regs H = (H ! 0, H ! 1, H ! 2, H ! 3, H ! 4, H ! 5, H ! 6, H ! 7)"

definition fips_block :: "(nat \<Rightarrow> u32) \<Rightarrow> u32 list \<Rightarrow> u32 list" where
  "fips_block M H =
     (case foldl (fips_round (fips_W M)) (fips_regs H) [0..<64] of
        (a, b, c, d, e, f, g, h) \<Rightarrow> map2 (+) H [a, b, c, d, e, f, g, h])"

text \<open>
  The padded message: a one bit, the least number of zero bits that leaves room for the length,
  and the length of the message in bits as 64 bits, most significant byte first.
\<close>

definition fips_padded :: "int list \<Rightarrow> int list" where
  "fips_padded bytes =
     bytes @ [0x80] @ replicate (nat ((55 - int (length bytes)) mod 64)) 0 @
     map (\<lambda>i. (8 * int (length bytes)) div 2 ^ (8 * (7 - i)) mod 256) [0..<8]"

definition fips_word :: "int list \<Rightarrow> nat \<Rightarrow> u32" where
  "fips_word bytes i =
     push_bit 24 (word_of_int (bytes ! i)) OR push_bit 16 (word_of_int (bytes ! (i + 1))) OR
     push_bit 8 (word_of_int (bytes ! (i + 2))) OR word_of_int (bytes ! (i + 3))"

definition fips_sha256 :: "int list \<Rightarrow> u32 list" where
  "fips_sha256 bytes =
     foldl (\<lambda>H k. fips_block (\<lambda>t. fips_word (fips_padded bytes) (64 * k + 4 * t)) H)
       (map (\<lambda>p. word_of_int (root_bits 2 p)) (take 8 first_primes)) [0..<length (fips_padded bytes) div 64]"

section \<open>The constants\<close>

text \<open>A certificate for \<open>root_bits n p = c\<close> in integers: \<open>w\<close> is the whole part of the root.\<close>

definition root_certificate :: "nat \<Rightarrow> int \<Rightarrow> int \<Rightarrow> int \<Rightarrow> bool" where
  "root_certificate n p c w \<longleftrightarrow> 0 \<le> c \<and> 0 \<le> w \<and> 0 \<le> p \<and> w ^ n \<le> p \<and> p < (w + 1) ^ n \<and>
     (w * 4294967296 + c) ^ n \<le> p * 4294967296 ^ n \<and> p * 4294967296 ^ n < (w * 4294967296 + c + 1) ^ n"

lemma root_bits_eq:
  assumes "0 < n" and "root_certificate n p c w"
  shows "root_bits n p = c"
proof -
  let ?r = "root n (of_int p)"
  have pow: "?r ^ n = of_int p" "0 \<le> ?r" using assms by (simp_all add: root_certificate_def)
  have le: "of_int a \<le> ?r * of_int q" if "a ^ n \<le> p * q ^ n" "0 \<le> q" for a q
  proof (rule power_le_imp_le_base [of _ "n - 1"])
    have "(of_int (a ^ n) :: real) \<le> of_int (p * q ^ n)" using that(1) by (simp only: of_int_le_iff)
    then show "of_int a ^ Suc (n - 1) \<le> (?r * of_int q) ^ Suc (n - 1)"
      using assms(1) pow by (simp add: power_mult_distrib)
  qed (use pow that in simp)
  have less: "?r * of_int q < of_int a" if "p * q ^ n < a ^ n" "0 \<le> a" for a q
  proof (rule power_less_imp_less_base [of _ n])
    have "(of_int (p * q ^ n) :: real) < of_int (a ^ n)" using that(1) by (simp only: of_int_less_iff)
    then show "(?r * of_int q) ^ n < of_int a ^ n" using pow by (simp add: power_mult_distrib)
  qed (use that in simp)
  note cert = assms(2) [unfolded root_certificate_def]
  have "\<lfloor>?r\<rfloor> = w" using le [of w 1] less [of 1 "w + 1"] cert by (simp add: floor_eq_iff)
  then have frac: "frac ?r * 2 ^ 32 = ?r * of_int 4294967296 - of_int w * 4294967296" by (simp add: frac_def algebra_simps)
  have "of_int (w * 4294967296 + c) \<le> ?r * of_int 4294967296" "?r * of_int 4294967296 < of_int (w * 4294967296 + c + 1)"
    using cert le [of "w * 4294967296 + c" 4294967296] less [of 4294967296 "w * 4294967296 + c + 1"] by simp_all
  then show ?thesis unfolding root_bits_def frac by (simp add: floor_eq_iff)
qed

lemma root_bits_list:
  assumes "0 < n" and "list_all2 (\<lambda>p c. \<exists>w. root_certificate n p c w) ps cs"
  shows "cs = map (root_bits n) ps"
  using assms(2) by (induction rule: list_all2_induct) (auto dest: root_bits_eq [OF assms(1)])

text \<open>The divisors up to the square root decide.\<close>

definition small_test :: "int \<Rightarrow> int \<Rightarrow> bool" where
  "small_test m n \<longleftrightarrow> 1 < n \<and> list_all (\<lambda>d. n < d * d \<or> n mod d \<noteq> 0) [2..m]"

lemma small_divisor:
  assumes "2 \<le> d" and "d < n" and "n mod d = 0"
  shows "\<exists>k. 2 \<le> k \<and> k * k \<le> n \<and> n mod k = (0 :: int)"
proof -
  obtain e where e: "n = d * e" using assms(3) by (auto simp: mod_eq_0_iff_dvd)
  have "e \<noteq> 1" "0 < e" using e assms(1,2) by (auto simp: zero_less_mult_iff)
  then have "2 \<le> e" by linarith
  show ?thesis
  proof (cases "d \<le> e")
    case True
    then show ?thesis using assms e by (intro exI [of _ d]) (simp add: mult_left_mono)
  next
    case False
    then show ?thesis using e \<open>2 \<le> e\<close> by (intro exI [of _ e]) (simp add: mult_right_mono)
  qed
qed

lemma is_prime_small:
  assumes "n < (m + 1) * (m + 1)" and "0 \<le> m"
  shows "is_prime n \<longleftrightarrow> small_test m n"
proof
  assume prime: "is_prime n"
  have small: "n < d * d \<or> n mod d \<noteq> 0" if d: "2 \<le> d" for d
  proof (cases "d < n")
    case True
    then have "d \<in> set [2..n - 1]" using d by simp
    moreover have "\<forall>d \<in> set [2..n - 1]. n mod d \<noteq> 0" using prime unfolding is_prime_def list_all_iff by (rule conjunct2)
    ultimately have "n mod d \<noteq> 0" by (rule bspec [rotated])
    then show ?thesis ..
  next
    case False
    moreover have "d * 1 < d * d" using d by (intro mult_strict_left_mono) auto
    ultimately show ?thesis by linarith
  qed
  have "\<forall>d \<in> set [2..m]. n < d * d \<or> n mod d \<noteq> 0"
  proof
    fix d assume "d \<in> set [2..m]"
    then have "2 \<le> d" by simp
    then show "n < d * d \<or> n mod d \<noteq> 0" by (rule small)
  qed
  moreover have "1 < n" using prime unfolding is_prime_def by (rule conjunct1)
  ultimately show "small_test m n" unfolding small_test_def list_all_iff by (intro conjI)
next
  assume small: "small_test m n"
  have prime: "n mod d \<noteq> 0" if d: "2 \<le> d" "d < n" for d
  proof
    assume "n mod d = 0"
    from small_divisor [OF d this] obtain k where k: "2 \<le> k" "k * k \<le> n" "n mod k = 0" by (elim exE conjE)
    have "k \<le> m"
    proof (rule ccontr)
      assume "\<not> k \<le> m"
      then have "(m + 1) * (m + 1) \<le> k * k" using assms(2) by (intro mult_mono) auto
      with k(2) assms(1) show False by linarith
    qed
    with k(1) have "k \<in> set [2..m]" by simp
    moreover have "\<forall>d \<in> set [2..m]. n < d * d \<or> n mod d \<noteq> 0" using small unfolding small_test_def list_all_iff by (rule conjunct2)
    ultimately have "n < k * k \<or> n mod k \<noteq> 0" by (rule bspec [rotated])
    with k(2,3) show False by linarith
  qed
  have "\<forall>d \<in> set [2..n - 1]. n mod d \<noteq> 0"
  proof
    fix d assume "d \<in> set [2..n - 1]"
    then have "2 \<le> d" "d < n" by simp_all
    then show "n mod d \<noteq> 0" by (rule prime)
  qed
  moreover have "1 < n" using small unfolding small_test_def by (rule conjunct1)
  ultimately show "is_prime n" unfolding is_prime_def list_all_iff by (intro conjI)
qed

lemma first_primes_eq:
  "first_primes =
   [2, 3, 5, 7, 11, 13, 17, 19, 23, 29, 31, 37, 41, 43, 47, 53, 59, 61, 67, 71, 73, 79, 83, 89, 97, 101, 103, 107, 109, 113, 127,
    131, 137, 139, 149, 151, 157, 163, 167, 173, 179, 181, 191, 193, 197, 199, 211, 223, 227, 229, 233, 239, 241, 251, 257, 263,
    269, 271, 277, 281, 283, 293, 307, 311]" (is "_ = ?ps")
proof -
  have "first_primes = filter (small_test 17) [2..311]"
    unfolding first_primes_def
  proof (rule filter_cong [OF refl])
    fix n :: int assume "n \<in> set [2..311]"
    then have "n < (17 + 1) * (17 + 1)" unfolding set_upto atLeastAtMost_iff by simp
    then show "is_prime n = small_test 17 n" by (rule is_prime_small) simp
  qed
  also have "\<dots> = ?ps" by code_simp
  finally show ?thesis .
qed

definition whole_root :: "nat \<Rightarrow> int \<Rightarrow> int" where
  "whole_root n p = hd (filter (\<lambda>w. p < (w + 1) ^ n) [1..18])"

lemma sha_constants_certified: "list_all2 (\<lambda>p c. root_certificate 3 p c (whole_root 3 p)) first_primes sha_constants"
  unfolding first_primes_eq by code_simp

lemma sha_initial_certified: "list_all2 (\<lambda>p c. root_certificate 2 p c (whole_root 2 p)) (take 8 first_primes) sha_initial"
  unfolding first_primes_eq by code_simp

lemma sha_constants_eq: "sha_constants = map (root_bits 3) first_primes"
  using sha_constants_certified by (intro root_bits_list) (auto elim: list_all2_mono)

lemma sha_initial_eq: "sha_initial = map (root_bits 2) (take 8 first_primes)"
  using sha_initial_certified by (intro root_bits_list) (auto elim: list_all2_mono)

lemma sha_constant: "t < 64 \<Longrightarrow> sha_constants ! t = root_bits 3 (first_primes ! t)"
proof -
  have "length first_primes = 64" by (simp add: first_primes_eq)
  then show "t < 64 \<Longrightarrow> sha_constants ! t = root_bits 3 (first_primes ! t)" by (simp add: sha_constants_eq)
qed

lemma length_constants: "length sha_constants = 64" "length sha_initial = 8"
  by (simp_all add: sha_constants_def sha_initial_def)

section \<open>The source computes SHA-256\<close>

lemma wi_rotateRight [word_of_js]:
  assumes "0 < n" and "n < 32"
  shows "wi (rotateRight x n) = word_rotr n (wi x)"
proof (rule bit_word_eqI)
  fix k assume k: "k < LENGTH(32)"
  have "bit (drop_bit n (wi x) OR push_bit (32 - n) (wi x)) k \<longleftrightarrow> bit (wi x) ((k + n) mod 32)"
  proof (cases "k + n < 32")
    case True
    then have "\<not> 32 - n \<le> k" by simp
    with True show ?thesis by (simp add: bit_simps add.commute)
  next
    case False
    then have "(k + n) mod 32 = k - (32 - n)"
      using k assms by (simp add: mod_if)
    moreover from False have "32 - n \<le> k" "\<not> n + k < 32" by simp_all
    ultimately show ?thesis using k assms by (simp add: bit_simps)
  qed
  then show "bit (wi (rotateRight x n)) k \<longleftrightarrow> bit (word_rotr n (wi x)) k"
    using assms k by (simp add: rotateRight_def word_of_js bit_word_rotr_iff)
qed

lemma mod64_succ: "(a + 1) mod 64 = (if a mod 64 = 63 then 0 else a mod 64 + 1)" for a :: int
proof -
  have "(a + 1) mod 64 = (a mod 64 + 1) mod 64" by (simp add: mod_add_left_eq)
  moreover have "0 \<le> a mod 64" "a mod 64 < 64" by simp_all
  ultimately show ?thesis by (cases "a mod 64 = 63") simp_all
qed

lemma mod64_minus: "(56 - a) mod 64 = 0 \<longleftrightarrow> a mod 64 = 56" for a :: int
proof -
  have "(56 - a) mod 64 = 0 \<longleftrightarrow> 56 mod 64 = a mod 64"
    by (simp only: mod_eq_dvd_iff mod_eq_0_iff_dvd)
  then show ?thesis by auto
qed

lemma pad_zeros_eq:
  "pad_zeros bytes = bytes @ replicate (nat ((56 - int (length bytes)) mod 64)) 0"
proof (induction bytes rule: pad_zeros.induct)
  case (1 bytes)
  have full: "length bytes mod 64 = 56 \<longleftrightarrow> (56 - int (length bytes)) mod 64 = 0"
    using of_nat_eq_iff [of "length bytes mod 64" 56, where ?'a = int]
    by (simp only: mod64_minus of_nat_mod of_nat_numeral)
  show ?case
  proof (cases "length bytes mod 64 = 56")
    case True
    with full show ?thesis by (subst pad_zeros.simps) simp
  next
    case False
    with full mod64_succ [of "55 - int (length bytes)"]
    have "(56 - int (length bytes)) mod 64 = (55 - int (length bytes)) mod 64 + 1"
      by (simp split: if_splits)
    moreover have "0 \<le> (55 - int (length bytes)) mod 64" by simp
    ultimately have "nat ((56 - int (length bytes)) mod 64) = Suc (nat ((55 - int (length bytes)) mod 64))"
      by linarith
    with 1 False show ?thesis by (subst pad_zeros.simps) (simp add: algebra_simps)
  qed
qed

lemma low_bytes: "js_ushr x 0 div 2 ^ k mod 256 = x div 2 ^ k mod 256" if "k \<le> 24"
proof -
  have "take_bit 8 (drop_bit k (take_bit 32 x)) = take_bit 8 (drop_bit k x)"
    using that by (auto intro!: bit_eqI simp: bit_simps)
  then show ?thesis
    by (simp add: js_ushr_def toUint32_def take_bit_eq_mod drop_bit_eq_div)
qed

lemma be_bytes_eq: "be_bytes x = map (\<lambda>k. x div 2 ^ k mod 256) [24, 16, 8, 0]"
  by (simp add: be_bytes_def js_and_255)

lemma length_bytes_eq:
  "be_bytes (x div 0x100000000) @ be_bytes (js_ushr x 0) =
   map (\<lambda>i. x div 2 ^ (8 * (7 - i)) mod 256) [0..<8]" for x :: int
proof -
  have high: "x div 0x100000000 div 2 ^ k = x div 2 ^ (32 + k)" for k :: nat
    by (simp add: power_add zdiv_zmult2_eq)
  have "[0..<8] = [0, 1, 2, 3, 4, 5, 6, 7 :: nat]" by (simp add: upt_rec)
  then show ?thesis
    by (simp only: be_bytes_eq list.map append.simps high low_bytes) simp
qed

lemma sha_padded_eq: "sha_padded bytes = fips_padded bytes"
  using length_bytes_eq [of "8 * int (length bytes)"]
  by (simp add: sha_padded_def fips_padded_def pad_zeros_eq Let_def mult.commute)

lemma wi_load_word:
  "start + 3 < length bytes \<Longrightarrow> wi (load_word bytes start) = fips_word bytes start"
  by (simp add: load_word_def fips_word_def word_of_js at_or_0_def or.assoc)

text \<open>Assigning the entries \<open>lo, \<dots>, hi - 1\<close> of an array one after the other.\<close>

lemma load_block_nth:
  assumes "length words = 64" and "offset + 64 \<le> length bytes"
  shows "length (load_block bytes offset words) = 64 \<and>
    (\<forall>t < 16. wi (load_block bytes offset words ! t) = fips_word bytes (offset + 4 * t))"
proof -
  let ?step = "\<lambda>ws index. ws[index := load_word bytes (offset + index * 4)]"
  have "n \<le> 16 \<Longrightarrow> length (foldl ?step words [0..<n]) = 64 \<and>
      (\<forall>t < n. foldl ?step words [0..<n] ! t = load_word bytes (offset + t * 4))" for n
    using assms(1) by (induction n) (auto simp: nth_list_update less_Suc_eq)
  then have "length (load_block bytes offset words) = 64 \<and>
      (\<forall>t < 16. load_block bytes offset words ! t = load_word bytes (offset + t * 4))"
    by (simp add: load_block_def)
  then show ?thesis
    using assms(2) by (auto simp: wi_load_word mult.commute)
qed

lemma extend_word_nth:
  assumes "length words = 64" and "16 \<le> i" and "i < 64"
    and "\<forall>t < i. wi (words ! t) = fips_W M t"
  shows "length (extend_word words i) = 64 \<and> (\<forall>t < Suc i. wi (extend_word words i ! t) = fips_W M t)"
  using assms
  by (auto simp: extend_word_def Let_def nth_list_update less_Suc_eq word_of_js at_or_0_def
      fips_W.simps [of M i] fips_sigma0_def fips_sigma1_def xor.assoc algebra_simps)

lemma extend_block_nth:
  assumes "length words = 64" and "\<forall>t < 16. wi (words ! t) = M t"
  shows "length (extend_block words) = 64 \<and> (\<forall>t < 64. wi (extend_block words ! t) = fips_W M t)"
proof -
  have "n \<le> 48 \<Longrightarrow> length (foldl extend_word words [16..<16 + n]) = 64 \<and>
      (\<forall>t < 16 + n. wi (foldl extend_word words [16..<16 + n] ! t) = fips_W M t)" for n
  proof (induction n)
    case 0
    with assms show ?case by (simp add: fips_W.simps)
  next
    case (Suc n)
    have "[16..<16 + Suc n] = [16..<16 + n] @ [16 + n]"
      by (simp only: add_Suc_right upt_Suc_append [OF le_add1])
    then have "foldl extend_word words [16..<16 + Suc n] =
        extend_word (foldl extend_word words [16..<16 + n]) (16 + n)" by (simp only: foldl_append foldl.simps)
    with Suc show ?case
      using extend_word_nth [of "foldl extend_word words [16..<16 + n]" "16 + n" M]
      by (simp only: add_Suc_right) simp
  qed
  from this [of 48] show ?thesis by (simp add: extend_block_def)
qed

fun wi_regs :: "int sha_regs \<Rightarrow> u32 sha_regs" where
  "wi_regs (a, b, c, d, e, f, g, h) = (wi a, wi b, wi c, wi d, wi e, wi f, wi g, wi h)"

lemma sha_regs_cases:
  obtains a b c d e f g h where "r = (a, b, c, d, e, f, g, h)"
  by (cases r) (metis surj_pair)

lemma wi_sha_round:
  assumes "length words = 64" and "i < 64" and "wi (words ! i) = W i"
  shows "wi_regs (sha_round words r i) = fips_round W (wi_regs r) i"
proof -
  obtain a b c d e f g h where "r = (a, b, c, d, e, f, g, h)" by (rule sha_regs_cases)
  then show ?thesis
    using assms by (simp add: Let_def word_of_js fips_Sigma0_def fips_Sigma1_def fips_Ch_def fips_Maj_def
        at_or_0_def length_constants sha_constant xor.assoc)
qed

lemma wi_sha_rounds:
  assumes "length words = 64" and "\<forall>t < 64. wi (words ! t) = W t"
  shows "wi_regs (foldl (sha_round words) r [0..<64]) = foldl (fips_round W) (wi_regs r) [0..<64]"
proof -
  have "n \<le> 64 \<Longrightarrow> wi_regs (foldl (sha_round words) r [0..<n]) = foldl (fips_round W) (wi_regs r) [0..<n]" for n
    using assms by (induction n) (simp_all add: wi_sha_round)
  then show ?thesis by simp
qed

lemma wi_add_regs:
  assumes "length hash = 8" and "wi_regs r = (a, b, c, d, e, f, g, h)"
  shows "map wi (add_regs hash r) = map2 (+) (map wi hash) [a, b, c, d, e, f, g, h]"
proof -
  obtain h0 h1 h2 h3 h4 h5 h6 h7 where "hash = [h0, h1, h2, h3, h4, h5, h6, h7]"
    using assms(1) by (auto simp: numeral_eq_Suc length_Suc_conv)
  with assms(2) show ?thesis by (cases r rule: sha_regs_cases) (auto simp: add_regs_def)
qed

lemma length_add_regs: "length hash = 8 \<Longrightarrow> length (add_regs hash r) = 8"
  by (cases r rule: sha_regs_cases) (simp add: add_regs_def)

lemma wi_regs_of: "length hash = 8 \<Longrightarrow> wi_regs (regs_of hash) = fips_regs (map wi hash)"
  by (simp add: regs_of_def fips_regs_def at_or_0_def)

lemma sha_block_fips:
  assumes "length words = 64" and "length hash = 8" and "64 * k + 64 \<le> length bytes"
  shows "case sha_block bytes (words, hash) (k * 64) of (words', hash') \<Rightarrow>
    length words' = 64 \<and> length hash' = 8 \<and>
    map wi hash' = fips_block (\<lambda>t. fips_word bytes (64 * k + 4 * t)) (map wi hash)"
proof -
  let ?M = "\<lambda>t. fips_word bytes (64 * k + 4 * t)"
  let ?words = "extend_block (load_block bytes (k * 64) words)"
  have words: "length ?words = 64 \<and> (\<forall>t < 64. wi (?words ! t) = fips_W ?M t)"
    using load_block_nth [OF assms(1), of "k * 64" bytes] assms(3)
    by (intro extend_block_nth) (simp_all add: mult.commute)
  let ?r = "foldl (sha_round ?words) (regs_of hash) [0..<64]"
  obtain a b c d e f g h where regs: "wi_regs ?r = (a, b, c, d, e, f, g, h)" by (rule sha_regs_cases)
  have "foldl (fips_round (fips_W ?M)) (fips_regs (map wi hash)) [0..<64] = (a, b, c, d, e, f, g, h)"
    using wi_sha_rounds [of ?words "fips_W ?M" "regs_of hash"] words regs
    by (simp add: wi_regs_of assms(2))
  then show ?thesis
    using words wi_add_regs [OF assms(2) regs] length_add_regs [OF assms(2)]
    by (simp add: sha_block_def fips_block_def Let_def)
qed

lemma sha256_words_fips: "map wi (sha256_words bytes) = fips_sha256 bytes"
proof -
  let ?p = "fips_padded bytes"
  let ?run = "\<lambda>n. foldl (sha_block ?p) (replicate 64 0, sha_initial) (map (\<lambda>k. k * 64) [0..<n])"
  let ?ref = "\<lambda>n. foldl (\<lambda>H k. fips_block (\<lambda>t. fips_word ?p (64 * k + 4 * t)) H) (map wi sha_initial) [0..<n]"
  have "64 * n \<le> length ?p \<Longrightarrow> length (fst (?run n)) = 64 \<and> length (snd (?run n)) = 8 \<and>
      map wi (snd (?run n)) = ?ref n" for n
  proof (induction n)
    case 0
    show ?case by (simp add: length_constants)
  next
    case (Suc n)
    then show ?case
      using sha_block_fips [of "fst (?run n)" "snd (?run n)" n ?p] by (simp split: prod.splits)
  qed
  from this [of "length ?p div 64"] show ?thesis
    by (simp add: sha256_words_def fips_sha256_def Let_def sha_padded_eq sha_initial_eq comp_def)
qed

lemma sha256Hex_fips:
  "sha256Hex s = concat (map (\<lambda>w. padStart 8 (CHR ''0'') (to_hex (uint w))) (fips_sha256 (utf8Bytes (codePoints s))))"
proof -
  have "js_ushr x 0 = uint (wi x)" for x
    by (simp add: js_ushr_def toUint32_def uint_word_of_int_eq)
  then show ?thesis
    by (simp add: sha256Hex_def sha256_words_fips [symmetric] comp_def)
qed

section \<open>The hexadecimal text of a digest\<close>

lemma hex_char_digit: "0 \<le> d \<Longrightarrow> d < 16 \<Longrightarrow> hex_digit (hex_char d)"
  unfolding hex_char_def hex_digit_def by (rule nth_mem) simp

lemma to_hex_digits: "0 \<le> n \<Longrightarrow> list_all hex_digit (to_hex n)"
proof (induction n rule: to_hex.induct)
  case (1 n)
  show ?case
  proof (cases "n < 16")
    case True
    with "1.prems" show ?thesis
      by (subst to_hex.simps) (simp add: hex_char_digit)
  next
    case False
    with 1 have "list_all hex_digit (to_hex (n div 16))" by simp
    with False show ?thesis
      by (subst to_hex.simps) (simp add: hex_char_digit)
  qed
qed

lemma length_to_hex: "0 \<le> n \<Longrightarrow> n < 16 ^ Suc k \<Longrightarrow> length (to_hex n) \<le> Suc k"
proof (induction k arbitrary: n)
  case 0
  then show ?case by (subst to_hex.simps) simp
next
  case (Suc k)
  show ?case
  proof (cases "n < 16")
    case True
    then show ?thesis by (subst to_hex.simps) simp
  next
    case False
    have "n div 16 < 16 ^ Suc k"
      using Suc.prems by simp
    with Suc False show ?thesis by (subst to_hex.simps) simp
  qed
qed

lemma length_padStart: "length s \<le> n \<Longrightarrow> length (padStart n c s) = n"
  by (simp add: padStart_def)

lemma length_fips_block: "length H = 8 \<Longrightarrow> length (fips_block M H) = 8"
  unfolding fips_block_def
  by (cases "foldl (fips_round (fips_W M)) (fips_regs H) [0..<64]" rule: sha_regs_cases) simp

lemma length_fips_blocks: "length H = 8 \<Longrightarrow> length (foldl (\<lambda>H k. fips_block (M k) H) H ks) = 8"
  by (induction ks arbitrary: H) (simp_all add: length_fips_block)

lemma length_fips_sha256: "length (fips_sha256 bytes) = 8"
  unfolding fips_sha256_def by (rule length_fips_blocks) (simp add: first_primes_eq)

lemma sha256Hex_shape: "length (sha256Hex s) = 64 \<and> list_all hex_digit (sha256Hex s)"
proof -
  let ?text = "\<lambda>w :: u32. padStart 8 (CHR ''0'') (to_hex (uint w))"
  have zero: "hex_digit (CHR ''0'')" by (simp add: hex_digit_def)
  have word: "length (?text w) = 8 \<and> list_all hex_digit (?text w)" for w
  proof -
    have "uint w < 16 ^ Suc 7" using uint_lt2p [of w] by simp
    then have "length (to_hex (uint w)) \<le> 8" using length_to_hex [of "uint w" 7] by simp
    moreover have "list_all hex_digit (replicate k (CHR ''0''))" for k
      using zero by (induction k) simp_all
    ultimately show ?thesis
      using to_hex_digits [of "uint w"] by (simp add: length_padStart) (simp add: padStart_def)
  qed
  have "length (concat (map ?text ws)) = 8 * length ws \<and> list_all hex_digit (concat (map ?text ws))" for ws
    using word by (induction ws) simp_all
  then show ?thesis
    unfolding sha256Hex_fips by (simp add: length_fips_sha256)
qed

text \<open>Padding the digits of a number gives its digits at every place.\<close>

lemma padStart_to_hex:
  "0 \<le> n \<Longrightarrow> n < 16 ^ Suc k \<Longrightarrow>
   padStart (Suc k) (CHR ''0'') (to_hex n) = map (\<lambda>i. hex_char (n div 16 ^ (k - i) mod 16)) [0..<Suc k]"
proof (induction k arbitrary: n)
  case 0
  then show ?case by (subst to_hex.simps) (simp add: padStart_def)
next
  case (Suc k)
  have step: "padStart (Suc (Suc k)) (CHR ''0'') (to_hex n) = padStart (Suc k) (CHR ''0'') (to_hex (n div 16)) @ [hex_char (n mod 16)]"
  proof (cases "n < 16")
    case True
    moreover have "to_hex 0 = ''0''" by (subst to_hex.simps) (simp add: hex_char_def)
    ultimately show ?thesis
      using Suc.prems(1) by (subst to_hex.simps) (simp add: padStart_def replicate_append_same)
  qed (simp add: to_hex.simps [of n] padStart_def)
  have "n div 16 < 16 ^ Suc k" using Suc.prems by simp
  then have "padStart (Suc k) (CHR ''0'') (to_hex (n div 16)) = map (\<lambda>i. hex_char (n div 16 div 16 ^ (k - i) mod 16)) [0..<Suc k]"
    using Suc.prems(1) by (intro Suc.IH) simp_all
  also have "\<dots> = map (\<lambda>i. hex_char (n div 16 ^ (Suc k - i) mod 16)) [0..<Suc k]"
    by (rule map_cong) (auto simp: Suc_diff_le zdiv_zmult2_eq)
  finally show ?case unfolding step by simp
qed

lemma hex_word_eq: "padStart 8 (CHR ''0'') (to_hex (uint w)) = hex_word w" for w :: u32
proof -
  have "uint w < 16 ^ Suc 7" using uint_lt2p [of w] by simp
  then show ?thesis using padStart_to_hex [of "uint w" 7] by (simp add: hex_word_def hex_char_def)
qed

lemma utf8Bytes_rfc3629: "utf8Bytes (codePoints s) = concat (map rfc3629 (codePoints s))"
proof -
  have "utf8_char c = rfc3629 c" if "code_point c" for c
  proof -
    have "0 \<le> c" "c < 0x200000" using that by (simp_all add: code_point_def)
    from utf8_char_arith [OF this] show ?thesis by (simp add: rfc3629_def)
  qed
  then show ?thesis
    using code_point_of_string [of s] unfolding utf8Bytes_def by (simp add: list_all_iff cong: map_cong)
qed

section \<open>Properties\<close>

text \<open>
  C15: the digest routine computes SHA-256 as FIPS 180-4 defines it, with the constants of the standard
  (the fractional parts of the square and cube roots of the first primes), on the UTF-8 bytes of the
  text as RFC 3629 lays them out, and prints the eight words of the digest as 64 lower-case hexadecimal
  digits.
\<close>

theorem sha256Hex_is_sha256:
  "sha256Hex s = concat (map hex_word (fips_sha256 (concat (map rfc3629 (codePoints s))))) \<and>
   length (sha256Hex s) = 64 \<and> list_all hex_digit (sha256Hex s)"
proof -
  have "sha256Hex s = concat (map hex_word (fips_sha256 (concat (map rfc3629 (codePoints s)))))"
    unfolding sha256Hex_fips utf8Bytes_rfc3629 hex_word_eq ..
  with sha256Hex_shape show ?thesis by blast
qed

end
