(* ===== verification/Deployment_Serialization.thy ===== *)
theory Deployment_Serialization
  imports Deployment_Wellformed Canonical_Json Sha256 "HOL-Library.Product_Lexorder"
begin

text \<open>
  The canonical form of a deployment graph, \<^verbatim>\<open>packages/deployment-contract/src/serialization.ts\<close>:
  \<open>normalizeApplicationDeploymentGraph\<close>, \<open>serializeApplicationDeploymentGraph\<close> and the
  digests. A typed value of \<open>Deployment_Types\<close> becomes the JavaScript object it stands for
  (\<open>json_of_\<dots>\<close>, an absent optional property has no member), and the source's functions work on
  that object.
\<close>

section \<open>Typed values as objects\<close>

definition opt_member :: "string \<Rightarrow> ('a \<Rightarrow> jsval) \<Rightarrow> 'a option \<Rightarrow> jsobject" where
  "opt_member k f v = (case v of None \<Rightarrow> [] | Some x \<Rightarrow> [(k, f x)])"

definition json_of_source :: "ApplicationDeploymentSource \<Rightarrow> jsval" where
  "json_of_source s = JObject
     (opt_member ''semanticNodeId'' JString (src_semanticNodeId s) @
      opt_member ''artifactPath'' JString (src_artifactPath s) @
      opt_member ''file'' JString (src_file s) @
      opt_member ''line'' JNumber (src_line s) @
      opt_member ''column'' JNumber (src_column s))"

definition json_of_provider :: "ApplicationDeploymentProviderIdentity \<Rightarrow> jsval" where
  "json_of_provider p = JObject
     [(''interface'', JString (prov_interface p)), (''implementation'', JString (prov_implementation p)),
      (''version'', JString (prov_version p))]"

definition json_of_scope :: "ApplicationDeploymentNodeScope \<Rightarrow> jsval" where
  "json_of_scope s = JObject
     ((''connectionDigest'', JString (scope_connectionDigest s)) #
      opt_member ''namespace'' JString (scope_namespace s))"

definition json_of_capabilities :: "ApplicationDeploymentNodeCapabilities \<Rightarrow> jsval" where
  "json_of_capabilities c = JObject
     [(''strategies'', JArray (map (JString \<circ> strategy_literal) (cap_strategies c))),
      (''alchemy'', JBool (cap_alchemy c))]"

fun json_of_input :: "ApplicationDeploymentInput \<Rightarrow> jsval" where
  "json_of_input (LiteralInput v) = JObject [(''kind'', JString ''literal''), (''value'', v)]"
| "json_of_input (OutputInput nid out sens pers) = JObject
     [(''kind'', JString ''output''), (''nodeId'', JString nid), (''output'', JString out),
      (''sensitivity'', JString (sensitivity_literal sens)),
      (''persistence'', JString (persistence_literal pers))]"
| "json_of_input (SecretReferenceInput nid ky) = JObject
     ([(''kind'', JString ''secretReference''), (''nodeId'', JString nid)] @ opt_member ''key'' JString ky)"

definition json_of_output :: "ApplicationDeploymentOutput \<Rightarrow> jsval" where
  "json_of_output out = JObject
     [(''name'', JString (out_name out)), (''type'', JString (output_type_literal (out_type out))),
      (''sensitivity'', JString (sensitivity_literal (out_sensitivity out))),
      (''persistence'', JString (persistence_literal (out_persistence out)))]"

definition json_of_lifecycle :: "ApplicationDeploymentLifecycle \<Rightarrow> jsval" where
  "json_of_lifecycle lc = JObject
     ([(''ownership'', JString (ownership_literal (life_ownership lc))),
       (''deletion'', JString (deletion_literal (life_deletion lc))),
       (''adoption'', JString (adoption_literal (life_adoption lc)))] @
      opt_member ''namespaceNodeId'' JString (life_namespaceNodeId lc))"

definition json_of_node :: "ApplicationDeploymentNode \<Rightarrow> jsval" where
  "json_of_node n = JObject
     [(''id'', JString (node_id n)), (''kind'', JString (kind_literal (node_kind n))),
      (''contractVersion'', JNumber (node_contractVersion n)),
      (''source'', json_of_source (node_source n)), (''provider'', json_of_provider (node_provider n)),
      (''scope'', json_of_scope (node_scope n)),
      (''capabilities'', json_of_capabilities (node_capabilities n)),
      (''configurationDigest'', JString (node_configurationDigest n)),
      (''inputs'', JObject (map (apsnd json_of_input) (node_inputs n))),
      (''outputs'', JArray (map json_of_output (node_outputs n))),
      (''lifecycle'', json_of_lifecycle (node_lifecycle n)), (''spec'', JObject (node_spec n))]"

definition json_of_edge :: "ApplicationDeploymentEdge \<Rightarrow> jsval" where
  "json_of_edge e = JObject
     ([(''from'', JString (edge_from e)), (''to'', JString (edge_to e)),
       (''relationship'', JString (edge_kind_literal (edge_relationship e)))] @
      opt_member ''output'' JString (edge_output e))"

definition json_of_identity :: "ApplicationDeploymentIdentity \<Rightarrow> jsval" where
  "json_of_identity i = JObject
     [(''connection'', JObject
         [(''provider'', JString (conn_provider (id_connection i))),
          (''cluster'', JString (conn_cluster (id_connection i))),
          (''digest'', JString (conn_digest (id_connection i)))]),
      (''application'', JString (id_application i)),
      (''controlPlaneNamespace'', JString (id_controlPlaneNamespace i)),
      (''instance'', JString (id_instance i)), (''profile'', JString (id_profile i))]"

definition json_of_metadata :: "ApplicationDeploymentGraphMetadata \<Rightarrow> jsval" where
  "json_of_metadata m = JObject
     ([(''identity'', json_of_identity (meta_identity m)), (''mode'', JString ''fresh''),
       (''strategy'', JString (strategy_literal (meta_strategy m))),
       (''sourceGraphDigest'', JString (meta_sourceGraphDigest m)),
       (''compilerVersion'', JString (meta_compilerVersion m))] @
      opt_member ''profileTransition'' JObject (meta_profileTransition m))"

definition json_of_graph :: "ApplicationDeploymentGraph \<Rightarrow> jsval" where
  "json_of_graph g = JObject
     [(''apiVersion'', JString (graph_apiVersion g)), (''kind'', JString (graph_kind g)),
      (''metadata'', json_of_metadata (graph_metadata g)),
      (''nodes'', JArray (map json_of_node (graph_nodes g))),
      (''edges'', JArray (map json_of_edge (graph_edges g)))]"

section \<open>Normalization, serialization, digests\<close>

definition compareStrategies :: "ApplicationDeploymentStrategy \<Rightarrow> ApplicationDeploymentStrategy \<Rightarrow> int" where
  "compareStrategies left right = compareStrings (strategy_literal left) (strategy_literal right)"

definition compareOutputs :: "ApplicationDeploymentOutput \<Rightarrow> ApplicationDeploymentOutput \<Rightarrow> int" where
  "compareOutputs left right = compareStrings (out_name left) (out_name right)"

definition sort_node :: "ApplicationDeploymentNode \<Rightarrow> ApplicationDeploymentNode" where
  "sort_node node = node\<lparr>
     node_capabilities := (node_capabilities node)
       \<lparr>cap_strategies := js_sort compareStrategies (cap_strategies (node_capabilities node))\<rparr>,
     node_outputs := js_sort compareOutputs (node_outputs node)\<rparr>"

definition normalizeNode :: "ApplicationDeploymentNode \<Rightarrow> jsval" where
  "normalizeNode node = normalizeJson (json_of_node (sort_node node))"

definition normalizeEdge :: "ApplicationDeploymentEdge \<Rightarrow> jsval" where
  "normalizeEdge edge = normalizeJson (json_of_edge edge)"

text \<open>The string \<open>v.k\<close>, or \<open>''\<close> where the member is absent (\<open>left.output ?? ""\<close>).\<close>

definition str_member :: "jsval \<Rightarrow> string \<Rightarrow> string" where
  "str_member v k = (case v of
       JObject ob \<Rightarrow> (case obj_get ob k of JString s \<Rightarrow> s | _ \<Rightarrow> [])
     | _ \<Rightarrow> [])"

definition compareNodes :: "jsval \<Rightarrow> jsval \<Rightarrow> int" where
  "compareNodes left right =
     cmp_or (compareStrings (str_member left ''id'') (str_member right ''id''))
            (compareStrings (str_member left ''kind'') (str_member right ''kind''))"

definition compareEdges :: "jsval \<Rightarrow> jsval \<Rightarrow> int" where
  "compareEdges left right =
     cmp_or (compareStrings (str_member left ''from'') (str_member right ''from''))
    (cmp_or (compareStrings (str_member left ''relationship'') (str_member right ''relationship''))
    (cmp_or (compareStrings (str_member left ''to'') (str_member right ''to''))
            (compareStrings (str_member left ''output'') (str_member right ''output''))))"

definition normalizeApplicationDeploymentGraph :: "ApplicationDeploymentGraph \<Rightarrow> jsval" where
  "normalizeApplicationDeploymentGraph graph = JObject
     [(''apiVersion'', JString (graph_apiVersion graph)), (''kind'', JString (graph_kind graph)),
      (''metadata'', normalizeJson (json_of_metadata (graph_metadata graph))),
      (''nodes'', JArray (js_sort compareNodes (map normalizeNode (graph_nodes graph)))),
      (''edges'', JArray (js_sort compareEdges (map normalizeEdge (graph_edges graph))))]"

definition serializeApplicationDeploymentGraph ::
  "(js_number \<Rightarrow> string) \<Rightarrow> ApplicationDeploymentGraph \<Rightarrow> string" where
  "serializeApplicationDeploymentGraph fmt graph =
     stableJsonStringify fmt (normalizeApplicationDeploymentGraph graph) @ [CHR 10]"

definition digestApplicationDeploymentGraph ::
  "(js_number \<Rightarrow> string) \<Rightarrow> ApplicationDeploymentGraph \<Rightarrow> string" where
  "digestApplicationDeploymentGraph fmt graph =
     ''sha256:'' @ sha256Hex (serializeApplicationDeploymentGraph fmt graph)"

definition digestApplicationDeploymentValue :: "(js_number \<Rightarrow> string) \<Rightarrow> jsval \<Rightarrow> string" where
  "digestApplicationDeploymentValue fmt v =
     ''sha256:'' @ sha256Hex (stableJsonStringify fmt (normalizeJson v))"

section \<open>The comparators\<close>

lemma cmp_or_le:
  "cmp_or (compareStrings a b) c \<le> 0 \<longleftrightarrow> a < b \<or> a \<le> b \<and> c \<le> 0"
  by (auto simp: cmp_or_def compareStrings_def)

interpretation by_strategy: comparator compareStrategies strategy_literal
  by unfold_locales (auto simp: compareStrategies_def compareStrings_def)

interpretation by_output: comparator compareOutputs out_name
  by unfold_locales (auto simp: compareOutputs_def compareStrings_def)

interpretation by_node: comparator compareNodes "\<lambda>v. (str_member v ''id'', str_member v ''kind'')"
  by unfold_locales (simp add: compareNodes_def cmp_or_le less_eq_prod_def strings.cmp_le)

interpretation by_edge: comparator compareEdges
  "\<lambda>v. (str_member v ''from'', str_member v ''relationship'', str_member v ''to'', str_member v ''output'')"
  by unfold_locales (simp add: compareEdges_def cmp_or_le less_eq_prod_def strings.cmp_le)

section \<open>Reading members of a normal form\<close>

lemma map_of_sorted_entries:
  assumes "distinct (map fst ob)"
  shows "map_of (sorted_entries ob) = map_of ob"
  using assms distinct_sorted_entries [of ob] by (subst map_of_inject_set) (simp_all add: sorted_entries_def)

lemma obj_get_normalize:
  assumes "plain_json P (JObject ob)"
  shows "obj_get (map (apsnd normalizeJson) (sorted_entries ob)) k = normalizeJson (obj_get ob k)"
proof -
  have "map_of (map (apsnd normalizeJson) (sorted_entries ob)) k = map_option normalizeJson (map_of ob k)"
    using map_of_sorted_entries [of ob] assms map_of_map [of normalizeJson "sorted_entries ob"]
    by (simp add: apsnd_def map_prod_def split_def)
  then show ?thesis by (simp add: obj_get_def split: option.split)
qed

lemma str_member_normalize:
  assumes "plain_json P (JObject ob)"
  shows "str_member (normalizeJson (JObject ob)) k = str_member (JObject ob) k"
proof -
  have "normalizeJson v = JString s \<longleftrightarrow> v = JString s" for v s
    by (cases v) (simp_all add: normalizeJson.simps(2))
  then show ?thesis
    by (simp add: str_member_def normalizeJson_plain_object [OF assms] obj_get_normalize [OF assms]
        split: jsval.split)
qed

lemma str_member_node:
  assumes "plain_json P (json_of_node (sort_node n))"
  shows "str_member (normalizeNode n) ''id'' = node_id n"
    and "str_member (normalizeNode n) ''kind'' = kind_literal (node_kind n)"
  using str_member_normalize [OF assms [unfolded json_of_node_def]]
  by (simp_all add: normalizeNode_def json_of_node_def str_member_def sort_node_def)

definition edge_tuple :: "ApplicationDeploymentEdge \<Rightarrow> string \<times> string \<times> string \<times> string" where
  "edge_tuple e = (edge_from e, edge_kind_literal (edge_relationship e), edge_to e,
     case edge_output e of None \<Rightarrow> [] | Some out \<Rightarrow> out)"

lemma plain_json_edge [simp]: "plain_json P (json_of_edge e)"
  by (simp add: json_of_edge_def opt_member_def split: option.split)

lemma str_member_edge:
  "(str_member (normalizeEdge e) ''from'', str_member (normalizeEdge e) ''relationship'',
    str_member (normalizeEdge e) ''to'', str_member (normalizeEdge e) ''output'') = edge_tuple e"
  using str_member_normalize [OF plain_json_edge [of "\<lambda>_. True" e, unfolded json_of_edge_def]]
  by (simp add: normalizeEdge_def json_of_edge_def str_member_def edge_tuple_def opt_member_def
      split: option.split)

lemma edge_key_tuple: "distinct (map edge_key es) \<Longrightarrow> distinct (map edge_tuple es)"
proof -
  assume "distinct (map edge_key es)"
  moreover have "edge_key e = (case edge_tuple e of (f, r, t, out) \<Rightarrow> f @ [CHR 0x00] @ r @ [CHR 0x00] @ t @ [CHR 0x00] @ out)" for e
    by (simp add: edge_key_def edge_tuple_def)
  ultimately show ?thesis by (auto simp: distinct_map inj_on_def)
qed

section \<open>Graphs that differ in order only\<close>

text \<open>
  Two nodes are the same up to order: they agree on every field, the strategies and the outputs up
  to permutation, and the inputs and the specification up to the order of object members. Two graphs
  are the same up to order when their nodes are, up to permutation, and their edges are permuted.
\<close>

definition same_node :: "ApplicationDeploymentNode \<Rightarrow> ApplicationDeploymentNode \<Rightarrow> bool" where
  "same_node n m =
     (n\<lparr>node_capabilities := node_capabilities m, node_inputs := node_inputs m,
        node_outputs := node_outputs m, node_spec := node_spec m\<rparr> = m \<and>
      cap_alchemy (node_capabilities n) = cap_alchemy (node_capabilities m) \<and>
      mset (cap_strategies (node_capabilities n)) = mset (cap_strategies (node_capabilities m)) \<and>
      mset (node_outputs n) = mset (node_outputs m) \<and>
      same_json (JObject (map (apsnd json_of_input) (node_inputs n)))
                (JObject (map (apsnd json_of_input) (node_inputs m))) \<and>
      same_json (JObject (node_spec n)) (JObject (node_spec m)))"

definition same_graph :: "ApplicationDeploymentGraph \<Rightarrow> ApplicationDeploymentGraph \<Rightarrow> bool" where
  "same_graph g h =
     (graph_apiVersion g = graph_apiVersion h \<and> graph_kind g = graph_kind h \<and>
      same_json (json_of_metadata (graph_metadata g)) (json_of_metadata (graph_metadata h)) \<and>
      (\<exists>ns. mset ns = mset (graph_nodes h) \<and> list_all2 same_node (graph_nodes g) ns) \<and>
      mset (graph_edges g) = mset (graph_edges h))"

lemma same_json_refl: "plain_json P v \<Longrightarrow> same_json v v"
  using normalize_same_json [of v v P] by simp

lemma same_members:
  assumes "list_all2 (\<lambda>p q. fst p = fst q \<and> same_json (snd p) (snd q)) xs ys"
    and "distinct (map fst xs)"
  shows "same_json (JObject xs) (JObject ys)"
proof (rule same_object)
  have keys: "map fst xs = map fst ys"
    using assms(1) by (induction rule: list_all2_induct) simp_all
  then show "fst ` set xs = fst ` set ys" by (metis set_map)
  fix k v w assume v: "(k, v) \<in> set xs" and w: "(k, w) \<in> set ys"
  obtain i where i: "i < length xs" "xs ! i = (k, v)" using v by (auto simp: in_set_conv_nth)
  obtain j where j: "j < length ys" "ys ! j = (k, w)" using w by (auto simp: in_set_conv_nth)
  have len: "length xs = length ys" using assms(1) by (rule list_all2_lengthD)
  have "map fst xs ! i = k" using i by simp
  moreover have "map fst xs ! j = k" unfolding keys using j by simp
  ultimately have "i = j"
    using nth_eq_iff_index_eq [OF assms(2), of i j] i(1) j(1) len by simp
  then show "same_json v w"
    using list_all2_nthD [OF assms(1), of i] i j by simp
qed

lemma plain_sort_node [simp]: "plain_json P (json_of_node (sort_node n)) = plain_json P (json_of_node n)"
  by (simp add: json_of_node_def sort_node_def json_of_capabilities_def)

lemma plain_node_parts:
  assumes "plain_json P (json_of_node n)"
  shows "plain_json P (JNumber (node_contractVersion n))" "plain_json P (json_of_source (node_source n))"
    "plain_json P (json_of_provider (node_provider n))" "plain_json P (json_of_scope (node_scope n))"
    "plain_json P (json_of_capabilities (node_capabilities n))"
    "plain_json P (JObject (map (apsnd json_of_input) (node_inputs n)))"
    "plain_json P (JArray (map json_of_output (node_outputs n)))"
    "plain_json P (json_of_lifecycle (node_lifecycle n))" "plain_json P (JObject (node_spec n))"
  using assms by (simp_all add: json_of_node_def)

lemma same_node_fields:
  assumes "same_node n m"
  shows "node_id n = node_id m" "node_kind n = node_kind m" "node_contractVersion n = node_contractVersion m"
    "node_source n = node_source m" "node_provider n = node_provider m" "node_scope n = node_scope m"
    "node_configurationDigest n = node_configurationDigest m" "node_lifecycle n = node_lifecycle m"
proof -
  have eq: "n\<lparr>node_capabilities := node_capabilities m, node_inputs := node_inputs m,
        node_outputs := node_outputs m, node_spec := node_spec m\<rparr> = m"
    using assms by (simp add: same_node_def)
  show "node_id n = node_id m" "node_kind n = node_kind m" "node_contractVersion n = node_contractVersion m"
    "node_source n = node_source m" "node_provider n = node_provider m" "node_scope n = node_scope m"
    "node_configurationDigest n = node_configurationDigest m" "node_lifecycle n = node_lifecycle m"
    by (subst eq [symmetric], simp)+
qed

lemma sort_capabilities_eq:
  assumes "same_node n m"
  shows "node_capabilities (sort_node n) = node_capabilities (sort_node m)"
proof -
  have "js_sort compareStrategies (cap_strategies (node_capabilities n)) =
      js_sort compareStrategies (cap_strategies (node_capabilities m))"
    using assms by (intro by_strategy.js_sort_perm_inj) (simp_all add: same_node_def inj_on_def)
  then show ?thesis
    using assms by (simp add: sort_node_def same_node_def)
qed

lemma sort_outputs_eq:
  assumes "same_node n m" and "distinct (map out_name (node_outputs n))"
  shows "node_outputs (sort_node n) = node_outputs (sort_node m)"
  using assms by_output.js_sort_perm [of "node_outputs n" "node_outputs m"]
  by (simp add: sort_node_def same_node_def)

lemma sort_node_fields [simp]:
  "node_id (sort_node n) = node_id n" "node_kind (sort_node n) = node_kind n"
  "node_contractVersion (sort_node n) = node_contractVersion n" "node_source (sort_node n) = node_source n"
  "node_provider (sort_node n) = node_provider n" "node_scope (sort_node n) = node_scope n"
  "node_configurationDigest (sort_node n) = node_configurationDigest n"
  "node_inputs (sort_node n) = node_inputs n" "node_lifecycle (sort_node n) = node_lifecycle n"
  "node_spec (sort_node n) = node_spec n"
  by (simp_all add: sort_node_def)

lemma normalizeNode_same:
  assumes "same_node n m" and "distinct (map out_name (node_outputs n))"
    and "plain_json P (json_of_node n)" and "plain_json P (json_of_node m)"
  shows "normalizeNode n = normalizeNode m"
proof -
  let ?n = "sort_node n" and ?m = "sort_node m"
  have plain: "plain_json P (json_of_node ?n)" "plain_json P (json_of_node ?m)" using assms(3,4) by simp_all
  note parts = plain_node_parts [OF plain(1), THEN same_json_refl]
  have atoms: "same_json (JString s) (JString s)" for s by (rule same_atom) simp_all
  have "same_json (json_of_node ?n) (json_of_node ?m)"
    unfolding json_of_node_def
  proof (rule same_members)
    show "list_all2 (\<lambda>p q. fst p = fst q \<and> same_json (snd p) (snd q))
      [(''id'', JString (node_id ?n)), (''kind'', JString (kind_literal (node_kind ?n))),
       (''contractVersion'', JNumber (node_contractVersion ?n)),
       (''source'', json_of_source (node_source ?n)), (''provider'', json_of_provider (node_provider ?n)),
       (''scope'', json_of_scope (node_scope ?n)),
       (''capabilities'', json_of_capabilities (node_capabilities ?n)),
       (''configurationDigest'', JString (node_configurationDigest ?n)),
       (''inputs'', JObject (map (apsnd json_of_input) (node_inputs ?n))),
       (''outputs'', JArray (map json_of_output (node_outputs ?n))),
       (''lifecycle'', json_of_lifecycle (node_lifecycle ?n)), (''spec'', JObject (node_spec ?n))]
      [(''id'', JString (node_id ?m)), (''kind'', JString (kind_literal (node_kind ?m))),
       (''contractVersion'', JNumber (node_contractVersion ?m)),
       (''source'', json_of_source (node_source ?m)), (''provider'', json_of_provider (node_provider ?m)),
       (''scope'', json_of_scope (node_scope ?m)),
       (''capabilities'', json_of_capabilities (node_capabilities ?m)),
       (''configurationDigest'', JString (node_configurationDigest ?m)),
       (''inputs'', JObject (map (apsnd json_of_input) (node_inputs ?m))),
       (''outputs'', JArray (map json_of_output (node_outputs ?m))),
       (''lifecycle'', json_of_lifecycle (node_lifecycle ?m)), (''spec'', JObject (node_spec ?m))]"
      using parts atoms sort_capabilities_eq [OF assms(1)] sort_outputs_eq [OF assms(1,2)]
        same_node_fields [OF assms(1)] assms(1)
      by (simp add: same_node_def)
  qed simp
  then show ?thesis
    unfolding normalizeNode_def using plain by (rule same_json_normalize)
qed

lemma normalizeGraph_same:
  assumes ok: "graph_ok g" and same: "same_graph g h"
    and plain: "plain_json P (json_of_graph g)" "plain_json P (json_of_graph h)"
  shows "normalizeApplicationDeploymentGraph g = normalizeApplicationDeploymentGraph h"
proof -
  have nodes_plain: "n \<in> set (graph_nodes g) \<union> set (graph_nodes h) \<Longrightarrow> plain_json P (json_of_node n)" for n
    using plain by (auto simp: json_of_graph_def)
  have meta: "plain_json P (json_of_metadata (graph_metadata g))" "plain_json P (json_of_metadata (graph_metadata h))"
    using plain by (auto simp: json_of_graph_def)
  obtain ns where ns: "mset ns = mset (graph_nodes h)" "list_all2 same_node (graph_nodes g) ns"
    using same by (auto simp: same_graph_def)
  have outs: "n \<in> set (graph_nodes g) \<Longrightarrow> distinct (map out_name (node_outputs n))" for n
    using graph_okD(1) [OF ok] by (simp add: node_ok_def outputs_ok_def)
  have "map normalizeNode (graph_nodes g) = map normalizeNode ns"
  proof (rule nth_equalityI)
    show len: "length (map normalizeNode (graph_nodes g)) = length (map normalizeNode ns)"
      using list_all2_lengthD [OF ns(2)] by simp
    fix i assume i: "i < length (map normalizeNode (graph_nodes g))"
    have "set ns = set (graph_nodes h)" using ns(1) by (rule mset_eq_setD)
    with i len have "ns ! i \<in> set (graph_nodes h)" by (auto simp: set_conv_nth)
    with i len show "map normalizeNode (graph_nodes g) ! i = map normalizeNode ns ! i"
      using normalizeNode_same [of "graph_nodes g ! i" "ns ! i" P] list_all2_nthD [OF ns(2), of i] outs nodes_plain
      by simp
  qed
  then have "mset (map normalizeNode (graph_nodes g)) = mset (map normalizeNode (graph_nodes h))"
    using ns(1) by (simp flip: mset_map) (metis mset_map)
  then have nodes: "js_sort compareNodes (map normalizeNode (graph_nodes g)) =
      js_sort compareNodes (map normalizeNode (graph_nodes h))"
  proof (rule by_node.js_sort_perm)
    have "map (\<lambda>v. str_member v ''id'') (map normalizeNode (graph_nodes g)) = map node_id (graph_nodes g)"
      using nodes_plain str_member_node(1) [of P] by simp
    then have "distinct (map (\<lambda>v. str_member v ''id'') (map normalizeNode (graph_nodes g)))"
      using ok by (simp only: graph_ok_def)
    then show "distinct (map (\<lambda>v. (str_member v ''id'', str_member v ''kind'')) (map normalizeNode (graph_nodes g)))"
      by (auto simp: distinct_map inj_on_def)
  qed
  have edges: "js_sort compareEdges (map normalizeEdge (graph_edges g)) =
      js_sort compareEdges (map normalizeEdge (graph_edges h))"
  proof (rule by_edge.js_sort_perm)
    show "mset (map normalizeEdge (graph_edges g)) = mset (map normalizeEdge (graph_edges h))"
      using same by (simp add: same_graph_def)
    have "distinct (map edge_tuple (graph_edges g))"
      using ok edge_key_tuple by (simp add: graph_ok_def)
    then show "distinct (map (\<lambda>v. (str_member v ''from'', str_member v ''relationship'', str_member v ''to'',
        str_member v ''output'')) (map normalizeEdge (graph_edges g)))"
      by (simp add: comp_def str_member_edge)
  qed
  show ?thesis
    using same same_json_normalize [OF _ meta] nodes edges
    by (simp add: normalizeApplicationDeploymentGraph_def same_graph_def)
qed

section \<open>Properties\<close>

text \<open>The example graph with its nodes in the opposite order.\<close>

definition reordered_graph :: ApplicationDeploymentGraph where
  "reordered_graph = example_graph\<lparr>graph_nodes := rev (graph_nodes example_graph)\<rparr>"

lemma example_graph_plain: "plain_json isSafeInteger (json_of_graph example_graph)"
  by code_simp

lemma reordered_graph_plain: "plain_json isSafeInteger (json_of_graph reordered_graph)"
  using example_graph_plain by (simp add: reordered_graph_def json_of_graph_def)

lemma same_node_refl:
  assumes "plain_json P (json_of_node n)"
  shows "same_node n n"
  using plain_node_parts(6,9) [OF assms, THEN same_json_refl] by (simp add: same_node_def)

lemma reordered_graph_same: "same_graph example_graph reordered_graph"
proof -
  have "list_all2 same_node (graph_nodes example_graph) (graph_nodes example_graph)"
    using example_graph_plain same_node_refl by (auto simp: list_all2_same json_of_graph_def)
  moreover have "same_json (json_of_metadata (graph_metadata example_graph)) (json_of_metadata (graph_metadata example_graph))"
    using example_graph_plain by (intro same_json_refl [of isSafeInteger]) (simp add: json_of_graph_def)
  ultimately show ?thesis
    by (auto simp: same_graph_def reordered_graph_def intro!: exI [of _ "graph_nodes example_graph"])
qed

text \<open>
  C12: the canonical form, the serialization and the digest of a valid graph do not depend on the
  order of its nodes, edges, outputs, strategies, inputs or JSON object members.
\<close>

theorem digest_order_independent:
  assumes "result_valid (validateApplicationDeploymentGraph g)" and "same_graph g h"
    and "plain_json P (json_of_graph g)" and "plain_json P (json_of_graph h)"
  shows "normalizeApplicationDeploymentGraph g = normalizeApplicationDeploymentGraph h \<and>
    serializeApplicationDeploymentGraph fmt g = serializeApplicationDeploymentGraph fmt h \<and>
    digestApplicationDeploymentGraph fmt g = digestApplicationDeploymentGraph fmt h"
  using normalizeGraph_same [OF _ assms(2-4)] assms(1)
  by (simp add: valid_iff_graph_ok serializeApplicationDeploymentGraph_def digestApplicationDeploymentGraph_def)

theorem digest_order_independent_witness:
  "digestApplicationDeploymentGraph example_fmt example_graph =
   digestApplicationDeploymentGraph example_fmt reordered_graph"
  using digest_order_independent [OF example_graph_valid reordered_graph_same example_graph_plain reordered_graph_plain]
  by blast

text \<open>
  Every digest of a graph or of a value has the form that the validator demands of digests.
\<close>

theorem digests_match_pattern:
  "sha256Pattern (digestApplicationDeploymentGraph fmt g) \<and>
   sha256Pattern (digestApplicationDeploymentValue fmt v)"
  by (simp add: sha256Pattern_def digestApplicationDeploymentGraph_def digestApplicationDeploymentValue_def
      sha256Hex_shape)

end
