(* ===== verification/Deployment_Codec.thy ===== *)
theory Deployment_Codec
  imports Deployment_Serialization
begin

text \<open>
  The decoder of deployment graphs, \<^verbatim>\<open>packages/deployment-contract/src/codec.ts\<close>: the shape check
  of an unknown value, the cast it justifies, semantic validation and normalization. A routine
  of the source appends messages to an array; its model returns the messages it appends. The names of
  the routines carry the prefix \<open>codec_\<close> where the semantic validator has a routine of the same
  name.
\<close>

section \<open>The primitive checks\<close>

text \<open>\<open>record\<close> and \<open>array\<close> return whether the check passed; here, the members or the messages.\<close>

definition codec_record :: "jsval \<Rightarrow> string \<Rightarrow> string list + jsobject" where
  "codec_record v pth = (case v of JObject ob \<Rightarrow> Inr ob | _ \<Rightarrow> Inl [pth @ '' must be an object.''])"

definition codec_array :: "jsval \<Rightarrow> string \<Rightarrow> string list + jsval list" where
  "codec_array v pth = (case v of JArray vs \<Rightarrow> Inr vs | _ \<Rightarrow> Inl [pth @ '' must be an array.''])"

text \<open>\<open>if (!check(value, pth, diagnostics)) return; body\<close>\<close>

definition and_then :: "string list + 'a \<Rightarrow> ('a \<Rightarrow> string list) \<Rightarrow> string list" where
  "and_then checked body = (case checked of Inl ds \<Rightarrow> ds | Inr x \<Rightarrow> body x)"

definition codec_string :: "jsval \<Rightarrow> string \<Rightarrow> string list" where
  "codec_string v pth = push_if (\<not> (case v of JString s \<Rightarrow> trim s \<noteq> [] | _ \<Rightarrow> False))
     (pth @ '' must be a non-empty string.'')"

definition codec_integer :: "jsval \<Rightarrow> string \<Rightarrow> string list" where
  "codec_integer v pth = push_if (\<not> (case v of JNumber x \<Rightarrow> isSafeInteger x | _ \<Rightarrow> False))
     (pth @ '' must be an integer.'')"

text \<open>\<open>literal\<close> for the two kinds of expected values the code passes: a string or \<open>true\<close>.\<close>

definition codec_literal :: "jsval \<Rightarrow> jsval \<Rightarrow> string \<Rightarrow> string list" where
  "codec_literal v expected pth =
     push_if (v \<noteq> expected) (pth @ '' must be '' @ stableJsonStringify (\<lambda>_. []) expected @ ''.'')"

definition enumString :: "jsval \<Rightarrow> string list \<Rightarrow> string \<Rightarrow> string option \<times> string list" where
  "enumString v allowed pth =
     (let matched = (case v of JString s \<Rightarrow> List.find (\<lambda>candidate. candidate = s) allowed | _ \<Rightarrow> None)
      in case matched of
           None \<Rightarrow> (None, [pth @ '' must be one of '' @ js_join '', '' allowed @ ''.''])
         | Some s \<Rightarrow>
             (if s = [] then (None, [pth @ '' must be one of '' @ js_join '', '' allowed @ ''.''])
              else (Some s, [])))"

definition index_path :: "string \<Rightarrow> nat \<Rightarrow> string" where
  "index_path pth i = pth @ ''['' @ nat_to_string i @ '']''"

definition each_entry :: "(jsval \<Rightarrow> string \<Rightarrow> string list) \<Rightarrow> string \<Rightarrow> jsval list \<Rightarrow> string list" where
  "each_entry check pth vs = concat (map (\<lambda>(i, v). check v (index_path pth i)) (enumerate 0 vs))"

definition stringArray :: "jsval \<Rightarrow> string \<Rightarrow> string list" where
  "stringArray v pth = and_then (codec_array v pth) (each_entry codec_string pth)"

definition codec_sensitivity :: "jsval \<Rightarrow> string \<Rightarrow> string list" where
  "codec_sensitivity v pth = snd (enumString v [''public'', ''sensitive''] pth)"

definition codec_persistence :: "jsval \<Rightarrow> string \<Rightarrow> string list" where
  "codec_persistence v pth = snd (enumString v [''state'', ''redacted'', ''reference'', ''ephemeral''] pth)"

definition exactKeys :: "jsobject \<Rightarrow> string \<Rightarrow> string list \<Rightarrow> string list \<Rightarrow> string list" where
  "exactKeys ob pth required optional =
     (let allowed = set (required @ optional) in
      concat (map (\<lambda>field. push_if (\<not> obj_has ob field) (pth @ ''.'' @ field @ '' is required.'')) required)
      @ concat (map (\<lambda>(key, v). push_if (key \<notin> allowed) (pth @ ''.'' @ key @ '' is not supported.''))
          (Object_entries ob)))"

function jsonValue :: "jsval \<Rightarrow> string \<Rightarrow> string list" where
  "jsonValue (JArray vs) pth = concat (map (\<lambda>(i, v). jsonValue v (index_path pth i)) (enumerate 0 vs))"
| "jsonValue (JObject ob) pth =
     concat (map (\<lambda>(key, v). jsonValue v (pth @ ''.'' @ key)) (Object_entries ob))"
| "jsonValue JUndefined pth = [pth @ '' must contain only JSON-compatible values.'']"
| "jsonValue JNull pth = []"
| "jsonValue (JBool b) pth = []"
| "jsonValue (JNumber x) pth = push_if (\<not> isFinite x) (pth @ '' must contain only finite JSON numbers.'')"
| "jsonValue (JString s) pth = []"
  by pat_completeness auto
termination
proof (relation "measure (\<lambda>(v, pth). size v)")
  fix vs :: "jsval list" and pth x i v assume "x \<in> set (enumerate 0 vs)" and "(i, v) = x"
  then have "v \<in> set vs" using in_set_enumerate_eq [of x 0 vs] nth_mem by fastforce
  then show "((v, index_path pth i), JArray vs, pth) \<in> measure (\<lambda>(v, pth). size v)"
    by (simp add: less_Suc_eq_le size_list_estimation')
next
  fix ob pth x k v assume "x \<in> set (Object_entries ob)" and "(k, v) = x"
  then show "((v, pth @ ''.'' @ k), JObject ob, pth) \<in> measure (\<lambda>(v, pth). size v)"
    using size_entry [of k v ob] by simp
qed simp

text \<open>\<open>if (value.k !== undefined) check(value.k, ...)\<close>\<close>

definition if_defined :: "(jsval \<Rightarrow> string \<Rightarrow> string list) \<Rightarrow> jsval \<Rightarrow> string \<Rightarrow> string list" where
  "if_defined check v pth = (if v \<noteq> JUndefined then check v pth else [])"

definition each_field :: "(jsval \<Rightarrow> string \<Rightarrow> string list) \<Rightarrow> jsobject \<Rightarrow> string \<Rightarrow> string list \<Rightarrow> string list" where
  "each_field check ob pth names = concat (map (\<lambda>f. check (obj_get ob f) (pth @ ''.'' @ f)) names)"

section \<open>The shape of nodes and edges\<close>

definition codec_validateSource :: "jsval \<Rightarrow> string \<Rightarrow> string list" where
  "codec_validateSource v pth = and_then (codec_record v pth) (\<lambda>ob.
     exactKeys ob pth [] [''semanticNodeId'', ''artifactPath'', ''file'', ''line'', ''column''] @
     each_field (if_defined codec_string) ob pth [''semanticNodeId'', ''artifactPath'', ''file''] @
     each_field (if_defined codec_integer) ob pth [''line'', ''column''])"

definition codec_validateProvider :: "jsval \<Rightarrow> string \<Rightarrow> string list" where
  "codec_validateProvider v pth = and_then (codec_record v pth) (\<lambda>ob.
     exactKeys ob pth [''interface'', ''implementation'', ''version''] [] @
     each_field codec_string ob pth [''interface'', ''implementation'', ''version''])"

definition codec_validateScope :: "jsval \<Rightarrow> string \<Rightarrow> string list" where
  "codec_validateScope v pth = and_then (codec_record v pth) (\<lambda>ob.
     exactKeys ob pth [''connectionDigest''] [''namespace''] @
     codec_string (obj_get ob ''connectionDigest'') (pth @ ''.connectionDigest'') @
     if_defined codec_string (obj_get ob ''namespace'') (pth @ ''.namespace''))"

definition codec_validateCapabilities :: "jsval \<Rightarrow> string \<Rightarrow> string list" where
  "codec_validateCapabilities v pth = and_then (codec_record v pth) (\<lambda>ob.
     exactKeys ob pth [''strategies'', ''alchemy''] [] @
     codec_literal (obj_get ob ''alchemy'') (JBool True) (pth @ ''.alchemy'') @
     and_then (codec_array (obj_get ob ''strategies'') (pth @ ''.strategies''))
       (each_entry (\<lambda>strategy p. snd (enumString strategy [''direct'', ''kro''] p)) (pth @ ''.strategies'')))"

definition codec_validateInput :: "jsval \<Rightarrow> string \<Rightarrow> string list" where
  "codec_validateInput v inputPath = and_then (codec_record v inputPath) (\<lambda>input.
     (let (kind, ds) = enumString (obj_get input ''kind'') [''literal'', ''output'', ''secretReference'']
            (inputPath @ ''.kind'')
      in ds @
        (if kind = Some ''literal'' then
           exactKeys input inputPath [''kind'', ''value''] [] @
           jsonValue (obj_get input ''value'') (inputPath @ ''.value'')
         else if kind = Some ''output'' then
           exactKeys input inputPath [''kind'', ''nodeId'', ''output'', ''sensitivity'', ''persistence''] [] @
           codec_string (obj_get input ''nodeId'') (inputPath @ ''.nodeId'') @
           codec_string (obj_get input ''output'') (inputPath @ ''.output'') @
           codec_sensitivity (obj_get input ''sensitivity'') (inputPath @ ''.sensitivity'') @
           codec_persistence (obj_get input ''persistence'') (inputPath @ ''.persistence'')
         else if kind = Some ''secretReference'' then
           exactKeys input inputPath [''kind'', ''nodeId''] [''key''] @
           codec_string (obj_get input ''nodeId'') (inputPath @ ''.nodeId'') @
           if_defined codec_string (obj_get input ''key'') (inputPath @ ''.key'')
         else [])))"

definition codec_validateInputs :: "jsval \<Rightarrow> string \<Rightarrow> string list" where
  "codec_validateInputs v pth = and_then (codec_record v pth) (\<lambda>ob.
     concat (map (\<lambda>(name, input). codec_validateInput input (pth @ ''.'' @ name)) (Object_entries ob)))"

definition codec_validateOutput :: "jsval \<Rightarrow> string \<Rightarrow> string list" where
  "codec_validateOutput v outputPath = and_then (codec_record v outputPath) (\<lambda>out.
     exactKeys out outputPath [''name'', ''type'', ''sensitivity'', ''persistence''] [] @
     codec_string (obj_get out ''name'') (outputPath @ ''.name'') @
     snd (enumString (obj_get out ''type'')
       [''string'', ''number'', ''boolean'', ''json'', ''secretReference'', ''resourceReference'',
        ''artifactReference'', ''artifactDigest''] (outputPath @ ''.type'')) @
     codec_sensitivity (obj_get out ''sensitivity'') (outputPath @ ''.sensitivity'') @
     codec_persistence (obj_get out ''persistence'') (outputPath @ ''.persistence''))"

definition codec_validateOutputs :: "jsval \<Rightarrow> string \<Rightarrow> string list" where
  "codec_validateOutputs v pth = and_then (codec_array v pth) (each_entry codec_validateOutput pth)"

definition codec_validateLifecycle :: "jsval \<Rightarrow> string \<Rightarrow> string list" where
  "codec_validateLifecycle v pth = and_then (codec_record v pth) (\<lambda>ob.
     exactKeys ob pth [''ownership'', ''deletion'', ''adoption''] [''namespaceNodeId''] @
     snd (enumString (obj_get ob ''ownership'') [''application'', ''shared'', ''external''] (pth @ ''.ownership'')) @
     snd (enumString (obj_get ob ''deletion'') [''delete'', ''retain'', ''orphan'', ''none''] (pth @ ''.deletion'')) @
     snd (enumString (obj_get ob ''adoption'') [''createOnly'', ''createOrAdoptExact'', ''externalOnly'']
       (pth @ ''.adoption'')) @
     if_defined codec_string (obj_get ob ''namespaceNodeId'') (pth @ ''.namespaceNodeId''))"

fun spec_required :: "ApplicationDeploymentNodeKind \<Rightarrow> string list" where
  "spec_required KArtifact = [''artifactType'', ''sourceDescriptor'']"
| "spec_required KExternalProvider = [''resourceType'']"
| "spec_required KKubernetesComposition = [''compositionId'', ''fragmentIds'']"
| "spec_required KKubernetesDirect = [''compositionId'', ''reason'']"
| "spec_required KSingleton = [''singletonKey'']"
| "spec_required KExternalReference = [''referenceType'', ''reference'']"
| "spec_required KSecretReference = [''source'', ''name'']"
| "spec_required KStatusProjection = [''field'', ''sourceNodeId'', ''sourcePath'', ''classification'']"

fun spec_fields :: "ApplicationDeploymentNodeKind \<Rightarrow> jsobject \<Rightarrow> string \<Rightarrow> string list" where
  "spec_fields KArtifact ob pth =
     snd (enumString (obj_get ob ''artifactType'')
       [''containerImage'', ''wasmComponent'', ''migration'', ''generatedRuntime''] (pth @ ''.artifactType'')) @
     jsonValue (obj_get ob ''sourceDescriptor'') (pth @ ''.sourceDescriptor'')"
| "spec_fields KExternalProvider ob pth =
     codec_string (obj_get ob ''resourceType'') (pth @ ''.resourceType'') @
     if_defined codec_string (obj_get ob ''controller'') (pth @ ''.controller'')"
| "spec_fields KKubernetesComposition ob pth =
     codec_string (obj_get ob ''compositionId'') (pth @ ''.compositionId'') @
     stringArray (obj_get ob ''fragmentIds'') (pth @ ''.fragmentIds'') @
     if_defined stringArray (obj_get ob ''namespaceNodeIds'') (pth @ ''.namespaceNodeIds'')"
| "spec_fields KKubernetesDirect ob pth =
     codec_string (obj_get ob ''compositionId'') (pth @ ''.compositionId'') @
     codec_string (obj_get ob ''reason'') (pth @ ''.reason'')"
| "spec_fields KSingleton ob pth = codec_string (obj_get ob ''singletonKey'') (pth @ ''.singletonKey'')"
| "spec_fields KExternalReference ob pth =
     codec_string (obj_get ob ''referenceType'') (pth @ ''.referenceType'') @
     jsonValue (obj_get ob ''reference'') (pth @ ''.reference'')"
| "spec_fields KSecretReference ob pth =
     snd (enumString (obj_get ob ''source'') [''kubernetesSecret'', ''hostBinding''] (pth @ ''.source'')) @
     codec_string (obj_get ob ''name'') (pth @ ''.name'') @
     each_field (if_defined codec_string) ob pth [''namespace'', ''key'']"
| "spec_fields KStatusProjection ob pth =
     each_field codec_string ob pth [''field'', ''sourceNodeId'', ''sourcePath''] @
     snd (enumString (obj_get ob ''classification'') [''live'', ''desired'', ''static''] (pth @ ''.classification''))"

definition all_kinds :: "ApplicationDeploymentNodeKind list" where
  "all_kinds = [KArtifact, KExternalProvider, KKubernetesComposition, KKubernetesDirect, KSingleton,
     KExternalReference, KSecretReference, KStatusProjection]"

definition kind_of_literal :: "string \<Rightarrow> ApplicationDeploymentNodeKind option" where
  "kind_of_literal s = List.find (\<lambda>k. kind_literal k = s) all_kinds"

text \<open>The kind is absent where the check of the member \<open>kind\<close> failed.\<close>

definition codec_validateSpec :: "jsval \<Rightarrow> ApplicationDeploymentNodeKind option \<Rightarrow> string \<Rightarrow> string list" where
  "codec_validateSpec v kind pth = and_then (codec_record v pth) (\<lambda>ob.
     (case kind of
        None \<Rightarrow> []
      | Some k \<Rightarrow>
          concat (map (\<lambda>field. push_if (\<not> obj_has ob field) (pth @ ''.'' @ field @ '' is required.''))
            (spec_required k)) @
          spec_fields k ob pth @
          jsonValue v pth))"

definition codec_validateNode :: "jsval \<Rightarrow> string \<Rightarrow> string list" where
  "codec_validateNode v pth = and_then (codec_record v pth) (\<lambda>ob.
     exactKeys ob pth
       [''id'', ''kind'', ''contractVersion'', ''source'', ''provider'', ''scope'', ''capabilities'',
        ''configurationDigest'', ''inputs'', ''outputs'', ''lifecycle'', ''spec''] [] @
     codec_string (obj_get ob ''id'') (pth @ ''.id'') @
     (let (kind, ds) = enumString (obj_get ob ''kind'') (map kind_literal all_kinds) (pth @ ''.kind'') in
      ds @
      codec_integer (obj_get ob ''contractVersion'') (pth @ ''.contractVersion'') @
      codec_string (obj_get ob ''configurationDigest'') (pth @ ''.configurationDigest'') @
      codec_validateSource (obj_get ob ''source'') (pth @ ''.source'') @
      codec_validateProvider (obj_get ob ''provider'') (pth @ ''.provider'') @
      codec_validateScope (obj_get ob ''scope'') (pth @ ''.scope'') @
      codec_validateCapabilities (obj_get ob ''capabilities'') (pth @ ''.capabilities'') @
      codec_validateInputs (obj_get ob ''inputs'') (pth @ ''.inputs'') @
      codec_validateOutputs (obj_get ob ''outputs'') (pth @ ''.outputs'') @
      codec_validateLifecycle (obj_get ob ''lifecycle'') (pth @ ''.lifecycle'') @
      codec_validateSpec (obj_get ob ''spec'') (Option.bind kind kind_of_literal) (pth @ ''.spec'')))"

definition codec_validateEdge :: "jsval \<Rightarrow> string \<Rightarrow> string list" where
  "codec_validateEdge v pth = and_then (codec_record v pth) (\<lambda>ob.
     exactKeys ob pth [''from'', ''to'', ''relationship''] [''output''] @
     codec_string (obj_get ob ''from'') (pth @ ''.from'') @
     codec_string (obj_get ob ''to'') (pth @ ''.to'') @
     snd (enumString (obj_get ob ''relationship'')
       [''requiresOutput'', ''requiresReady'', ''installsApi'', ''owns'', ''retains'', ''publishes'',
        ''projectsStatus''] (pth @ ''.relationship'')) @
     if_defined codec_string (obj_get ob ''output'') (pth @ ''.output''))"

section \<open>The shape of the graph\<close>

definition validateProfileTransition :: "jsval \<Rightarrow> string list" where
  "validateProfileTransition v =
     (let pth = ''$.metadata.profileTransition'' in
      and_then (codec_record v pth) (\<lambda>ob.
        exactKeys ob pth [''apiVersion'', ''installation'', ''mode'', ''entries'', ''acknowledgements''] [] @
        codec_literal (obj_get ob ''apiVersion'') (JString ''applik8s.profileTransitionPlan/v1alpha1'')
          (pth @ ''.apiVersion'') @
        snd (enumString (obj_get ob ''mode'') [''fresh'', ''unchanged'', ''transition''] (pth @ ''.mode'')) @
        and_then (codec_record (obj_get ob ''installation'') (pth @ ''.installation'')) (\<lambda>inst.
          exactKeys inst (pth @ ''.installation'') [''namespace'', ''name''] [] @
          codec_string (obj_get inst ''namespace'') (pth @ ''.installation.namespace'') @
          codec_string (obj_get inst ''name'') (pth @ ''.installation.name'')) @
        and_then (codec_array (obj_get ob ''entries'') (pth @ ''.entries''))
          (each_entry jsonValue (pth @ ''.entries'')) @
        stringArray (obj_get ob ''acknowledgements'') (pth @ ''.acknowledgements'')))"

definition validateConnection :: "jsval \<Rightarrow> string \<Rightarrow> string list" where
  "validateConnection v pth = and_then (codec_record v pth) (\<lambda>ob.
     exactKeys ob pth [''provider'', ''cluster'', ''digest''] [] @
     each_field codec_string ob pth [''provider'', ''cluster'', ''digest''])"

definition validateIdentity :: "jsval \<Rightarrow> string \<Rightarrow> string list" where
  "validateIdentity v pth = and_then (codec_record v pth) (\<lambda>ob.
     exactKeys ob pth [''connection'', ''application'', ''controlPlaneNamespace'', ''instance'', ''profile''] [] @
     each_field codec_string ob pth [''application'', ''controlPlaneNamespace'', ''instance'', ''profile''] @
     validateConnection (obj_get ob ''connection'') (pth @ ''.connection''))"

definition validateMetadata :: "jsval \<Rightarrow> string list" where
  "validateMetadata v =
     (let pth = ''$.metadata'' in
      and_then (codec_record v pth) (\<lambda>ob.
        exactKeys ob pth [''identity'', ''mode'', ''strategy'', ''sourceGraphDigest'', ''compilerVersion'']
          [''profileTransition''] @
        snd (enumString (obj_get ob ''mode'') [''fresh''] (pth @ ''.mode'')) @
        snd (enumString (obj_get ob ''strategy'') [''direct'', ''kro''] (pth @ ''.strategy'')) @
        codec_string (obj_get ob ''sourceGraphDigest'') (pth @ ''.sourceGraphDigest'') @
        codec_string (obj_get ob ''compilerVersion'') (pth @ ''.compilerVersion'') @
        (if obj_get ob ''profileTransition'' \<noteq> JUndefined
         then validateProfileTransition (obj_get ob ''profileTransition'') else []) @
        validateIdentity (obj_get ob ''identity'') (pth @ ''.identity'')))"

definition validateGraphShape :: "jsval \<Rightarrow> string list" where
  "validateGraphShape v = and_then (codec_record v ''$'') (\<lambda>ob.
     exactKeys ob ''$'' [''apiVersion'', ''kind'', ''metadata'', ''nodes'', ''edges''] [] @
     codec_literal (obj_get ob ''apiVersion'') (JString ''applik8s.deploymentGraph/v1alpha1'') ''$.apiVersion'' @
     codec_literal (obj_get ob ''kind'') (JString ''ApplicationDeploymentGraph'') ''$.kind'' @
     validateMetadata (obj_get ob ''metadata'') @
     and_then (codec_array (obj_get ob ''nodes'') ''$.nodes'') (each_entry codec_validateNode ''$.nodes'') @
     and_then (codec_array (obj_get ob ''edges'') ''$.edges'') (each_entry codec_validateEdge ''$.edges''))"

section \<open>The cast\<close>

text \<open>
  \<open>value as ApplicationDeploymentGraph\<close>: the typed reading of a value. It is total; where a
  value does not have the type the result is arbitrary, and the properties below show that the shape
  check excludes those values.
\<close>

definition cast_string :: "jsval \<Rightarrow> string" where
  "cast_string v = (case v of JString s \<Rightarrow> s | _ \<Rightarrow> [])"

definition cast_number :: "jsval \<Rightarrow> js_number" where
  "cast_number v = (case v of JNumber x \<Rightarrow> x | _ \<Rightarrow> NNaN)"

definition cast_object :: "jsval \<Rightarrow> jsobject" where
  "cast_object v = (case v of JObject ob \<Rightarrow> ob | _ \<Rightarrow> [])"

definition cast_array :: "jsval \<Rightarrow> jsval list" where
  "cast_array v = (case v of JArray vs \<Rightarrow> vs | _ \<Rightarrow> [])"

definition cast_opt :: "(jsval \<Rightarrow> 'a) \<Rightarrow> jsval \<Rightarrow> 'a option" where
  "cast_opt cast v = (if v = JUndefined then None else Some (cast v))"

definition cast_literal :: "('a \<Rightarrow> string) \<Rightarrow> 'a list \<Rightarrow> jsval \<Rightarrow> 'a" where
  "cast_literal lit values v =
     (case List.find (\<lambda>x. lit x = cast_string v) values of None \<Rightarrow> hd values | Some x \<Rightarrow> x)"

definition member :: "jsval \<Rightarrow> string \<Rightarrow> jsval" where
  "member v k = obj_get (cast_object v) k"

definition source_of_json :: "jsval \<Rightarrow> ApplicationDeploymentSource" where
  "source_of_json v =
     \<lparr>src_semanticNodeId = cast_opt cast_string (member v ''semanticNodeId''),
      src_artifactPath = cast_opt cast_string (member v ''artifactPath''),
      src_file = cast_opt cast_string (member v ''file''),
      src_line = cast_opt cast_number (member v ''line''),
      src_column = cast_opt cast_number (member v ''column'')\<rparr>"

definition provider_of_json :: "jsval \<Rightarrow> ApplicationDeploymentProviderIdentity" where
  "provider_of_json v =
     \<lparr>prov_interface = cast_string (member v ''interface''),
      prov_implementation = cast_string (member v ''implementation''),
      prov_version = cast_string (member v ''version'')\<rparr>"

definition scope_of_json :: "jsval \<Rightarrow> ApplicationDeploymentNodeScope" where
  "scope_of_json v =
     \<lparr>scope_connectionDigest = cast_string (member v ''connectionDigest''),
      scope_namespace = cast_opt cast_string (member v ''namespace'')\<rparr>"

definition capabilities_of_json :: "jsval \<Rightarrow> ApplicationDeploymentNodeCapabilities" where
  "capabilities_of_json v =
     \<lparr>cap_strategies = map (cast_literal strategy_literal [StrategyDirect, StrategyKro])
        (cast_array (member v ''strategies'')),
      cap_alchemy = (member v ''alchemy'' = JBool True)\<rparr>"

definition all_sensitivities :: "ApplicationDeploymentSensitivity list" where
  "all_sensitivities = [SPublic, SSensitive]"

definition all_persistences :: "ApplicationDeploymentPersistence list" where
  "all_persistences = [PState, PRedacted, PReference, PEphemeral]"

definition input_of_json :: "jsval \<Rightarrow> ApplicationDeploymentInput" where
  "input_of_json v =
     (if member v ''kind'' = JString ''literal'' then LiteralInput (member v ''value'')
      else if member v ''kind'' = JString ''output'' then
        OutputInput (cast_string (member v ''nodeId'')) (cast_string (member v ''output''))
          (cast_literal sensitivity_literal all_sensitivities (member v ''sensitivity''))
          (cast_literal persistence_literal all_persistences (member v ''persistence''))
      else SecretReferenceInput (cast_string (member v ''nodeId'')) (cast_opt cast_string (member v ''key'')))"

definition all_output_types :: "ApplicationDeploymentOutputType list" where
  "all_output_types = [OTString, OTNumber, OTBoolean, OTJson, OTSecretReference, OTResourceReference,
     OTArtifactReference, OTArtifactDigest]"

definition output_of_json :: "jsval \<Rightarrow> ApplicationDeploymentOutput" where
  "output_of_json v =
     \<lparr>out_name = cast_string (member v ''name''),
      out_type = cast_literal output_type_literal all_output_types (member v ''type''),
      out_sensitivity = cast_literal sensitivity_literal all_sensitivities (member v ''sensitivity''),
      out_persistence = cast_literal persistence_literal all_persistences (member v ''persistence'')\<rparr>"

definition lifecycle_of_json :: "jsval \<Rightarrow> ApplicationDeploymentLifecycle" where
  "lifecycle_of_json v =
     \<lparr>life_ownership = cast_literal ownership_literal [OwnApplication, OwnShared, OwnExternal] (member v ''ownership''),
      life_deletion = cast_literal deletion_literal [DelDelete, DelRetain, DelOrphan, DelNone] (member v ''deletion''),
      life_adoption = cast_literal adoption_literal [AdoptCreateOnly, AdoptCreateOrAdoptExact, AdoptExternalOnly]
        (member v ''adoption''),
      life_namespaceNodeId = cast_opt cast_string (member v ''namespaceNodeId'')\<rparr>"

definition node_of_json :: "jsval \<Rightarrow> ApplicationDeploymentNode" where
  "node_of_json v =
     \<lparr>node_id = cast_string (member v ''id''),
      node_kind = cast_literal kind_literal all_kinds (member v ''kind''),
      node_contractVersion = cast_number (member v ''contractVersion''),
      node_source = source_of_json (member v ''source''),
      node_provider = provider_of_json (member v ''provider''),
      node_scope = scope_of_json (member v ''scope''),
      node_capabilities = capabilities_of_json (member v ''capabilities''),
      node_configurationDigest = cast_string (member v ''configurationDigest''),
      node_inputs = map (apsnd input_of_json) (Object_entries (cast_object (member v ''inputs''))),
      node_outputs = map output_of_json (cast_array (member v ''outputs'')),
      node_lifecycle = lifecycle_of_json (member v ''lifecycle''),
      node_spec = cast_object (member v ''spec'')\<rparr>"

definition all_edge_kinds :: "ApplicationDeploymentEdgeKind list" where
  "all_edge_kinds = [RequiresOutput, RequiresReady, InstallsApi, Owns, Retains, Publishes, ProjectsStatus]"

definition edge_of_json :: "jsval \<Rightarrow> ApplicationDeploymentEdge" where
  "edge_of_json v =
     \<lparr>edge_from = cast_string (member v ''from''), edge_to = cast_string (member v ''to''),
      edge_relationship = cast_literal edge_kind_literal all_edge_kinds (member v ''relationship''),
      edge_output = cast_opt cast_string (member v ''output'')\<rparr>"

definition connection_of_json :: "jsval \<Rightarrow> ApplicationDeploymentConnectionIdentity" where
  "connection_of_json v =
     \<lparr>conn_provider = cast_string (member v ''provider''), conn_cluster = cast_string (member v ''cluster''),
      conn_digest = cast_string (member v ''digest'')\<rparr>"

definition identity_of_json :: "jsval \<Rightarrow> ApplicationDeploymentIdentity" where
  "identity_of_json v =
     \<lparr>id_connection = connection_of_json (member v ''connection''),
      id_application = cast_string (member v ''application''),
      id_controlPlaneNamespace = cast_string (member v ''controlPlaneNamespace''),
      id_instance = cast_string (member v ''instance''), id_profile = cast_string (member v ''profile'')\<rparr>"

definition metadata_of_json :: "jsval \<Rightarrow> ApplicationDeploymentGraphMetadata" where
  "metadata_of_json v =
     \<lparr>meta_identity = identity_of_json (member v ''identity''), meta_mode = ModeFresh,
      meta_strategy = cast_literal strategy_literal [StrategyDirect, StrategyKro] (member v ''strategy''),
      meta_sourceGraphDigest = cast_string (member v ''sourceGraphDigest''),
      meta_compilerVersion = cast_string (member v ''compilerVersion''),
      meta_profileTransition = cast_opt cast_object (member v ''profileTransition'')\<rparr>"

definition graph_of_json :: "jsval \<Rightarrow> ApplicationDeploymentGraph" where
  "graph_of_json v =
     \<lparr>graph_apiVersion = cast_string (member v ''apiVersion''), graph_kind = cast_string (member v ''kind''),
      graph_metadata = metadata_of_json (member v ''metadata''),
      graph_nodes = map node_of_json (cast_array (member v ''nodes'')),
      graph_edges = map edge_of_json (cast_array (member v ''edges''))\<rparr>"

section \<open>Decoding\<close>

text \<open>The message of \<open>ApplicationDeploymentGraphDecodeError\<close>.\<close>

definition decode_error_message :: "string list \<Rightarrow> string" where
  "decode_error_message diagnostics =
     ''ApplicationDeploymentGraph decoding failed:'' @ [CHR 10] @
     js_join [CHR 10] (map (\<lambda>d. ''- '' @ d) diagnostics)"

definition decode_value :: "jsval \<Rightarrow> string list + jsval" where
  "decode_value v =
     (let diagnostics = validateGraphShape v in
      if diagnostics \<noteq> [] then Inl diagnostics
      else
        (let graph = graph_of_json v; semantic = validateApplicationDeploymentGraph graph in
         if \<not> result_valid semantic
         then Inl (map (\<lambda>d. ''['' @ code_literal (diag_code d) @ ''] '' @ diag_message d) (result_diagnostics semantic))
         else Inr (normalizeApplicationDeploymentGraph graph)))"

text \<open>
  \<open>cause\<close> is the text of the exception \<open>JSON.parse\<close> throws, \<open>rd\<close> its reading of numbers
  that are not safe integers. \<open>Inl\<close> is the thrown error with its diagnostics.
\<close>

definition decodeApplicationDeploymentGraph ::
  "(string \<Rightarrow> string) \<Rightarrow> (string \<Rightarrow> js_number option) \<Rightarrow> jsval \<Rightarrow> string list + jsval" where
  "decodeApplicationDeploymentGraph cause rd input =
     (case input of
        JString source \<Rightarrow>
          (case JSON_parse rd source of
             None \<Rightarrow> Inl [''input is not valid JSON: '' @ cause source]
           | Some v \<Rightarrow> decode_value v)
      | v \<Rightarrow> decode_value v)"

end
