(* ===== verification/Deployment_Decode.thy ===== *)
theory Deployment_Decode
  imports Deployment_Codec
begin

text \<open>
  What the decoder of \<open>Deployment_Codec\<close> guarantees. Each primitive check decides a predicate
  (the \<open>checker\<close> contract); an object that passes its check has the normal form of the typed
  value the cast reads from it, so the cast loses nothing; the decoder accepts only values whose typed
  reading is a valid graph.
\<close>

section \<open>Objects are determined by their members\<close>

text \<open>The values of the language: the keys of every object are distinct.\<close>

fun js_wf :: "jsval \<Rightarrow> bool" where
  "js_wf (JArray vs) = (\<forall>v \<in> set vs. js_wf v)"
| "js_wf (JObject ob) = (distinct (map fst ob) \<and> (\<forall>(k, v) \<in> set ob. js_wf v))"
| "js_wf _ = True"

lemma js_wf_obj_get: "js_wf (JObject ob) \<Longrightarrow> js_wf (obj_get ob k)"
  by (auto simp: obj_get_def split: option.split dest!: map_of_SomeD)

definition visible :: "string \<times> jsval \<Rightarrow> bool" where
  "visible p = (snd p \<noteq> JUndefined \<and> fst p \<noteq> ''__proto__'')"

lemma assign_all_distinct:
  assumes "distinct (map fst (ob @ entries))"
  shows "assign_all ob entries = ob @ filter (\<lambda>p. fst p \<noteq> ''__proto__'') entries"
  using assms
proof (induction entries arbitrary: ob)
  case Nil
  then show ?case by (simp add: assign_all_def)
next
  case (Cons p entries)
  obtain k v where p: "p = (k, v)" by fastforce
  have new: "k \<noteq> ''__proto__'' \<Longrightarrow> js_assign ob k v = ob @ [(k, v)]" "k = ''__proto__'' \<Longrightarrow> js_assign ob k v = ob"
    using Cons.prems p by (auto simp: js_assign_def update_new)
  show ?case
    using Cons.IH [of "js_assign ob k v"] Cons.prems p new
    by (cases "k = ''__proto__''") (simp_all add: assign_all_def)
qed

lemma sorted_entries_filter:
  "distinct (map fst ob) \<Longrightarrow> filter Q (sorted_entries ob) = sorted_entries (filter Q ob)"
  by (simp add: sorted_entries_distinct entries.js_sort_sort_key filter_sort distinct_map_filter)

lemma normalizeJson_object:
  assumes "distinct (map fst ob)"
  shows "normalizeJson (JObject ob) = JObject (map (apsnd normalizeJson) (sorted_entries (filter visible ob)))"
proof -
  let ?es = "map (apsnd normalizeJson) (defined_entries ob)"
  have eq: "map (\<lambda>(key, entry). (key, normalizeJson entry)) (defined_entries ob) = ?es"
    by (simp add: apsnd_def map_prod_def)
  have "distinct (map fst (sorted_entries ob))" using assms by simp
  then have "distinct (map fst ?es)"
    by (simp add: defined_entries_def comp_def distinct_map_filter)
  then have "assign_all [] ?es = filter (\<lambda>p. fst p \<noteq> ''__proto__'') ?es"
    using assign_all_distinct [of "[]" ?es] by simp
  also have "\<dots> = map (apsnd normalizeJson) (filter visible (sorted_entries ob))"
    by (simp add: defined_entries_def filter_map comp_def visible_def [abs_def] case_prod_beta' conj_commute)
  finally show ?thesis
    by (simp add: normalizeJson.simps(2) eq sorted_entries_filter [OF assms])
qed

lemma normalizeJson_eq_undefined [simp]: "normalizeJson v = JUndefined \<longleftrightarrow> v = JUndefined"
  by (cases v) (simp_all add: normalizeJson.simps(2))

lemma visible_iff:
  assumes "distinct (map fst ob)"
  shows "(k, v) \<in> set (filter visible ob) \<longleftrightarrow> obj_get ob k = v \<and> v \<noteq> JUndefined \<and> k \<noteq> ''__proto__''"
proof -
  have "(k, v) \<in> set ob \<longleftrightarrow> map_of ob k = Some v" using assms by simp
  then show ?thesis by (auto simp: visible_def obj_get_def split: option.split)
qed

lemma visible_keys:
  assumes "distinct (map fst ob)"
  shows "fst ` set (filter visible ob) = {k. obj_get ob k \<noteq> JUndefined \<and> k \<noteq> ''__proto__''}"
proof -
  have "k \<in> fst ` A \<longleftrightarrow> (\<exists>v. (k, v) \<in> A)" for k and A :: "(string \<times> jsval) set" by force
  then show ?thesis by (simp only: set_eq_iff mem_Collect_eq visible_iff [OF assms]) blast
qed

lemma normalizeJson_ext:
  assumes "distinct (map fst xs)" and "distinct (map fst ys)"
    and get: "\<And>k. normalizeJson (obj_get xs k) = normalizeJson (obj_get ys k)"
  shows "normalizeJson (JObject xs) = normalizeJson (JObject ys)"
proof -
  have undef: "obj_get xs k = JUndefined \<longleftrightarrow> obj_get ys k = JUndefined" for k
    using get [of k] normalizeJson_eq_undefined by metis
  have "map (apsnd normalizeJson) (sorted_entries (filter visible xs)) =
      map (apsnd normalizeJson) (sorted_entries (filter visible ys))"
  proof (rule entries_eqI)
    show "fst ` set (filter visible xs) = fst ` set (filter visible ys)"
      using visible_keys [OF assms(1)] visible_keys [OF assms(2)] undef by simp
    fix k v w assume "(k, v) \<in> set (filter visible xs)" and "(k, w) \<in> set (filter visible ys)"
    then show "normalizeJson v = normalizeJson w"
      using visible_iff [OF assms(1)] visible_iff [OF assms(2)] get [of k] by simp
  qed (simp_all add: assms(1,2) distinct_map_filter)
  then show ?thesis by (simp add: normalizeJson_object assms(1,2))
qed

lemma obj_get_absent: "\<not> obj_has ob k \<Longrightarrow> obj_get ob k = JUndefined"
  by (simp add: obj_has_def obj_get_def map_of_eq_None_iff [THEN iffD2])

text \<open>Two objects over the same list of keys have the same normal form when the members agree.\<close>

definition keys_within :: "jsobject \<Rightarrow> string list \<Rightarrow> bool" where
  "keys_within ob keys = (\<forall>k. obj_has ob k \<longrightarrow> k \<in> set keys)"

lemma normalizeJson_members:
  assumes "distinct (map fst xs)" and "distinct (map fst ys)"
    and "keys_within xs keys" and "keys_within ys keys"
    and "list_all (\<lambda>k. normalizeJson (obj_get xs k) = normalizeJson (obj_get ys k)) keys"
  shows "normalizeJson (JObject xs) = normalizeJson (JObject ys)"
proof (rule normalizeJson_ext [OF assms(1,2)])
  fix k show "normalizeJson (obj_get xs k) = normalizeJson (obj_get ys k)"
    using assms(3-5) obj_get_absent [of xs k] obj_get_absent [of ys k]
    unfolding keys_within_def list_all_iff by (cases "k \<in> set keys") (blast, metis)
qed

lemma keys_within_simps [simp]:
  "keys_within [] keys" "keys_within ((k, v) # ob) keys \<longleftrightarrow> k \<in> set keys \<and> keys_within ob keys"
  "keys_within (xs @ ys) keys \<longleftrightarrow> keys_within xs keys \<and> keys_within ys keys"
  by (auto simp: keys_within_def obj_has_def)

lemma keys_within_opt [simp]: "keys_within (opt_member k f x) keys \<longleftrightarrow> x = None \<or> k \<in> set keys"
  by (cases x) (simp_all add: opt_member_def)

section \<open>The primitive checks\<close>

lemma and_then_record [check_iff]: "and_then (codec_record v pth) f = [] \<longleftrightarrow> (\<exists>ob. v = JObject ob \<and> f ob = [])"
  by (cases v) (simp_all add: and_then_def codec_record_def)

lemma and_then_array [check_iff]: "and_then (codec_array v pth) f = [] \<longleftrightarrow> (\<exists>vs. v = JArray vs \<and> f vs = [])"
  by (cases v) (simp_all add: and_then_def codec_array_def)

interpretation text_check: checker "\<lambda>v. codec_string v pth" nonblank_val for pth
  by unfold_locales
     (auto simp: codec_string_def nonblank_val_def nonblank_def trim_eq_Nil_iff split: jsval.split)

interpretation integer_check: checker "\<lambda>v. codec_integer v pth" "\<lambda>v. \<exists>x. v = JNumber x \<and> isSafeInteger x" for pth
  by unfold_locales (auto simp: codec_integer_def split: jsval.split)

interpretation literal_check: checker "\<lambda>v. codec_literal v expected pth" "\<lambda>v. v = expected" for pth expected
  by unfold_locales (auto simp: codec_literal_def)

definition one_of :: "string list \<Rightarrow> jsval \<Rightarrow> bool" where
  "one_of allowed v = (\<exists>s \<in> set allowed. v = JString s \<and> s \<noteq> [])"

interpretation enum_check: checker "\<lambda>v. snd (enumString v allowed pth)" "one_of allowed" for pth allowed
proof
  fix pth allowed and v :: jsval
  show "snd (enumString v allowed pth) = [] \<longleftrightarrow> one_of allowed v"
    by (cases v) (auto simp: enumString_def one_of_def Let_def find_Some_iff find_None_iff split: option.split
        dest: nth_mem)
qed

lemma enumString_result: "snd (enumString v allowed pth) = [] \<Longrightarrow> v = JString s \<Longrightarrow> fst (enumString v allowed pth) = Some s"
  by (auto simp: enumString_def Let_def find_Some_iff split: option.splits if_splits)

lemmas shape_checks = text_check.check_spec integer_check.check_spec literal_check.check_spec enum_check.check_spec

lemma exactKeys_iff [check_iff]:
  "exactKeys ob pth required opt = [] \<longleftrightarrow>
     (\<forall>f \<in> set required. obj_has ob f) \<and> keys_within ob (required @ opt)"
  by (auto simp: exactKeys_def Let_def obj_has_def keys_within_def)

lemma if_defined_iff: "if_defined check v pth = [] \<longleftrightarrow> v = JUndefined \<or> check v pth = []"
  by (simp add: if_defined_def)

lemma each_field_iff [check_iff]:
  "each_field check ob pth names = [] \<longleftrightarrow> (\<forall>f \<in> set names. check (obj_get ob f) (pth @ ''.'' @ f) = [])"
  by (auto simp: each_field_def)

lemma each_entry_iff [check_iff]:
  "each_entry check pth vs = [] \<longleftrightarrow> (\<forall>i < length vs. check (vs ! i) (index_path pth i) = [])"
  by (simp add: each_entry_def all_set_conv_all_nth nth_enumerate_eq)

section \<open>The cast is exact on checked values\<close>

lemma fst_opt_member [simp]: "map fst (opt_member k f x) = (if x = None then [] else [k])"
  by (simp add: opt_member_def split: option.split)

lemma set_opt_member [simp]: "fst ` set (opt_member k f x) = (if x = None then {} else {k})"
  by (cases x) (simp_all add: opt_member_def)

lemma cast_string_back: "nonblank_val v \<Longrightarrow> JString (cast_string v) = v"
  by (auto simp: nonblank_val_def cast_string_def)

lemma cast_number_back: "\<exists>x. v = JNumber x \<and> isSafeInteger x \<Longrightarrow> JNumber (cast_number v) = v"
  by (auto simp: cast_number_def)

lemma cast_opt_None [simp]: "cast_opt c v = None \<longleftrightarrow> v = JUndefined"
  by (simp add: cast_opt_def)

lemma cast_literal_back:
  assumes "one_of (map lit values) v"
  shows "JString (lit (cast_literal lit values v)) = v"
proof -
  obtain x where x: "x \<in> set values" "v = JString (lit x)" using assms by (auto simp: one_of_def)
  then obtain y where "List.find (\<lambda>z. lit z = lit x) values = Some y"
    by (cases "List.find (\<lambda>z. lit z = lit x) values") (auto simp: find_None_iff)
  moreover from this have "lit y = lit x" by (auto simp: find_Some_iff)
  ultimately show ?thesis using x by (simp add: cast_literal_def cast_string_def)
qed

lemma cast_literals_back:
  "one_of [''direct'', ''kro''] v \<Longrightarrow>
     JString (strategy_literal (cast_literal strategy_literal [StrategyDirect, StrategyKro] v)) = v"
  "one_of [''public'', ''sensitive''] v \<Longrightarrow>
     JString (sensitivity_literal (cast_literal sensitivity_literal all_sensitivities v)) = v"
  "one_of [''state'', ''redacted'', ''reference'', ''ephemeral''] v \<Longrightarrow>
     JString (persistence_literal (cast_literal persistence_literal all_persistences v)) = v"
  "one_of [''string'', ''number'', ''boolean'', ''json'', ''secretReference'', ''resourceReference'',
      ''artifactReference'', ''artifactDigest''] v \<Longrightarrow>
     JString (output_type_literal (cast_literal output_type_literal all_output_types v)) = v"
  "one_of [''application'', ''shared'', ''external''] v \<Longrightarrow>
     JString (ownership_literal (cast_literal ownership_literal [OwnApplication, OwnShared, OwnExternal] v)) = v"
  "one_of [''delete'', ''retain'', ''orphan'', ''none''] v \<Longrightarrow>
     JString (deletion_literal (cast_literal deletion_literal [DelDelete, DelRetain, DelOrphan, DelNone] v)) = v"
  "one_of [''createOnly'', ''createOrAdoptExact'', ''externalOnly''] v \<Longrightarrow>
     JString (adoption_literal (cast_literal adoption_literal
       [AdoptCreateOnly, AdoptCreateOrAdoptExact, AdoptExternalOnly] v)) = v"
  "one_of [''requiresOutput'', ''requiresReady'', ''installsApi'', ''owns'', ''retains'', ''publishes'',
      ''projectsStatus''] v \<Longrightarrow>
     JString (edge_kind_literal (cast_literal edge_kind_literal all_edge_kinds v)) = v"
  "one_of (map kind_literal all_kinds) v \<Longrightarrow> JString (kind_literal (cast_literal kind_literal all_kinds v)) = v"
  by (rule cast_literal_back; simp add: all_sensitivities_def all_persistences_def all_output_types_def
      all_edge_kinds_def)+

text \<open>Members that may be absent: a text, an integer.\<close>

definition opt_text :: "jsval \<Rightarrow> bool" where "opt_text v = (v = JUndefined \<or> nonblank_val v)"
definition opt_int :: "jsval \<Rightarrow> bool" where
  "opt_int v = (v = JUndefined \<or> (\<exists>x. v = JNumber x \<and> isSafeInteger x))"

lemma opt_text_iff [check_iff]: "if_defined codec_string v pth = [] \<longleftrightarrow> opt_text v"
  by (simp add: if_defined_def opt_text_def shape_checks)

lemma opt_int_iff [check_iff]: "if_defined codec_integer v pth = [] \<longleftrightarrow> opt_int v"
  by (simp add: if_defined_def opt_int_def shape_checks)

definition opt_val :: "('a \<Rightarrow> jsval) \<Rightarrow> (jsval \<Rightarrow> 'a) \<Rightarrow> jsval \<Rightarrow> jsval" where
  "opt_val f c v = (if v = JUndefined then JUndefined else f (c v))"

lemma obj_get_opt_member [simp]:
  "obj_get rest k = JUndefined \<Longrightarrow> obj_get (opt_member k f (cast_opt c v) @ rest) k = opt_val f c v"
  "k' \<noteq> k \<Longrightarrow> obj_get (opt_member k f x @ rest) k' = obj_get rest k'"
  "obj_get (opt_member k f (cast_opt c v)) k = opt_val f c v"
  "k' \<noteq> k \<Longrightarrow> obj_get (opt_member k f x) k' = JUndefined"
  by (simp_all add: opt_member_def cast_opt_def opt_val_def split: option.split)

lemma opt_back:
  "opt_text v \<Longrightarrow> opt_val JString cast_string v = v"
  "opt_int v \<Longrightarrow> opt_val JNumber cast_number v = v"
  by (auto simp: opt_val_def opt_text_def opt_int_def cast_string_back cast_number_def)

lemmas casts_back = cast_string_back cast_number_back opt_back cast_literals_back

lemma member_JObject [simp]: "member (JObject ob) k = obj_get ob k"
  by (simp add: member_def cast_object_def)

lemma source_exact:
  assumes "codec_validateSource v pth = []" and "js_wf v"
  shows "normalizeJson (json_of_source (source_of_json v)) = normalizeJson v"
proof -
  obtain ob where v: "v = JObject ob" using assms(1) by (auto simp: codec_validateSource_def check_iff)
  let ?keys = "[''semanticNodeId'', ''artifactPath'', ''file'', ''line'', ''column'']"
  have "keys_within ob ?keys" "\<forall>k \<in> {''semanticNodeId'', ''artifactPath'', ''file''}. opt_text (obj_get ob k)"
    "\<forall>k \<in> {''line'', ''column''}. opt_int (obj_get ob k)"
    using assms(1) unfolding v codec_validateSource_def by (simp_all add: check_iff)
  with assms(2) show ?thesis
    unfolding v json_of_source_def source_of_json_def
    by (intro normalizeJson_members [where keys = ?keys]) (simp_all add: casts_back)
qed

lemma provider_exact:
  assumes "codec_validateProvider v pth = []" and "js_wf v"
  shows "normalizeJson (json_of_provider (provider_of_json v)) = normalizeJson v"
proof -
  obtain ob where v: "v = JObject ob" using assms(1) by (auto simp: codec_validateProvider_def check_iff)
  let ?keys = "[''interface'', ''implementation'', ''version'']"
  have "keys_within ob ?keys" "\<forall>k \<in> {''interface'', ''implementation'', ''version''}. nonblank_val (obj_get ob k)"
    using assms(1) unfolding v codec_validateProvider_def
    by (simp_all add: check_iff shape_checks codec_sensitivity_def codec_persistence_def)
  with assms(2) show ?thesis
    unfolding v json_of_provider_def provider_of_json_def
    by (intro normalizeJson_members [where keys = ?keys]) (simp_all add: casts_back)
qed

lemma scope_exact:
  assumes "codec_validateScope v pth = []" and "js_wf v"
  shows "normalizeJson (json_of_scope (scope_of_json v)) = normalizeJson v"
proof -
  obtain ob where v: "v = JObject ob" using assms(1) by (auto simp: codec_validateScope_def check_iff)
  let ?keys = "[''connectionDigest'', ''namespace'']"
  have "keys_within ob ?keys" "nonblank_val (obj_get ob ''connectionDigest'')" "opt_text (obj_get ob ''namespace'')"
    using assms(1) unfolding v codec_validateScope_def
    by (simp_all add: check_iff shape_checks codec_sensitivity_def codec_persistence_def)
  with assms(2) show ?thesis
    unfolding v json_of_scope_def scope_of_json_def
    by (intro normalizeJson_members [where keys = ?keys]) (simp_all add: casts_back)
qed

lemma output_exact:
  assumes "codec_validateOutput v pth = []" and "js_wf v"
  shows "normalizeJson (json_of_output (output_of_json v)) = normalizeJson v"
proof -
  obtain ob where v: "v = JObject ob" using assms(1) by (auto simp: codec_validateOutput_def check_iff)
  let ?keys = "[''name'', ''type'', ''sensitivity'', ''persistence'']"
  have "keys_within ob ?keys" "nonblank_val (obj_get ob ''name'')"
    "one_of [''string'', ''number'', ''boolean'', ''json'', ''secretReference'', ''resourceReference'', ''artifactReference'', ''artifactDigest''] (obj_get ob ''type'')"
    "one_of [''public'', ''sensitive''] (obj_get ob ''sensitivity'')"
    "one_of [''state'', ''redacted'', ''reference'', ''ephemeral''] (obj_get ob ''persistence'')"
    using assms(1) unfolding v codec_validateOutput_def
    by (simp_all add: check_iff shape_checks codec_sensitivity_def codec_persistence_def)
  with assms(2) show ?thesis
    unfolding v json_of_output_def output_of_json_def
    by (intro normalizeJson_members [where keys = ?keys]) (simp_all add: casts_back)
qed

lemma lifecycle_exact:
  assumes "codec_validateLifecycle v pth = []" and "js_wf v"
  shows "normalizeJson (json_of_lifecycle (lifecycle_of_json v)) = normalizeJson v"
proof -
  obtain ob where v: "v = JObject ob" using assms(1) by (auto simp: codec_validateLifecycle_def check_iff)
  let ?keys = "[''ownership'', ''deletion'', ''adoption'', ''namespaceNodeId'']"
  have "keys_within ob ?keys" "one_of [''application'', ''shared'', ''external''] (obj_get ob ''ownership'')"
    "one_of [''delete'', ''retain'', ''orphan'', ''none''] (obj_get ob ''deletion'')"
    "one_of [''createOnly'', ''createOrAdoptExact'', ''externalOnly''] (obj_get ob ''adoption'')"
    "opt_text (obj_get ob ''namespaceNodeId'')"
    using assms(1) unfolding v codec_validateLifecycle_def
    by (simp_all add: check_iff shape_checks codec_sensitivity_def codec_persistence_def)
  with assms(2) show ?thesis
    unfolding v json_of_lifecycle_def lifecycle_of_json_def
    by (intro normalizeJson_members [where keys = ?keys]) (simp_all add: casts_back)
qed

lemma edge_exact:
  assumes "codec_validateEdge v pth = []" and "js_wf v"
  shows "normalizeJson (json_of_edge (edge_of_json v)) = normalizeJson v"
proof -
  obtain ob where v: "v = JObject ob" using assms(1) by (auto simp: codec_validateEdge_def check_iff)
  let ?keys = "[''from'', ''to'', ''relationship'', ''output'']"
  have "keys_within ob ?keys" "nonblank_val (obj_get ob ''from'')"
    "nonblank_val (obj_get ob ''to'')"
    "one_of [''requiresOutput'', ''requiresReady'', ''installsApi'', ''owns'', ''retains'', ''publishes'', ''projectsStatus''] (obj_get ob ''relationship'')"
    "opt_text (obj_get ob ''output'')"
    using assms(1) unfolding v codec_validateEdge_def
    by (simp_all add: check_iff shape_checks codec_sensitivity_def codec_persistence_def)
  with assms(2) show ?thesis
    unfolding v json_of_edge_def edge_of_json_def
    by (intro normalizeJson_members [where keys = ?keys]) (simp_all add: casts_back)
qed

lemma array_exact:
  assumes "\<And>i. i < length vs \<Longrightarrow> normalizeJson (f (vs ! i)) = normalizeJson (vs ! i)"
  shows "normalizeJson (JArray (map f vs)) = normalizeJson (JArray vs)"
  using assms by (auto simp: in_set_conv_nth)

lemma js_wf_nth: "js_wf (JArray vs) \<Longrightarrow> i < length vs \<Longrightarrow> js_wf (vs ! i)"
  by simp

lemma outputs_exact:
  assumes "codec_validateOutputs v pth = []" and "js_wf v"
  shows "normalizeJson (JArray (map json_of_output (map output_of_json (cast_array v)))) = normalizeJson v"
proof -
  obtain vs where v: "v = JArray vs" using assms(1) by (auto simp: codec_validateOutputs_def check_iff)
  have "codec_validateOutput (vs ! i) (index_path pth i) = []" if "i < length vs" for i
    using assms(1) that unfolding v codec_validateOutputs_def by (simp add: check_iff)
  then have "normalizeJson (json_of_output (output_of_json (vs ! i))) = normalizeJson (vs ! i)" if "i < length vs" for i
    using that assms(2) v js_wf_nth output_exact by blast
  then show ?thesis
    using array_exact [of vs "json_of_output \<circ> output_of_json"] unfolding v by (simp add: cast_array_def)
qed

lemma capabilities_exact:
  assumes "codec_validateCapabilities v pth = []" and "js_wf v"
  shows "normalizeJson (json_of_capabilities (capabilities_of_json v)) = normalizeJson v"
proof -
  obtain ob where v: "v = JObject ob" using assms(1) by (auto simp: codec_validateCapabilities_def check_iff)
  let ?keys = "[''strategies'', ''alchemy'']"
  have within: "keys_within ob ?keys" and alchemy: "obj_get ob ''alchemy'' = JBool True"
    and "\<exists>vs. obj_get ob ''strategies'' = JArray vs \<and> (\<forall>i < length vs. one_of [''direct'', ''kro''] (vs ! i))"
    using assms(1) unfolding v codec_validateCapabilities_def by (simp_all add: check_iff shape_checks)
  then obtain vs where vs: "obj_get ob ''strategies'' = JArray vs" "\<forall>i < length vs. one_of [''direct'', ''kro''] (vs ! i)"
    by blast
  have "map (JString \<circ> strategy_literal) (map (cast_literal strategy_literal [StrategyDirect, StrategyKro]) vs) = vs"
    using vs(2) by (intro nth_equalityI) (simp_all add: cast_literals_back)
  with within alchemy vs(1) assms(2) show ?thesis
    unfolding v json_of_capabilities_def capabilities_of_json_def
    by (intro normalizeJson_members [where keys = ?keys]) (simp_all add: cast_array_def)
qed

lemma input_kind:
  assumes "codec_validateInput v pth = []"
  obtains ob k where "v = JObject ob" and "obj_get ob ''kind'' = JString k"
    and "k \<in> {''literal'', ''output'', ''secretReference''}"
    and "fst (enumString (obj_get ob ''kind'') [''literal'', ''output'', ''secretReference''] (pth @ ''.kind'')) = Some k"
proof -
  obtain ob where v: "v = JObject ob" using assms by (auto simp: codec_validateInput_def check_iff)
  have ok: "snd (enumString (obj_get ob ''kind'') [''literal'', ''output'', ''secretReference''] (pth @ ''.kind'')) = []"
    using assms unfolding v codec_validateInput_def by (simp add: check_iff split_beta Let_def)
  then obtain k where "obj_get ob ''kind'' = JString k" "k \<in> {''literal'', ''output'', ''secretReference''}"
    by (auto simp: enum_check.check_spec one_of_def)
  with that v enumString_result [OF ok] show ?thesis by blast
qed

lemma input_exact:
  assumes "codec_validateInput v pth = []" and "js_wf v"
  shows "normalizeJson (json_of_input (input_of_json v)) = normalizeJson v"
proof -
  obtain ob k where v: "v = JObject ob" and k: "obj_get ob ''kind'' = JString k"
    and cases: "k \<in> {''literal'', ''output'', ''secretReference''}"
    and kind: "fst (enumString (obj_get ob ''kind'') [''literal'', ''output'', ''secretReference''] (pth @ ''.kind'')) = Some k"
    using input_kind [OF assms(1)] by metis
  note checks = assms(1) [unfolded v codec_validateInput_def] kind
  have wf: "distinct (map fst ob)" using assms(2) v by simp
  consider "k = ''literal''" | "k = ''output''" | "k = ''secretReference''" using cases by blast
  then show ?thesis
  proof cases
    case 1
    have "keys_within ob [''kind'', ''value'']"
      using checks by (simp add: check_iff split_beta Let_def 1)
    then show ?thesis
      unfolding v input_of_json_def using wf k 1
      by (simp, intro normalizeJson_members [where keys = "[''kind'', ''value'']"]) simp_all
  next
    case 2
    let ?keys = "[''kind'', ''nodeId'', ''output'', ''sensitivity'', ''persistence'']"
    have "keys_within ob ?keys" "nonblank_val (obj_get ob ''nodeId'')" "nonblank_val (obj_get ob ''output'')"
      "one_of [''public'', ''sensitive''] (obj_get ob ''sensitivity'')"
      "one_of [''state'', ''redacted'', ''reference'', ''ephemeral''] (obj_get ob ''persistence'')"
      using checks by (simp_all add: check_iff split_beta Let_def 2 shape_checks codec_sensitivity_def codec_persistence_def)
    then show ?thesis
      unfolding v input_of_json_def using wf k 2
      by (simp, intro normalizeJson_members [where keys = ?keys]) (simp_all add: casts_back)
  next
    case 3
    let ?keys = "[''kind'', ''nodeId'', ''key'']"
    have "keys_within ob ?keys" "nonblank_val (obj_get ob ''nodeId'')" "opt_text (obj_get ob ''key'')"
      using checks by (simp_all add: check_iff split_beta Let_def 3 shape_checks)
    then show ?thesis
      unfolding v input_of_json_def using wf k 3
      by (simp, intro normalizeJson_members [where keys = ?keys]) (simp_all add: casts_back)
  qed
qed

lemma obj_get_map: "obj_get (map (apsnd f) ob) k = (if obj_has ob k then f (obj_get ob k) else JUndefined)"
  by (induction ob) auto

lemma obj_get_Object_entries:
  "distinct (map fst ob) \<Longrightarrow> obj_get (Object_entries ob) k = obj_get ob k"
proof -
  assume d: "distinct (map fst ob)"
  have "mset (map fst (Object_entries ob)) = mset (map fst ob)" by simp
  with d have "distinct (map fst (Object_entries ob))" by (metis mset_eq_imp_distinct_iff)
  with d have "map_of (Object_entries ob) = map_of ob" by (subst map_of_inject_set) simp_all
  then show ?thesis by (simp add: obj_get_def)
qed

lemma obj_has_Object_entries [simp]: "obj_has (Object_entries ob) k = obj_has ob k"
  by (simp add: obj_has_def)

lemma inputs_exact:
  assumes "codec_validateInputs v pth = []" and "js_wf v"
  shows "normalizeJson (JObject (map (apsnd json_of_input) (map (apsnd input_of_json) (Object_entries (cast_object v))))) =
    normalizeJson v"
proof -
  obtain ob where v: "v = JObject ob" using assms(1) by (auto simp: codec_validateInputs_def check_iff)
  have wf: "distinct (map fst ob)" using assms(2) v by simp
  let ?f = "json_of_input \<circ> input_of_json"
  have checked: "codec_validateInput (obj_get ob k) (pth @ ''.'' @ k) = []" if "obj_has ob k" for k
  proof -
    have "(k, obj_get ob k) \<in> set ob"
      using that wf by (auto simp: obj_has_def obj_get_def split: option.splits dest: map_of_SomeD)
    then show ?thesis using assms(1) unfolding v codec_validateInputs_def by (force simp: check_iff)
  qed
  have "normalizeJson (JObject (map (apsnd ?f) (Object_entries ob))) = normalizeJson (JObject ob)"
  proof (rule normalizeJson_ext)
    have "mset (map fst (Object_entries ob)) = mset (map fst ob)" by simp
    with wf have "distinct (map fst (Object_entries ob))" by (metis mset_eq_imp_distinct_iff)
    then show "distinct (map fst (map (apsnd ?f) (Object_entries ob)))" by (simp add: comp_def)
    fix k show "normalizeJson (obj_get (map (apsnd ?f) (Object_entries ob)) k) = normalizeJson (obj_get ob k)"
      using input_exact [OF checked js_wf_obj_get] assms(2) v obj_get_absent [of ob k]
      by (simp add: obj_get_map obj_get_Object_entries wf)
  qed (rule wf)
  then show ?thesis unfolding v by (simp add: cast_object_def comp_def apsnd_def map_prod_def split_def)
qed

lemma connection_exact:
  assumes "validateConnection v pth = []" and "js_wf v"
  shows "normalizeJson (JObject
     [(''provider'', JString (conn_provider (connection_of_json v))),
      (''cluster'', JString (conn_cluster (connection_of_json v))),
      (''digest'', JString (conn_digest (connection_of_json v)))]) = normalizeJson v"
proof -
  obtain ob where v: "v = JObject ob" using assms(1) by (auto simp: validateConnection_def check_iff)
  let ?keys = "[''provider'', ''cluster'', ''digest'']"
  have "keys_within ob ?keys" "\<forall>k \<in> {''provider'', ''cluster'', ''digest''}. nonblank_val (obj_get ob k)"
    using assms(1) unfolding v validateConnection_def by (simp_all add: check_iff shape_checks)
  with assms(2) show ?thesis
    unfolding v connection_of_json_def
    by (intro normalizeJson_members [where keys = ?keys]) (simp_all add: casts_back)
qed

lemma identity_exact:
  assumes "validateIdentity v pth = []" and "js_wf v"
  shows "normalizeJson (json_of_identity (identity_of_json v)) = normalizeJson v"
proof -
  obtain ob where v: "v = JObject ob" using assms(1) by (auto simp: validateIdentity_def check_iff)
  let ?keys = "[''connection'', ''application'', ''controlPlaneNamespace'', ''instance'', ''profile'']"
  have "keys_within ob ?keys" and conn: "validateConnection (obj_get ob ''connection'') (pth @ ''.connection'') = []"
    and "\<forall>k \<in> {''application'', ''controlPlaneNamespace'', ''instance'', ''profile''}. nonblank_val (obj_get ob k)"
    using assms(1) unfolding v validateIdentity_def by (simp_all add: check_iff shape_checks)
  then show ?thesis
    using assms(2) connection_exact [OF conn js_wf_obj_get [OF assms(2) [unfolded v]]]
    unfolding v json_of_identity_def identity_of_json_def
    by (intro normalizeJson_members [where keys = ?keys]) (simp_all add: casts_back)
qed

lemma opt_object_back: "v = JUndefined \<or> (\<exists>ob. v = JObject ob) \<Longrightarrow> opt_val JObject cast_object v = v"
  by (auto simp: opt_val_def cast_object_def)

lemma metadata_exact:
  assumes "validateMetadata v = []" and "js_wf v"
  shows "normalizeJson (json_of_metadata (metadata_of_json v)) = normalizeJson v"
proof -
  obtain ob where v: "v = JObject ob" using assms(1) by (auto simp: validateMetadata_def check_iff Let_def)
  let ?keys = "[''identity'', ''mode'', ''strategy'', ''sourceGraphDigest'', ''compilerVersion'', ''profileTransition'']"
  have "keys_within ob ?keys" and ident: "validateIdentity (obj_get ob ''identity'') ''$.metadata.identity'' = []"
    and mode: "one_of [''fresh''] (obj_get ob ''mode'')" "one_of [''direct'', ''kro''] (obj_get ob ''strategy'')"
    "nonblank_val (obj_get ob ''sourceGraphDigest'')" "nonblank_val (obj_get ob ''compilerVersion'')"
    and transition: "obj_get ob ''profileTransition'' \<noteq> JUndefined \<Longrightarrow>
      validateProfileTransition (obj_get ob ''profileTransition'') = []"
    using assms(1) unfolding v validateMetadata_def
    by (auto simp: check_iff shape_checks Let_def split: if_splits)
  moreover have "obj_get ob ''profileTransition'' = JUndefined \<or> (\<exists>t. obj_get ob ''profileTransition'' = JObject t)"
    using transition by (auto simp: validateProfileTransition_def check_iff Let_def)
  moreover have "obj_get ob ''mode'' = JString ''fresh''" using mode(1) by (simp add: one_of_def)
  ultimately show ?thesis
    using assms(2) identity_exact [OF ident js_wf_obj_get [OF assms(2) [unfolded v]]]
    unfolding v json_of_metadata_def metadata_of_json_def
    by (intro normalizeJson_members [where keys = ?keys]) (simp_all add: casts_back opt_object_back)
qed

lemma node_exact:
  assumes "codec_validateNode v pth = []" and "js_wf v"
  shows "normalizeJson (json_of_node (node_of_json v)) = normalizeJson v"
proof -
  obtain ob where v: "v = JObject ob" using assms(1) by (auto simp: codec_validateNode_def check_iff)
  let ?keys = "[''id'', ''kind'', ''contractVersion'', ''source'', ''provider'', ''scope'', ''capabilities'',
     ''configurationDigest'', ''inputs'', ''outputs'', ''lifecycle'', ''spec'']"
  note wf = js_wf_obj_get [OF assms(2) [unfolded v]]
  note checks = assms(1) [unfolded v codec_validateNode_def]
  have keys: "keys_within ob ?keys" and id: "nonblank_val (obj_get ob ''id'')"
    and kind: "one_of (map kind_literal all_kinds) (obj_get ob ''kind'')"
    and version: "\<exists>x. obj_get ob ''contractVersion'' = JNumber x \<and> isSafeInteger x"
    and digest: "nonblank_val (obj_get ob ''configurationDigest'')"
    and parts: "codec_validateSource (obj_get ob ''source'') (pth @ ''.source'') = []"
      "codec_validateProvider (obj_get ob ''provider'') (pth @ ''.provider'') = []"
      "codec_validateScope (obj_get ob ''scope'') (pth @ ''.scope'') = []"
      "codec_validateCapabilities (obj_get ob ''capabilities'') (pth @ ''.capabilities'') = []"
      "codec_validateInputs (obj_get ob ''inputs'') (pth @ ''.inputs'') = []"
      "codec_validateOutputs (obj_get ob ''outputs'') (pth @ ''.outputs'') = []"
      "codec_validateLifecycle (obj_get ob ''lifecycle'') (pth @ ''.lifecycle'') = []"
    and spec: "\<exists>sp. obj_get ob ''spec'' = JObject sp"
    using checks by (auto simp: check_iff shape_checks split_beta Let_def codec_validateSpec_def)
  have "JObject (cast_object (obj_get ob ''spec'')) = obj_get ob ''spec''"
    using spec by (auto simp: cast_object_def)
  then show ?thesis
    using assms(2) keys id kind digest cast_number_back [OF version]
      source_exact [OF parts(1) wf] provider_exact [OF parts(2) wf] scope_exact [OF parts(3) wf]
      capabilities_exact [OF parts(4) wf] inputs_exact [OF parts(5) wf] outputs_exact [OF parts(6) wf]
      lifecycle_exact [OF parts(7) wf]
    unfolding v json_of_node_def node_of_json_def
    by (intro normalizeJson_members [where keys = ?keys]) (simp_all add: casts_back)
qed

lemma graph_exact:
  assumes "validateGraphShape v = []" and "js_wf v"
  shows "normalizeJson (json_of_graph (graph_of_json v)) = normalizeJson v"
proof -
  obtain ob where v: "v = JObject ob" using assms(1) by (auto simp: validateGraphShape_def check_iff)
  let ?keys = "[''apiVersion'', ''kind'', ''metadata'', ''nodes'', ''edges'']"
  note wf = js_wf_obj_get [OF assms(2) [unfolded v]]
  have keys: "keys_within ob ?keys"
    and header: "obj_get ob ''apiVersion'' = JString ''applik8s.deploymentGraph/v1alpha1''"
      "obj_get ob ''kind'' = JString ''ApplicationDeploymentGraph''"
    and meta: "validateMetadata (obj_get ob ''metadata'') = []"
    and "\<exists>ns. obj_get ob ''nodes'' = JArray ns \<and> (\<forall>i < length ns. codec_validateNode (ns ! i) (index_path ''$.nodes'' i) = [])"
    and "\<exists>es. obj_get ob ''edges'' = JArray es \<and> (\<forall>i < length es. codec_validateEdge (es ! i) (index_path ''$.edges'' i) = [])"
    using assms(1) unfolding v validateGraphShape_def by (simp_all add: check_iff shape_checks)
  then obtain ns es where ns: "obj_get ob ''nodes'' = JArray ns"
    and nodes: "\<forall>i < length ns. codec_validateNode (ns ! i) (index_path ''$.nodes'' i) = []"
    and es: "obj_get ob ''edges'' = JArray es"
    and edges: "\<forall>i < length es. codec_validateEdge (es ! i) (index_path ''$.edges'' i) = []" by blast
  have "normalizeJson (JArray (map (json_of_node \<circ> node_of_json) ns)) = normalizeJson (JArray ns)"
    using nodes js_wf_nth [OF wf [of "''nodes''", unfolded ns]] node_exact by (intro array_exact) (metis comp_apply)
  moreover have "normalizeJson (JArray (map (json_of_edge \<circ> edge_of_json) es)) = normalizeJson (JArray es)"
    using edges js_wf_nth [OF wf [of "''edges''", unfolded es]] edge_exact by (intro array_exact) (metis comp_apply)
  ultimately show ?thesis
    using assms(2) keys header metadata_exact [OF meta wf] ns es
    unfolding v json_of_graph_def graph_of_json_def
    by (intro normalizeJson_members [where keys = ?keys]) (simp_all add: cast_array_def cast_string_def)
qed

section \<open>The values JSON.parse builds\<close>

lemma js_wf_update:
  assumes "js_wf (JObject ob)" and "js_wf v"
  shows "js_wf (JObject (AList.update k v ob))"
proof -
  have "js_wf w" if "(k', w) \<in> set (AList.update k v ob)" for k' w
  proof -
    have "(k', w) \<in> set ob \<or> w = v" using that by (induction ob) (auto split: if_splits)
    with assms show ?thesis by auto
  qed
  then show ?thesis using assms(1) by (auto simp: distinct_update)
qed

lemma parse_atom_wf: "parse_atom rd s = Some (v, r) \<Longrightarrow> js_wf v"
  by (auto simp: parse_atom_def split: option.splits)

lemma parse_wf:
  "parse_value rd n s = Some (v, r) \<Longrightarrow> js_wf v"
  "parse_elements rd n acc s = Some (v, r) \<Longrightarrow> \<forall>w \<in> set acc. js_wf w \<Longrightarrow> js_wf v"
  "parse_members rd n ob s = Some (v, r) \<Longrightarrow> js_wf (JObject ob) \<Longrightarrow> js_wf v"
proof (induction rd n s and rd n acc s and rd n ob s arbitrary: v r and v r and v r
    rule: parse_value_parse_elements_parse_members.induct)
  case (2 rd n s)
  then show ?case by (auto split: list.splits if_splits dest: parse_atom_wf)
next
  case (4 rd n acc s)
  then show ?case by (auto split: option.splits list.splits if_splits)
next
  case (6 rd n acc s)
  then show ?case
    by (auto split: option.splits list.splits if_splits simp del: js_wf.simps) (metis js_wf_update)+
qed simp_all

lemma JSON_parse_wf: "JSON_parse rd s = Some v \<Longrightarrow> js_wf v"
  by (auto simp: JSON_parse_def split: option.splits prod.splits if_splits dest: parse_wf(1)
      simp del: parse_value.simps)

section \<open>Properties\<close>

text \<open>The value the decoder works on: the parsed text, or the input itself.\<close>

definition input_value :: "(string \<Rightarrow> js_number option) \<Rightarrow> jsval \<Rightarrow> jsval option" where
  "input_value rd input = (case input of JString source \<Rightarrow> JSON_parse rd source | v \<Rightarrow> Some v)"

lemma decode_via_value:
  "decodeApplicationDeploymentGraph cause rd input =
     (case input_value rd input of
        None \<Rightarrow> Inl [''input is not valid JSON: '' @ cause (cast_string input)]
      | Some v \<Rightarrow> decode_value v)"
  by (cases input) (simp_all add: decodeApplicationDeploymentGraph_def input_value_def cast_string_def split: option.split)

lemma input_value_wf: "js_wf input \<Longrightarrow> input_value rd input = Some v \<Longrightarrow> js_wf v"
  by (cases input) (auto simp: input_value_def dest: JSON_parse_wf)

lemma decode_value_Inr:
  "decode_value v = Inr j \<longleftrightarrow>
     validateGraphShape v = [] \<and> graph_ok (graph_of_json v) \<and> j = normalizeApplicationDeploymentGraph (graph_of_json v)"
  by (auto simp: decode_value_def Let_def valid_iff_graph_ok)

lemma decode_value_Inl: "decode_value v = Inl ds \<Longrightarrow> ds \<noteq> []"
  by (auto simp: decode_value_def Let_def valid_iff_no_diagnostics split: if_splits)

text \<open>
  C6: a graph that the decoder returns is the canonical form of a valid typed graph, and that typed
  graph is the input: up to normalization it has exactly the members the input has, so the cast
  after the shape check adds and loses nothing.
\<close>

theorem decode_sound:
  assumes "js_wf input" and "decodeApplicationDeploymentGraph cause rd input = Inr j"
  shows "\<exists>v g. input_value rd input = Some v \<and> validateGraphShape v = [] \<and>
    result_valid (validateApplicationDeploymentGraph g) \<and>
    normalizeJson (json_of_graph g) = normalizeJson v \<and>
    j = normalizeApplicationDeploymentGraph g"
proof -
  obtain v where v: "input_value rd input = Some v" "decode_value v = Inr j"
    using assms(2) by (auto simp: decode_via_value split: option.splits)
  have "normalizeJson (json_of_graph (graph_of_json v)) = normalizeJson v"
    using graph_exact input_value_wf [OF assms(1) v(1)] v(2) by (simp add: decode_value_Inr)
  with v show ?thesis by (auto simp: decode_value_Inr valid_iff_graph_ok)
qed

lemma example_decodes:
  "js_wf (json_of_graph example_graph) \<and>
   (case decodeApplicationDeploymentGraph (\<lambda>_. []) example_rd (json_of_graph example_graph) of
      Inr j \<Rightarrow> True | Inl ds \<Rightarrow> False)"
  by code_simp

theorem decode_sound_witness:
  "\<exists>j v g. decodeApplicationDeploymentGraph (\<lambda>_. []) example_rd (json_of_graph example_graph) = Inr j \<and>
     input_value example_rd (json_of_graph example_graph) = Some v \<and> validateGraphShape v = [] \<and>
     result_valid (validateApplicationDeploymentGraph g) \<and>
     normalizeJson (json_of_graph g) = normalizeJson v \<and> j = normalizeApplicationDeploymentGraph g"
proof -
  obtain j where "decodeApplicationDeploymentGraph (\<lambda>_. []) example_rd (json_of_graph example_graph) = Inr j"
    using example_decodes by (auto split: sum.splits)
  with decode_sound [OF conjunct1 [OF example_decodes]] show ?thesis by blast
qed

end

