(* ===== verification/Output_Reference.thy ===== *)
theory Output_Reference
  imports Utf8
begin

text \<open>
  Placeholders for the outputs of other nodes, \<^verbatim>\<open>packages/deployment-contract/src/output-reference.ts\<close>,
  and the two functions of the language they are built with. \<open>decodeURIComponent\<close> is modelled on
  the code units below 256 of the development's strings: an escape of another character is refused,
  as a malformed one is.
\<close>

section \<open>URI components\<close>

definition unreserved :: "char \<Rightarrow> bool" where
  "unreserved c = (let n = of_char c :: nat in
     48 \<le> n \<and> n \<le> 57 \<or> 65 \<le> n \<and> n \<le> 90 \<or> 97 \<le> n \<and> n \<le> 122 \<or> c \<in> set ''-_.!~*()'' \<or> n = 39)"

definition upper_hex :: "nat \<Rightarrow> char" where
  "upper_hex d = ''0123456789ABCDEF'' ! d"

definition percent :: "nat \<Rightarrow> string" where
  "percent b = [CHR ''%'', upper_hex (b div 16), upper_hex (b mod 16)]"

definition encode_char :: "char \<Rightarrow> string" where
  "encode_char c =
     (if unreserved c then [c] else concat (map (percent \<circ> nat) (utf8_char (of_char c))))"

definition encodeURIComponent :: "string \<Rightarrow> string" where
  "encodeURIComponent s = concat (map encode_char s)"

definition hex_digit_value :: "char \<Rightarrow> nat option" where
  "hex_digit_value c =
     (let n = of_char c :: nat in
      if 48 \<le> n \<and> n \<le> 57 then Some (n - 48)
      else if 65 \<le> n \<and> n \<le> 70 then Some (n - 55)
      else if 97 \<le> n \<and> n \<le> 102 then Some (n - 87)
      else None)"

text \<open>One escaped byte at the front of a text.\<close>

fun take_byte :: "string \<Rightarrow> (nat \<times> string) option" where
  "take_byte (p # a # b # r) =
     (if p = CHR ''%'' then
        (case (hex_digit_value a, hex_digit_value b) of
           (Some x, Some y) \<Rightarrow> Some (16 * x + y, r)
         | _ \<Rightarrow> None)
      else None)"
| "take_byte _ = None"

text \<open>One character: an unescaped one, an escaped ASCII one, or the two bytes of one below 256.\<close>

definition decode_char :: "string \<Rightarrow> (char \<times> string) option" where
  "decode_char s =
     (case s of
        [] \<Rightarrow> None
      | c # cs \<Rightarrow>
          (if c \<noteq> CHR ''%'' then Some (c, cs)
           else (case take_byte s of
             None \<Rightarrow> None
           | Some (b, r) \<Rightarrow>
               (if b < 128 then Some (char_of b, r)
                else if b = 194 \<or> b = 195 then
                  (case take_byte r of
                     None \<Rightarrow> None
                   | Some (d, r') \<Rightarrow>
                       (if 128 \<le> d \<and> d < 192 then Some (char_of ((b - 192) * 64 + (d - 128)), r') else None))
                else None))))"

fun decode_fuel :: "nat \<Rightarrow> string \<Rightarrow> string option" where
  "decode_fuel n [] = Some []"
| "decode_fuel 0 (c # cs) = None"
| "decode_fuel (Suc n) (c # cs) =
     (case decode_char (c # cs) of
        None \<Rightarrow> None
      | Some (d, r) \<Rightarrow> map_option (Cons d) (decode_fuel n r))"

text \<open>Every step consumes at least one character, so the length of the text is enough fuel.\<close>

definition decodeURIComponent :: "string \<Rightarrow> string option" where
  "decodeURIComponent s = decode_fuel (length s) s"

section \<open>Output references\<close>

definition prefix :: string where "prefix = ''applik8s.deployment-output/v1:''"
definition optionalPrefix :: string where "optionalPrefix = ''applik8s.deployment-output-optional/v1:''"

record ApplicationDeploymentOutputReference =
  ref_nodeId :: string
  ref_output :: string
  ref_optional :: bool

definition applicationDeploymentOutputReference :: "string \<Rightarrow> string \<Rightarrow> string + string" where
  "applicationDeploymentOutputReference nodeId output =
     (if trim nodeId = [] \<or> trim output = []
      then Inl ''Deployment output references require nodeId and output.''
      else Inr (prefix @ encodeURIComponent nodeId @ '':'' @ encodeURIComponent output))"

definition applicationOptionalDeploymentOutputReference :: "string \<Rightarrow> string \<Rightarrow> string + string" where
  "applicationOptionalDeploymentOutputReference nodeId output =
     (if trim nodeId = [] \<or> trim output = []
      then Inl ''Deployment output references require nodeId and output.''
      else Inr (optionalPrefix @ encodeURIComponent nodeId @ '':'' @ encodeURIComponent output))"

definition malformed :: "string \<Rightarrow> string" where
  "malformed v = ''Malformed deployment output reference '' @ v @ ''.''"

text \<open>\<open>Inr None\<close> is the result \<open>undefined\<close>, \<open>Inl\<close> a thrown error.\<close>

definition parseApplicationDeploymentOutputReference ::
  "string \<Rightarrow> string + ApplicationDeploymentOutputReference option" where
  "parseApplicationDeploymentOutputReference v =
     (let optional = (take (length optionalPrefix) v = optionalPrefix) in
      if \<not> optional \<and> take (length prefix) v \<noteq> prefix then Inr None
      else
        (let encoded = drop (if optional then length optionalPrefix else length prefix) v;
             separator = length (takeWhile (\<lambda>c. c \<noteq> CHR '':'') encoded)
         in if separator = length encoded \<or> separator < 1 \<or> separator = length encoded - 1
            then Inl (malformed v)
            else (case (decodeURIComponent (take separator encoded),
                        decodeURIComponent (drop (separator + 1) encoded)) of
               (Some nodeId, Some output) \<Rightarrow>
                 (if trim nodeId = [] \<or> trim output = [] then Inl (malformed v)
                  else Inr (Some \<lparr>ref_nodeId = nodeId, ref_output = output, ref_optional = optional\<rparr>))
             | _ \<Rightarrow> Inl ''URI malformed'')))"

section \<open>Components are decoded back\<close>

lemma hex_digit_value_upper: "d < 16 \<Longrightarrow> hex_digit_value (upper_hex d) = Some d"
proof -
  have "list_all (\<lambda>d. hex_digit_value (upper_hex d) = Some d) [0..<16]" by code_simp
  then show "d < 16 \<Longrightarrow> hex_digit_value (upper_hex d) = Some d" by (simp add: list_all_iff)
qed

lemma take_byte_percent: "b < 256 \<Longrightarrow> take_byte (percent b @ r) = Some (b, r)"
  by (simp add: percent_def hex_digit_value_upper less_mult_imp_div_less)

lemma utf8_low: "n < 128 \<Longrightarrow> utf8_char (int n) = [int n]"
  by (simp add: utf8_char_def)

lemma utf8_high:
  assumes "128 \<le> n" and "n < 256"
  shows "map nat (utf8_char (int n)) = [192 + n div 64, 128 + n mod 64]"
proof -
  have "utf8_char (int n) = [0xc0 + int n div 64, 0x80 + int n mod 64]"
    using assms utf8_char_arith [of "int n"] by simp
  moreover have "0xc0 + int n div 64 = int (192 + n div 64)" "0x80 + int n mod 64 = int (128 + n mod 64)"
    by (simp_all add: zdiv_int zmod_int)
  ultimately show ?thesis by (simp only: list.map nat_int)
qed

lemma percent_start: "percent b @ r = CHR ''%'' # tl (percent b @ r)"
  by (simp add: percent_def)

lemma decode_percent:
  assumes "b < 256"
  shows "decode_char (percent b @ r) =
    (if b < 128 then Some (char_of b, r)
     else if b = 194 \<or> b = 195 then
       (case take_byte r of
          None \<Rightarrow> None
        | Some (d, r') \<Rightarrow>
            (if 128 \<le> d \<and> d < 192 then Some (char_of ((b - 192) * 64 + (d - 128)), r') else None))
     else None)"
  unfolding decode_char_def
  by (subst (1) percent_start) (simp add: take_byte_percent [OF assms])

lemma encode_char_cases:
  defines "n c \<equiv> (of_char c :: nat)"
  shows "unreserved c \<and> encode_char c = [c] \<or>
    n c < 128 \<and> encode_char c = percent (n c) \<or>
    128 \<le> n c \<and> encode_char c = percent (192 + n c div 64) @ percent (128 + n c mod 64)"
proof -
  have n: "n c < 256" "(of_char c :: int) = int (n c)"
    by (simp_all add: n_def of_nat_of_char)
  consider "unreserved c" | "\<not> unreserved c" "n c < 128" | "\<not> unreserved c" "128 \<le> n c" by linarith
  then show ?thesis
  proof cases
    case 3
    then have "encode_char c = percent (192 + n c div 64) @ percent (128 + n c mod 64)"
      using utf8_high [OF 3(2) n(1)] by (simp add: encode_char_def n(2) flip: map_map)
    with 3 show ?thesis by blast
  qed (simp_all add: encode_char_def n(2) utf8_low)
qed

interpretation uri: prefix_codec encode_char decode_char "\<lambda>_. True"
proof
  fix c rest
  define n where "n = (of_char c :: nat)"
  have n: "n < 256" "c = char_of n" by (simp_all add: n_def)
  consider "unreserved c" "encode_char c = [c]" | "n < 128" "encode_char c = percent n" |
    "128 \<le> n" "encode_char c = percent (192 + n div 64) @ percent (128 + n mod 64)"
    using encode_char_cases [of c] unfolding n_def by blast
  then show "decode_char (encode_char c @ rest) = Some (c, rest)"
  proof cases
    case 1
    then have "c \<noteq> CHR ''%''" by (auto simp: unreserved_def)
    with 1 show ?thesis by (simp add: decode_char_def)
  next
    case 2
    with n show ?thesis by (simp add: decode_percent)
  next
    case 3
    moreover have "192 + n div 64 = 194 \<or> 192 + n div 64 = 195" using 3 n(1) by linarith
    moreover have "n div 64 = q \<Longrightarrow> q * 64 + n mod 64 = n" for q
      using div_mult_mod_eq [of n 64] by (simp only:)
    from this [of 2] this [of 3] have "n div 64 = 2 \<Longrightarrow> 128 + n mod 64 = n" "n div 64 = 3 \<Longrightarrow> 192 + n mod 64 = n"
      by simp_all
    ultimately show ?thesis
      using n(2) by (auto simp: decode_percent take_byte_percent)
  qed
qed

lemma encode_char_nonempty: "encode_char c \<noteq> []"
proof -
  have "utf8_char x \<noteq> []" for x by (rule utf8_char_nonempty)
  then show ?thesis by (auto simp: encode_char_def percent_def)
qed

lemma decode_fuel_encode: "length s \<le> n \<Longrightarrow> decode_fuel n (encodeURIComponent s) = Some s"
proof (induction s arbitrary: n)
  case Nil
  then show ?case by (simp add: encodeURIComponent_def)
next
  case (Cons c s)
  then obtain m where n: "n = Suc m" "length s \<le> m" by (cases n) auto
  obtain e es where e: "encode_char c = e # es" using encode_char_nonempty [of c] by (cases "encode_char c") auto
  have "decode_char (encode_char c @ encodeURIComponent s) = Some (c, encodeURIComponent s)"
    by (rule uri.dec_enc) simp
  with n e Cons.IH [OF n(2)] show ?case by (simp add: encodeURIComponent_def)
qed

lemma decode_encode: "decodeURIComponent (encodeURIComponent s) = Some s"
proof -
  have "length s \<le> length (encodeURIComponent s)"
  proof (induction s)
    case (Cons c s)
    have "1 \<le> length (encode_char c)" using encode_char_nonempty [of c] by (cases "encode_char c") auto
    with Cons show ?case by (simp add: encodeURIComponent_def)
  qed simp
  then show ?thesis unfolding decodeURIComponent_def by (rule decode_fuel_encode)
qed

lemma upper_hex_no_colon: "d < 16 \<Longrightarrow> CHR '':'' \<noteq> upper_hex d"
proof -
  have "list_all (\<lambda>d. CHR '':'' \<noteq> upper_hex d) [0..<16]" by code_simp
  then show "d < 16 \<Longrightarrow> CHR '':'' \<noteq> upper_hex d" by (simp add: list_all_iff)
qed

lemma percent_no_colon: "b < 256 \<Longrightarrow> CHR '':'' \<notin> set (percent b)"
  using upper_hex_no_colon [of "b div 16"] upper_hex_no_colon [of "b mod 16"]
  by (simp add: percent_def less_mult_imp_div_less)

lemma encode_no_colon: "CHR '':'' \<notin> set (encodeURIComponent s)"
proof -
  have "CHR '':'' \<notin> set (encode_char c)" for c
  proof -
    have "(of_char c :: nat) < 256" by simp
    then have "192 + (of_char c :: nat) div 64 < 256" "128 + (of_char c :: nat) mod 64 < 256" by linarith+
    then show ?thesis
      using encode_char_cases [of c] by (auto simp: percent_no_colon unreserved_def)
  qed
  then show ?thesis by (simp add: encodeURIComponent_def)
qed

lemma encode_nonempty: "s \<noteq> [] \<Longrightarrow> encodeURIComponent s \<noteq> []"
  using encode_char_nonempty by (cases s) (simp_all add: encodeURIComponent_def)

lemma parse_encoded:
  assumes "v = pre @ encodeURIComponent nodeId @ '':'' @ encodeURIComponent output"
    and "trim nodeId \<noteq> []" and "trim output \<noteq> []"
    and "pre = (if opt then optionalPrefix else prefix)"
  shows "parseApplicationDeploymentOutputReference v =
    Inr (Some \<lparr>ref_nodeId = nodeId, ref_output = output, ref_optional = opt\<rparr>)"
proof -
  let ?n = "encodeURIComponent nodeId" and ?o = "encodeURIComponent output"
  have "nodeId \<noteq> []" "output \<noteq> []" using assms(2,3) by (auto simp: trim_def)
  then have ne: "?n \<noteq> []" "?o \<noteq> []" by (simp_all add: encode_nonempty)
  have sep: "takeWhile (\<lambda>c. c \<noteq> CHR '':'') (?n @ CHR '':'' # ?o) = ?n"
    using encode_no_colon [of nodeId] by (subst takeWhile_append2) auto
  have "take (length optionalPrefix) v = optionalPrefix \<longleftrightarrow> opt"
    using assms(1,4) by (cases opt) (simp_all add: prefix_def optionalPrefix_def)
  moreover have "opt \<or> take (length prefix) v = prefix"
    using assms(1,4) by simp
  moreover have "drop (if opt then length optionalPrefix else length prefix) v = ?n @ CHR '':'' # ?o"
    using assms(1,4) by (cases opt) simp_all
  ultimately show ?thesis
    unfolding parseApplicationDeploymentOutputReference_def Let_def
    using sep ne assms(2,3) by (simp add: decode_encode)
qed

section \<open>Properties\<close>

text \<open>
  C16: parsing a reference returns the node and the output it was built from, and whether it is
  optional; building one fails exactly on a blank node or output.
\<close>

theorem output_reference_round_trip:
  "(case applicationDeploymentOutputReference nodeId output of
      Inr text \<Rightarrow> trim nodeId \<noteq> [] \<and> trim output \<noteq> [] \<and>
        parseApplicationDeploymentOutputReference text =
          Inr (Some \<lparr>ref_nodeId = nodeId, ref_output = output, ref_optional = False\<rparr>)
    | Inl e \<Rightarrow> trim nodeId = [] \<or> trim output = []) \<and>
   (case applicationOptionalDeploymentOutputReference nodeId output of
      Inr text \<Rightarrow> trim nodeId \<noteq> [] \<and> trim output \<noteq> [] \<and>
        parseApplicationDeploymentOutputReference text =
          Inr (Some \<lparr>ref_nodeId = nodeId, ref_output = output, ref_optional = True\<rparr>)
    | Inl e \<Rightarrow> trim nodeId = [] \<or> trim output = [])"
  using parse_encoded [where pre = prefix and opt = False] parse_encoded [where pre = optionalPrefix and opt = True]
  by (auto simp: applicationDeploymentOutputReference_def applicationOptionalDeploymentOutputReference_def)

end
