(* ===== verification/Valkey_Protocol.thy ===== *)
theory Valkey_Protocol
  imports Utf8 Js_Json
begin

text \<open>
  The RESP2 client of \<^verbatim>\<open>packages/applik8s/src/valkey-protocol.ts\<close>: encoding of commands, parsing of
  replies, the exchange of one lane, the lanes of a pool, cluster slots and the redirect loop. A
  \<open>Buffer\<close> is the list of its bytes. Node's conversions are parameters: \<open>txt\<close> is
  \<open>Buffer.toString('utf8')\<close>, \<open>fmt\<close> prints the numbers that are not safe integers. The socket
  of a lane is a parameter of the redirect loop, with an explicit state.
\<close>

section \<open>Arguments, replies, errors\<close>

datatype ValkeyArgument = ArgText string | ArgNumber js_number

datatype ValkeyResponse =
    RText string
  | RInt int
  | RNull
  | RArray "ValkeyResponse list"

text \<open>The errors the code distinguishes; \<open>OtherError\<close> is an \<open>Error\<close> with its message.\<close>

datatype ValkeyError =
    IncompleteRespError
  | ValkeyServerError string
  | OtherError string
  | OutOfFuel \<comment> \<open>no error of the source: the parser's fuel ran out\<close>

text \<open>\<open>String(part)\<close>\<close>

fun arg_text :: "(js_number \<Rightarrow> string) \<Rightarrow> ValkeyArgument \<Rightarrow> string" where
  "arg_text fmt (ArgText s) = s"
| "arg_text fmt (ArgNumber x) =
     (case x of
        NInt i \<Rightarrow> if isSafeInteger x then int_to_string i else fmt x
      | NFrac r \<Rightarrow> fmt x
      | NNaN \<Rightarrow> ''NaN''
      | NInf negative \<Rightarrow> if negative then ''-Infinity'' else ''Infinity'')"

text \<open>\<open>Buffer.from(text)\<close>\<close>

definition buffer_of :: "string \<Rightarrow> int list" where
  "buffer_of s = utf8Bytes (codePoints s)"

definition crlf :: "int list" where "crlf = [13, 10]"

section \<open>Encoding a command\<close>

definition encode_bulk :: "int list \<Rightarrow> int list" where
  "encode_bulk bytes = buffer_of (''$'' @ nat_to_string (length bytes)) @ crlf @ bytes @ crlf"

definition encodeResp :: "(js_number \<Rightarrow> string) \<Rightarrow> ValkeyArgument list \<Rightarrow> int list" where
  "encodeResp fmt parts =
     buffer_of (''*'' @ nat_to_string (length parts)) @ crlf @
     concat (map (\<lambda>part. encode_bulk (buffer_of (arg_text fmt part))) parts)"

section \<open>Parsing a reply\<close>

text \<open>\<open>/^-?\d+$/\<close>, then the conversion to a number, which must be a safe integer.\<close>

definition parseInteger :: "string \<Rightarrow> ValkeyError + int" where
  "parseInteger s =
     (let negative = (s \<noteq> [] \<and> hd s = CHR ''-'');
          digits = (if negative then tl s else s);
          i = (if negative then - int (nat_of_digits digits) else int (nat_of_digits digits))
      in if digits = [] \<or> \<not> list_all is_digit digits
         then Inl (OtherError (''Valkey returned invalid integer '' @ json_quote s @ ''.''))
         else if \<not> isSafeInteger (NInt i)
         then Inl (OtherError (''Valkey returned unsafe integer '' @ json_quote s @ ''.''))
         else Inr i)"

text \<open>\<open>input.indexOf('\r\n', offset)\<close>\<close>

fun find_crlf :: "int list \<Rightarrow> nat option" where
  "find_crlf (a # b # rest) = (if a = 13 \<and> b = 10 then Some 0 else map_option Suc (find_crlf (b # rest)))"
| "find_crlf _ = None"

definition line_end :: "int list \<Rightarrow> nat \<Rightarrow> nat option" where
  "line_end input offset = map_option (\<lambda>i. offset + i) (find_crlf (drop offset input))"

definition subarray :: "int list \<Rightarrow> nat \<Rightarrow> nat \<Rightarrow> int list" where
  "subarray input i j = take (j - i) (drop i input)"

text \<open>
  \<open>parseResp\<close> with the loop over the elements of an array. The fuel bounds the nesting and the
  number of elements together; \<open>parseResp\<close> below gives enough of it.
\<close>

fun parse_resp ::
    "(int list \<Rightarrow> string) \<Rightarrow> nat \<Rightarrow> int list \<Rightarrow> nat \<Rightarrow> ValkeyError + ValkeyResponse \<times> nat"
  and parse_elems ::
    "(int list \<Rightarrow> string) \<Rightarrow> nat \<Rightarrow> int list \<Rightarrow> nat \<Rightarrow> ValkeyResponse list \<Rightarrow> nat \<Rightarrow>
     ValkeyError + ValkeyResponse \<times> nat" where
  "parse_resp txt 0 input offset = Inl OutOfFuel"
| "parse_resp txt (Suc n) input offset =
     (if length input \<le> offset then Inl IncompleteRespError
      else (case line_end input offset of
        None \<Rightarrow> Inl IncompleteRespError
      | Some lineEnd \<Rightarrow>
          (let type = input ! offset;
               line = txt (subarray input (offset + 1) lineEnd);
               next = lineEnd + 2
           in if type = 43 then Inr (RText line, next)
              else if type = 58 then
                (case parseInteger line of Inl e \<Rightarrow> Inl e | Inr i \<Rightarrow> Inr (RInt i, next))
              else if type = 45 then Inl (ValkeyServerError line)
              else if type = 36 then
                (case parseInteger line of
                   Inl e \<Rightarrow> Inl e
                 | Inr len \<Rightarrow>
                     (if len = - 1 then Inr (RNull, next)
                      else if len < - 1
                      then Inl (OtherError (''Valkey returned invalid bulk-string length '' @ int_to_string len @ ''.''))
                      else (let finish = next + nat len in
                        if length input < finish + 2 then Inl IncompleteRespError
                        else Inr (RText (txt (subarray input next finish)), finish + 2))))
              else if type = 42 then
                (case parseInteger line of
                   Inl e \<Rightarrow> Inl e
                 | Inr cnt \<Rightarrow>
                     (if cnt = - 1 then Inr (RNull, next)
                      else if cnt < - 1
                      then Inl (OtherError (''Valkey returned invalid array length '' @ int_to_string cnt @ ''.''))
                      else parse_elems txt n input (nat cnt) [] next))
              else Inl (OtherError
                     (''Valkey returned unsupported RESP2 type byte '' @ int_to_string type @ ''.'')))))"
| "parse_elems txt 0 input cnt vs current = Inl OutOfFuel"
| "parse_elems txt (Suc n) input cnt vs current =
     (case cnt of
        0 \<Rightarrow> Inr (RArray vs, current)
      | Suc c \<Rightarrow>
          (case parse_resp txt n input current of
             Inl e \<Rightarrow> Inl e
           | Inr (v, next) \<Rightarrow> parse_elems txt n input c (vs @ [v]) next))"

definition resp_fuel :: "int list \<Rightarrow> nat \<Rightarrow> nat" where
  "resp_fuel input offset = 2 * (length input - offset) + 2"

definition parseResp :: "(int list \<Rightarrow> string) \<Rightarrow> int list \<Rightarrow> nat \<Rightarrow> ValkeyError + ValkeyResponse \<times> nat" where
  "parseResp txt input offset = parse_resp txt (resp_fuel input offset) input offset"

section \<open>One exchange\<close>

text \<open>
  The variables of \<open>#exchange\<close>, and the handler of a chunk of data: \<open>Waiting\<close> when it is not
  settled, \<open>Resolved\<close> or \<open>Rejected\<close> once \<open>finish\<close> has run.
\<close>

record exchange =
  ex_buffer :: "int list"
  ex_remaining :: nat
  ex_lastResponse :: ValkeyResponse

datatype exchange_outcome = Waiting exchange | Resolved ValkeyResponse | Rejected ValkeyError

definition start_exchange :: "nat \<Rightarrow> exchange" where
  "start_exchange responses = \<lparr>ex_buffer = [], ex_remaining = responses, ex_lastResponse = RNull\<rparr>"

text \<open>\<open>while (remaining > 0)\<close>, which ends in the \<open>finish\<close> or in the \<open>catch\<close>.\<close>

fun drain :: "(int list \<Rightarrow> string) \<Rightarrow> int list \<Rightarrow> nat \<Rightarrow> ValkeyResponse \<Rightarrow> exchange_outcome" where
  "drain txt buffer 0 lastR = Resolved lastR"
| "drain txt buffer (Suc remaining) lastR =
     (case parseResp txt buffer 0 of
        Inl IncompleteRespError \<Rightarrow>
          Waiting \<lparr>ex_buffer = buffer, ex_remaining = Suc remaining, ex_lastResponse = lastR\<rparr>
      | Inl e \<Rightarrow> Rejected e
      | Inr (v, offset) \<Rightarrow> drain txt (drop offset buffer) remaining v)"

definition exchange_data :: "(int list \<Rightarrow> string) \<Rightarrow> exchange \<Rightarrow> int list \<Rightarrow> exchange_outcome" where
  "exchange_data txt ex chunk = drain txt (ex_buffer ex @ chunk) (ex_remaining ex) (ex_lastResponse ex)"

text \<open>A sequence of chunks; once settled, the listeners are gone and later chunks are ignored.\<close>

fun exchange_chunks :: "(int list \<Rightarrow> string) \<Rightarrow> exchange \<Rightarrow> int list list \<Rightarrow> exchange_outcome" where
  "exchange_chunks txt ex [] = Waiting ex"
| "exchange_chunks txt ex (chunk # chunks) =
     (case exchange_data txt ex chunk of
        Waiting ex' \<Rightarrow> exchange_chunks txt ex' chunks
      | settled \<Rightarrow> settled)"

section \<open>The lanes of a pool\<close>

record ValkeyEndpoint =
  ep_host :: string
  ep_port :: int

record ApplicationValkeyConnectionPool =
  pool_endpoint :: ValkeyEndpoint
  pool_size :: nat
  pool_next :: nat

definition new_pool :: "ValkeyEndpoint \<Rightarrow> nat \<Rightarrow> ApplicationValkeyConnectionPool" where
  "new_pool endpoint lanes = \<lparr>pool_endpoint = endpoint, pool_size = lanes, pool_next = 0\<rparr>"

text \<open>\<open>execute\<close> chooses the lane; an empty pool throws and leaves the counter alone.\<close>

definition pool_execute :: "ApplicationValkeyConnectionPool \<Rightarrow> (string + nat) \<times> ApplicationValkeyConnectionPool" where
  "pool_execute p =
     (if pool_size p = 0 then (Inl ''Valkey connection pool has no execution lanes.'', p)
      else (Inr (pool_next p mod pool_size p), p\<lparr>pool_next := pool_next p + 1\<rparr>))"

definition command_payload ::
  "(js_number \<Rightarrow> string) \<Rightarrow> ValkeyArgument list \<Rightarrow> string option \<Rightarrow> bool \<Rightarrow> int list \<times> nat" where
  "command_payload fmt parts password asking =
     (let commands =
        (case password of None \<Rightarrow> [] | Some p \<Rightarrow> if p = [] then [] else [encodeResp fmt [ArgText ''AUTH'', ArgText p]])
        @ (if asking then [encodeResp fmt [ArgText ''ASKING'']] else [])
        @ [encodeResp fmt parts]
      in (concat commands, length commands))"

section \<open>Cluster slots\<close>

text \<open>
  The first match of \<open>/\{([^{}]+)\}/\<close>: at the leftmost opening brace whose text up to the next
  brace is not empty and ends in a closing one.
\<close>

fun tag_match :: "string \<Rightarrow> string option" where
  "tag_match [] = None"
| "tag_match (c # cs) =
     (if c = CHR ''{'' \<and> takeWhile (\<lambda>d. d \<notin> set ''{}'') cs \<noteq> [] \<and>
         dropWhile (\<lambda>d. d \<notin> set ''{}'') cs \<noteq> [] \<and> hd (dropWhile (\<lambda>d. d \<notin> set ''{}'') cs) = CHR ''}''
      then Some (takeWhile (\<lambda>d. d \<notin> set ''{}'') cs)
      else tag_match cs)"

definition crc_bit :: "int \<Rightarrow> int" where
  "crc_bit crc =
     (if js_and crc 0x8000 \<noteq> 0 then js_and (js_xor (js_shl crc 1) 0x1021) 0xffff
      else js_and (js_shl crc 1) 0xffff)"

definition crc_byte :: "int \<Rightarrow> int \<Rightarrow> int" where
  "crc_byte crc byte = (crc_bit ^^ 8) (js_xor crc (js_shl byte 8))"

definition redisSlot :: "string \<Rightarrow> int" where
  "redisSlot key =
     (let tagged = (case tag_match key of None \<Rightarrow> key | Some tag \<Rightarrow> tag)
      in foldl crc_byte 0 (buffer_of tagged) mod 16384)"

text \<open>
  \<open>toUpperCase\<close>, of which only comparisons with upper-case ASCII words are used.
\<close>

definition ascii_upper :: "string \<Rightarrow> string" where
  "ascii_upper s = map (\<lambda>c. let n = of_char c :: nat in if 97 \<le> n \<and> n \<le> 122 then char_of (n - 32) else c) s"

definition commandSlot :: "(js_number \<Rightarrow> string) \<Rightarrow> ValkeyArgument list \<Rightarrow> int option" where
  "commandSlot fmt parts =
     (let operation = (case parts of [] \<Rightarrow> [] | p # _ \<Rightarrow> ascii_upper (arg_text fmt p));
          position = (if operation = ''EVAL'' then 3 else 1)
      in if length parts \<le> position \<or> operation \<in> set [''AUTH'', ''ASKING'', ''PING'', ''INFO'', ''CLUSTER'']
         then None
         else Some (redisSlot (arg_text fmt (parts ! position))))"

section \<open>Redirects\<close>

datatype redirect_kind = MOVED | ASK

record ValkeyRedirect =
  rd_kind :: redirect_kind
  rd_slot :: int
  rd_endpoint :: ValkeyEndpoint

definition digits_1_5 :: "string \<Rightarrow> bool" where
  "digits_1_5 s = (1 \<le> length s \<and> length s \<le> 5 \<and> list_all is_digit s)"

text \<open>
  The two alternatives of the host of
  \<open>/^(MOVED|ASK) (\d{1,5}) (\[[^\]]+\]|[^: ]+):(\d{1,5})$/\<close> with the rest of the pattern: what is
  left after the host must be a colon and a port.
\<close>

definition port_part :: "string \<Rightarrow> string option" where
  "port_part s = (case s of
       [] \<Rightarrow> None
     | c # digits \<Rightarrow> if c = CHR '':'' \<and> digits_1_5 digits then Some digits else None)"

definition host_port :: "string \<Rightarrow> (string \<times> string) option" where
  "host_port s =
     (let inner = takeWhile (\<lambda>c. c \<noteq> CHR '']'') (tl s);
          plain = takeWhile (\<lambda>c. c \<noteq> CHR '':'' \<and> c \<noteq> CHR '' '') s;
          bracketed = CHR ''['' # inner @ '']''
      in if s \<noteq> [] \<and> hd s = CHR ''['' \<and> inner \<noteq> [] \<and> length bracketed \<le> length s \<and>
            port_part (drop (length bracketed) s) \<noteq> None
         then map_option (\<lambda>p. (bracketed, p)) (port_part (drop (length bracketed) s))
         else if plain = [] then None
         else map_option (\<lambda>p. (plain, p)) (port_part (drop (length plain) s)))"

definition match_redirect :: "string \<Rightarrow> (redirect_kind \<times> string \<times> string \<times> string) option" where
  "match_redirect reply =
     (case (case strip_prefix ''MOVED '' reply of
              Some r \<Rightarrow> Some (MOVED, r)
            | None \<Rightarrow> map_option (Pair ASK) (strip_prefix ''ASK '' reply)) of
        None \<Rightarrow> None
      | Some (kind, r) \<Rightarrow>
          (let digits = takeWhile (\<lambda>c. c \<noteq> CHR '' '') r; r' = drop (length digits) r in
           if digits_1_5 digits \<and> r' \<noteq> [] then
             map_option (\<lambda>(host, port). (kind, digits, host, port)) (host_port (tl r'))
           else None))"

fun valkeyRedirect :: "ValkeyError \<Rightarrow> ValkeyRedirect option" where
  "valkeyRedirect (ValkeyServerError reply) =
     (case match_redirect reply of
        None \<Rightarrow> None
      | Some (kind, slotText, rawHost, portText) \<Rightarrow>
          (let slot = int (nat_of_digits slotText); port = int (nat_of_digits portText);
               host = (if rawHost \<noteq> [] \<and> hd rawHost = CHR ''['' \<and> last rawHost = CHR '']''
                       then butlast (tl rawHost) else rawHost)
           in if slot < 0 \<or> 16384 \<le> slot \<or> port < 1 \<or> 65535 < port then None
              else if host = [] then None
              else Some \<lparr>rd_kind = kind, rd_slot = slot, rd_endpoint = \<lparr>ep_host = host, ep_port = port\<rparr>\<rparr>))"
| "valkeyRedirect _ = None"

section \<open>The command\<close>

record ApplicationValkeyClientOptions =
  opt_host :: string
  opt_port :: "js_number option"
  opt_password :: "string option"
  opt_timeoutMs :: "js_number option"
  opt_maxRedirects :: "js_number option"
  opt_poolSize :: "js_number option"

record client_config =
  cfg_origin :: ValkeyEndpoint
  cfg_password :: "string option"
  cfg_timeoutMs :: int
  cfg_maxRedirects :: nat
  cfg_poolSize :: nat

definition or_default :: "js_number option \<Rightarrow> int \<Rightarrow> js_number" where
  "or_default v d = (case v of None \<Rightarrow> NInt d | Some x \<Rightarrow> x)"

definition int_within :: "js_number \<Rightarrow> int \<Rightarrow> int \<Rightarrow> bool" where
  "int_within x lo hi = (case x of NInt i \<Rightarrow> lo \<le> i \<and> i \<le> hi | _ \<Rightarrow> False)"

definition int_of_number :: "js_number \<Rightarrow> int" where
  "int_of_number x = (case x of NInt i \<Rightarrow> i | _ \<Rightarrow> 0)"

definition check_options :: "ApplicationValkeyClientOptions \<Rightarrow> string + client_config" where
  "check_options options =
     (let port = or_default (opt_port options) 6379;
          timeoutMs = or_default (opt_timeoutMs options) 5000;
          maxRedirects = or_default (opt_maxRedirects options) 5;
          poolSize = or_default (opt_poolSize options) 4
      in if trim (opt_host options) = [] then Inl ''Valkey host must not be empty.''
         else if \<not> int_within port 1 65535 then Inl ''Valkey port must be between 1 and 65535.''
         else if \<not> int_within timeoutMs 1 120000 then Inl ''Valkey timeoutMs must be between 1 and 120000.''
         else if \<not> int_within maxRedirects 0 16 then Inl ''Valkey maxRedirects must be between 0 and 16.''
         else if \<not> int_within poolSize 1 32 then Inl ''Valkey poolSize must be between 1 and 32.''
         else Inr \<lparr>cfg_origin = \<lparr>ep_host = opt_host options, ep_port = int_of_number port\<rparr>,
                   cfg_password = opt_password options, cfg_timeoutMs = int_of_number timeoutMs,
                   cfg_maxRedirects = nat (int_of_number maxRedirects),
                   cfg_poolSize = nat (int_of_number poolSize)\<rparr>)"

text \<open>
  The client: the known endpoints of slots, the state \<open>'w\<close> of the connections, and the log of
  the sends made. \<open>send\<close> is \<open>sendValkeyCommand\<close> over the sockets.
\<close>

record 'w client =
  cl_slots :: "(int \<times> ValkeyEndpoint) list"
  cl_world :: 'w
  cl_sent :: "(ValkeyEndpoint \<times> bool) list"

type_synonym 'w transport =
  "ValkeyEndpoint \<Rightarrow> ValkeyArgument list \<Rightarrow> bool \<Rightarrow> 'w \<Rightarrow> (ValkeyError + ValkeyResponse) \<times> 'w"

text \<open>
  The loop from attempt \<open>maxRedirects - left\<close> on: \<open>left\<close> is the number of redirects it may
  still follow.
\<close>

fun command_loop ::
  "'w transport \<Rightarrow> ValkeyArgument list \<Rightarrow> nat \<Rightarrow> ValkeyEndpoint \<Rightarrow> bool \<Rightarrow> 'w client \<Rightarrow>
   (ValkeyError + ValkeyResponse) \<times> 'w client" where
  "command_loop send parts left endpoint asking cl =
     (let (result, world) = send endpoint parts asking (cl_world cl);
          cl1 = cl\<lparr>cl_world := world, cl_sent := cl_sent cl @ [(endpoint, asking)]\<rparr>
      in case result of
           Inr response \<Rightarrow> (Inr response, cl1)
         | Inl e \<Rightarrow>
             (case (valkeyRedirect e, left) of
                (Some redirect, Suc left') \<Rightarrow>
                  command_loop send parts left' (rd_endpoint redirect) (rd_kind redirect = ASK)
                    (if rd_kind redirect = MOVED
                     then cl1\<lparr>cl_slots := AList.update (rd_slot redirect) (rd_endpoint redirect) (cl_slots cl1)\<rparr>
                     else cl1)
              | _ \<Rightarrow> (Inl e, cl1)))"

definition valkey_command ::
  "(js_number \<Rightarrow> string) \<Rightarrow> client_config \<Rightarrow> 'w transport \<Rightarrow> ValkeyArgument list \<Rightarrow> 'w client \<Rightarrow>
   (ValkeyError + ValkeyResponse) \<times> 'w client" where
  "valkey_command fmt cfg send parts cl =
     (if parts = [] then (Inl (OtherError ''Valkey command must contain an operation.''), cl)
      else
        (let endpoint = (case commandSlot fmt parts of
               None \<Rightarrow> cfg_origin cfg
             | Some slot \<Rightarrow> (case map_of (cl_slots cl) slot of None \<Rightarrow> cfg_origin cfg | Some e \<Rightarrow> e))
         in command_loop send parts (cfg_maxRedirects cfg) endpoint False cl))"

end
