(* ===== verification/Valkey_Resp.thy ===== *)
theory Valkey_Resp
  imports Valkey_Protocol
begin

text \<open>
  What the RESP2 routines of \<open>Valkey_Protocol\<close> guarantee. \<open>resp_encode\<close> states how a server
  writes a reply; the parser reads every reply back, reports every proper prefix of one as incomplete,
  and always stops within its fuel, so an exchange resolves to the same reply however the bytes
  are cut into chunks.
\<close>

section \<open>The bytes of a reply\<close>

text \<open>
  The five forms in which a server writes a reply that is not an error, and the value each stands for:
  status lines and bulk strings are texts, and null comes as a bulk string or as an array.
\<close>

datatype wire_reply =
    SimpleString string
  | BulkString string
  | IntegerReply int
  | NullBulk
  | NullArray
  | ArrayReply "wire_reply list"

fun reply_value :: "wire_reply \<Rightarrow> ValkeyResponse" where
  "reply_value (SimpleString s) = RText s"
| "reply_value (BulkString s) = RText s"
| "reply_value (IntegerReply i) = RInt i"
| "reply_value NullBulk = RNull"
| "reply_value NullArray = RNull"
| "reply_value (ArrayReply ws) = RArray (map reply_value ws)"

fun resp_encode :: "wire_reply \<Rightarrow> int list" where
  "resp_encode (SimpleString s) = buffer_of (''+'' @ s) @ crlf"
| "resp_encode (BulkString s) = encode_bulk (buffer_of s)"
| "resp_encode (IntegerReply i) = buffer_of ('':'' @ int_to_string i) @ crlf"
| "resp_encode NullBulk = buffer_of ''$-1'' @ crlf"
| "resp_encode NullArray = buffer_of ''*-1'' @ crlf"
| "resp_encode (ArrayReply ws) =
     buffer_of (''*'' @ nat_to_string (length ws)) @ crlf @ concat (map resp_encode ws)"

text \<open>Replies whose status lines are lines and whose integers and lengths are safe integers.\<close>

fun resp_wf :: "wire_reply \<Rightarrow> bool" where
  "resp_wf (SimpleString s) = (CHR 13 \<notin> set s)"
| "resp_wf (BulkString s) = (int (length (buffer_of s)) \<le> MAX_SAFE_INTEGER)"
| "resp_wf (IntegerReply i) = isSafeInteger (NInt i)"
| "resp_wf NullBulk = True"
| "resp_wf NullArray = True"
| "resp_wf (ArrayReply ws) = (int (length ws) \<le> MAX_SAFE_INTEGER \<and> (\<forall>w \<in> set ws. resp_wf w))"

text \<open>An error reply: a line the parser throws as the server's error.\<close>

definition error_encode :: "string \<Rightarrow> int list" where
  "error_encode message = buffer_of (''-'' @ message) @ crlf"

text \<open>\<open>Buffer.toString\<close> reads what \<open>Buffer.from\<close> wrote.\<close>

definition reads_back :: "(int list \<Rightarrow> string) \<Rightarrow> bool" where
  "reads_back txt = (\<forall>s. txt (buffer_of s) = s)"

section \<open>Header lines\<close>

definition ascii :: "string \<Rightarrow> bool" where
  "ascii s = list_all (\<lambda>c. (of_char c :: nat) < 128) s"

lemma buffer_of_ascii: "ascii s \<Longrightarrow> buffer_of s = map of_char s"
proof (induction s)
  case Nil
  then show ?case by (simp add: buffer_of_def codePoints_def utf8Bytes_def)
next
  case (Cons c s)
  have "(of_char c :: int) = int (of_char c)" by (rule of_nat_of_char [symmetric])
  moreover have "(of_char c :: nat) < 128" using Cons.prems by (simp add: ascii_def)
  ultimately have "(of_char c :: int) \<le> 0x7f" by linarith
  with Cons show ?case
    by (simp add: buffer_of_def codePoints_def utf8Bytes_def utf8_char_def ascii_def)
qed

lemma ascii_digits: "list_all is_digit s \<Longrightarrow> ascii s"
  by (auto simp: ascii_def list_all_iff is_digit_def)

lemma ascii_nat: "ascii (nat_to_string n)"
  using nat_to_string_digits ascii_digits by blast

lemma ascii_int: "ascii (int_to_string i)"
  using ascii_nat by (simp add: int_to_string_def ascii_def)

definition no_cr :: "int list \<Rightarrow> bool" where "no_cr bytes = (13 \<notin> set bytes)"

lemma buffer_of_Cons: "buffer_of (c # s) = utf8_char (of_char c) @ buffer_of s"
  by (simp add: buffer_of_def utf8Bytes_def codePoints_def)

lemma char_bound: "0 \<le> (of_char c :: int)" "(of_char c :: int) < 256"
  using nat_of_char_less_256 [of c] of_nat_of_char [of c, where ?'a = int] by linarith+

lemma utf8_char_no_cr:
  assumes "c \<noteq> CHR 13"
  shows "13 \<notin> set (utf8_char (of_char c))"
proof -
  have "(of_char c :: int) \<noteq> 13"
  proof
    assume "(of_char c :: int) = 13"
    then have "(of_char c :: int) = of_char (CHR 13)" by simp
    with assms show False by (simp only: of_char_eq_iff)
  qed
  then show ?thesis
    using char_bound [of c] by (simp add: utf8_char_arith) (smt (verit) pos_imp_zdiv_nonneg_iff pos_mod_sign)
qed

lemma no_cr_text: "CHR 13 \<notin> set s \<Longrightarrow> no_cr (buffer_of s)"
proof (induction s)
  case Nil
  then show ?case by (simp add: no_cr_def buffer_of_def utf8Bytes_def codePoints_def)
next
  case (Cons c s)
  then show ?case using utf8_char_no_cr [of c] by (auto simp: no_cr_def buffer_of_Cons)
qed

lemma find_crlf_line: "no_cr h \<Longrightarrow> find_crlf (h @ 13 # 10 # r) = Some (length h)"
proof (induction h)
  case (Cons a h)
  then have "a \<noteq> 13" "no_cr h" by (auto simp: no_cr_def)
  with Cons.IH show ?case by (cases h) simp_all
qed simp

lemma find_crlf_none: "no_cr h \<Longrightarrow> find_crlf h = None" "no_cr h \<Longrightarrow> find_crlf (h @ [13]) = None"
proof (induction h rule: find_crlf.induct)
  case (1 a b rest)
  { case 1 then show ?case using "1.IH" by (auto simp: no_cr_def) }
  { case 2 then show ?case using "1.IH" by (auto simp: no_cr_def) }
next
  case "2_1"
  { case 1 show ?case by simp }
  { case 2 show ?case by simp }
next
  case "2_2"
  { case 1 show ?case by simp }
  { case 2 then show ?case by (auto simp: no_cr_def) }
qed

lemma line_end_header:
  "no_cr h \<Longrightarrow> line_end (pre @ h @ crlf @ r) (length pre) = Some (length pre + length h)"
  by (simp add: line_end_def crlf_def find_crlf_line)

lemma parseInteger_int:
  assumes "isSafeInteger (NInt i)"
  shows "parseInteger (int_to_string i) = Inr i"
proof (cases "i < 0")
  case True
  then have "int (nat (- i)) = - i" by simp
  with True assms show ?thesis
    using nat_to_string_digits [of "nat (- i)"] by (simp add: parseInteger_def int_to_string_def)
next
  case False
  have "hd (nat_to_string (nat i)) \<noteq> CHR ''-''"
    using nat_to_string_digits [of "nat i"] by (cases "nat_to_string (nat i)") (auto simp: is_digit_def)
  with False assms show ?thesis
    using nat_to_string_digits [of "nat i"] by (simp add: parseInteger_def int_to_string_def Let_def)
qed

lemma parseInteger_nat: "int n \<le> MAX_SAFE_INTEGER \<Longrightarrow> parseInteger (nat_to_string n) = Inr (int n)"
  using parseInteger_int [of "int n"] by (simp add: int_to_string_def)

text \<open>The header line of a reply: a type byte and an ASCII text.\<close>

definition header :: "char \<Rightarrow> string \<Rightarrow> int list" where
  "header t s = buffer_of (t # s) @ crlf"

definition header_text :: "char \<Rightarrow> string \<Rightarrow> bool" where
  "header_text t s = (t \<in> set ''$*:+-'' \<and> CHR 13 \<notin> set s)"

lemma digits_no_cr: "list_all is_digit s \<Longrightarrow> CHR 13 \<notin> set s"
  by (auto simp: list_all_iff is_digit_def)

lemma header_text_nat: "t \<in> set ''$*:+-'' \<Longrightarrow> header_text t (nat_to_string n)"
  using nat_to_string_digits digits_no_cr by (auto simp: header_text_def)

lemma header_text_int: "t \<in> set ''$*:+-'' \<Longrightarrow> header_text t (int_to_string i)"
  using nat_to_string_digits digits_no_cr by (auto simp: header_text_def int_to_string_def)

lemma header_bytes:
  assumes "header_text t s"
  shows "header t s = of_char t # buffer_of s @ crlf" and "no_cr (of_char t # buffer_of s)"
    and "buffer_of (t # s) = of_char t # buffer_of s"
proof -
  have "utf8_char (of_char t) = [of_char t]" "(of_char t :: int) \<noteq> 13"
    using assms by (auto simp: header_text_def utf8_char_def)
  then show eq: "buffer_of (t # s) = of_char t # buffer_of s" by (simp add: buffer_of_Cons)
  then show "header t s = of_char t # buffer_of s @ crlf" by (simp add: header_def)
  show "no_cr (of_char t # buffer_of s)"
    using assms no_cr_text [of s] \<open>(of_char t :: int) \<noteq> 13\<close> by (auto simp: header_text_def no_cr_def)
qed

lemma length_header: "header_text t s \<Longrightarrow> length (header t s) = length (buffer_of s) + 3"
  by (simp add: header_bytes crlf_def)

lemma resp_encode_header:
  "resp_encode (SimpleString s) = header (CHR ''+'') s"
  "resp_encode (BulkString s) =
     header (CHR ''$'') (nat_to_string (length (buffer_of s))) @ buffer_of s @ crlf"
  "resp_encode (IntegerReply i) = header (CHR '':'') (int_to_string i)"
  "resp_encode NullBulk = header (CHR ''$'') (int_to_string (- 1))"
  "resp_encode NullArray = header (CHR ''*'') (int_to_string (- 1))"
  "resp_encode (ArrayReply ws) = header (CHR ''*'') (nat_to_string (length ws)) @ concat (map resp_encode ws)"
proof -
  have "int_to_string (- 1) = ''-1''" by code_simp
  then show "resp_encode NullBulk = header (CHR ''$'') (int_to_string (- 1))"
    and "resp_encode NullArray = header (CHR ''*'') (int_to_string (- 1))" by (simp_all add: header_def)
qed (simp_all add: header_def encode_bulk_def)

text \<open>What the parser sees at a header line.\<close>

lemma at_header:
  assumes "reads_back txt" and "header_text t s" and "input = pre @ header t s @ r"
  shows "line_end input (length pre) = Some (length pre + length (buffer_of s) + 1)"
    and "input ! length pre = of_char t" and "\<not> length input \<le> length pre"
    and "txt (subarray input (length pre + 1) (length pre + length (buffer_of s) + 1)) = s"
proof -
  note h = header_bytes [OF assms(2)]
  have input: "input = pre @ (of_char t # buffer_of s) @ crlf @ r" using assms(3) h(1) by simp
  show "line_end input (length pre) = Some (length pre + length (buffer_of s) + 1)"
    unfolding input using line_end_header [OF h(2)] by simp
  show "input ! length pre = of_char t" "\<not> length input \<le> length pre" unfolding input by simp_all
  have "subarray input (length pre + 1) (length pre + length (buffer_of s) + 1) = buffer_of s"
    unfolding input by (simp add: subarray_def)
  then show "txt (subarray input (length pre + 1) (length pre + length (buffer_of s) + 1)) = s"
    using assms(1) by (simp add: reads_back_def)
qed

lemma parse_int_reply:
  assumes "reads_back txt" and "isSafeInteger (NInt i)" and "input = pre @ header (CHR '':'') (int_to_string i) @ r"
  shows "parse_resp txt (Suc n) input (length pre) = Inr (RInt i, length pre + length (header (CHR '':'') (int_to_string i)))"
  using at_header [OF assms(1) header_text_int assms(3)] parseInteger_int [OF assms(2)]
  by (simp add: length_header header_text_int Let_def)

lemma parse_line_reply:
  assumes "reads_back txt" and "CHR 13 \<notin> set s"
  shows "input = pre @ header (CHR ''+'') s @ r \<Longrightarrow>
      parse_resp txt (Suc n) input (length pre) = Inr (RText s, length pre + length (header (CHR ''+'') s))"
    and "input = pre @ header (CHR ''-'') s @ r \<Longrightarrow>
      parse_resp txt (Suc n) input (length pre) = Inl (ValkeyServerError s)"
proof -
  have h: "header_text (CHR ''+'') s" "header_text (CHR ''-'') s" using assms(2) by (simp_all add: header_text_def)
  show "input = pre @ header (CHR ''+'') s @ r \<Longrightarrow>
      parse_resp txt (Suc n) input (length pre) = Inr (RText s, length pre + length (header (CHR ''+'') s))"
    using at_header [OF assms(1) h(1)] by (simp add: length_header h Let_def)
  show "input = pre @ header (CHR ''-'') s @ r \<Longrightarrow> parse_resp txt (Suc n) input (length pre) = Inl (ValkeyServerError s)"
    using at_header [OF assms(1) h(2)] by (simp add: Let_def)
qed

lemma parse_null_reply:
  assumes "reads_back txt" and "t \<in> {CHR ''$'', CHR ''*''}" and "input = pre @ header t (int_to_string (- 1)) @ r"
  shows "parse_resp txt (Suc n) input (length pre) = Inr (RNull, length pre + length (header t (int_to_string (- 1))))"
proof -
  have h: "header_text t (int_to_string (- 1))" using assms(2) by (intro header_text_int) auto
  show ?thesis
    using at_header [OF assms(1) h assms(3)] parseInteger_int [of "- 1"] assms(2)
    by (auto simp: length_header [OF h] Let_def MAX_SAFE_INTEGER_def)
qed

lemma parse_bulk_header:
  assumes "reads_back txt" and "int len \<le> MAX_SAFE_INTEGER"
    and "input = pre @ header (CHR ''$'') (nat_to_string len) @ r"
  shows "parse_resp txt (Suc n) input (length pre) =
    (if length r < len + 2 then Inl IncompleteRespError
     else Inr (RText (txt (take len r)), length pre + length (header (CHR ''$'') (nat_to_string len)) + len + 2))"
proof -
  let ?h = "header (CHR ''$'') (nat_to_string len)"
  let ?next = "length pre + length ?h"
  have h: "header_text (CHR ''$'') (nat_to_string len)" by (rule header_text_nat) simp
  have "length input < ?next + len + 2 \<longleftrightarrow> length r < len + 2" using assms(3) by simp
  moreover have "subarray input ?next (?next + len) = take len r"
    using assms(3) by (simp add: subarray_def)
  moreover have "?next = length pre + length (buffer_of (nat_to_string len)) + 1 + 2"
    using length_header [OF h] by simp
  ultimately show ?thesis
    using at_header [OF assms(1) h assms(3)] parseInteger_nat [OF assms(2)]
    by (simp add: Let_def add.assoc)
qed

lemma parse_array_header:
  assumes "reads_back txt" and "int len \<le> MAX_SAFE_INTEGER"
    and "input = pre @ header (CHR ''*'') (nat_to_string len) @ r"
  shows "parse_resp txt (Suc n) input (length pre) =
    parse_elems txt n input len [] (length pre + length (header (CHR ''*'') (nat_to_string len)))"
proof -
  have h: "header_text (CHR ''*'') (nat_to_string len)" by (rule header_text_nat) simp
  have "length pre + length (header (CHR ''*'') (nat_to_string len)) = length pre + length (buffer_of (nat_to_string len)) + 1 + 2"
    using length_header [OF h] by simp
  then show ?thesis
    using at_header [OF assms(1) h assms(3)] parseInteger_nat [OF assms(2)]
    by (simp add: Let_def numeral_3_eq_3)
qed

section \<open>Replies are read back\<close>

lemma length_header_ge: "3 \<le> length (header t s)"
  using utf8_char_nonempty [of "of_char t"] by (cases "utf8_char (of_char t)") (simp_all add: header_def buffer_of_Cons crlf_def)

lemma length_resp_encode: "3 \<le> length (resp_encode w)"
  using length_header_ge by (cases w) (simp_all add: resp_encode_header trans_le_add1 del: resp_encode.simps)

declare resp_encode.simps [simp del]

definition parses :: "(int list \<Rightarrow> string) \<Rightarrow> wire_reply \<Rightarrow> bool" where
  "parses txt v =
     (\<forall>n pre r. 2 * length (resp_encode v) + 1 \<le> n \<longrightarrow>
        parse_resp txt n (pre @ resp_encode v @ r) (length pre) = Inr (reply_value v, length pre + length (resp_encode v)))"

lemma parse_elems_reply:
  assumes "\<forall>v \<in> set vs. parses txt v" and "2 * length (concat (map resp_encode vs)) + 2 \<le> n"
  shows "parse_elems txt n (pre @ concat (map resp_encode vs) @ r) (length vs) acc (length pre) =
    Inr (RArray (acc @ map reply_value vs), length pre + length (concat (map resp_encode vs)))"
  using assms
proof (induction vs arbitrary: n pre acc)
  case Nil
  then obtain m where "n = Suc m" by (cases n) auto
  then show ?case by simp
next
  case (Cons v vs)
  obtain m where n: "n = Suc m" using Cons.prems(2) by (cases n) auto
  have fuel: "2 * length (resp_encode v) + 1 \<le> m" "2 * length (concat (map resp_encode vs)) + 2 \<le> m"
    using Cons.prems(2) n length_resp_encode [of v] by simp_all
  have "parse_resp txt m (pre @ resp_encode v @ concat (map resp_encode vs) @ r) (length pre) =
      Inr (reply_value v, length pre + length (resp_encode v))"
    using Cons.prems(1) fuel(1) by (simp add: parses_def)
  moreover have "parse_elems txt m ((pre @ resp_encode v) @ concat (map resp_encode vs) @ r) (length vs)
      (acc @ [reply_value v]) (length (pre @ resp_encode v)) =
      Inr (RArray ((acc @ [reply_value v]) @ map reply_value vs), length (pre @ resp_encode v) + length (concat (map resp_encode vs)))"
    using Cons.prems(1) fuel(2) by (intro Cons.IH) simp_all
  ultimately show ?case using n by (simp add: add.assoc)
qed

text \<open>A reply that one header line decides is read with any fuel.\<close>

lemma parses_with_any_fuel:
  assumes "\<And>m pre r. parse_resp txt (Suc m) (pre @ resp_encode w @ r) (length pre) =
    Inr (reply_value w, length pre + length (resp_encode w))"
  shows "parses txt w"
  unfolding parses_def
proof (intro allI impI)
  fix n pre r assume "2 * length (resp_encode w) + 1 \<le> n"
  then obtain m where "n = Suc m" by (cases n) auto
  with assms show "parse_resp txt n (pre @ resp_encode w @ r) (length pre) =
      Inr (reply_value w, length pre + length (resp_encode w))" by simp
qed

lemma parse_reply:
  assumes "reads_back txt" and "resp_wf w"
  shows "parses txt w"
  using assms(2)
proof (induction w)
  case (SimpleString s)
  then show ?case
    using parse_line_reply(1) [OF assms(1)] by (intro parses_with_any_fuel) (simp add: resp_encode_header)
next
  case (BulkString s)
  let ?b = "buffer_of s"
  have "parse_resp txt (Suc m) (pre @ resp_encode (BulkString s) @ r) (length pre) =
      Inr (RText s, length pre + length (resp_encode (BulkString s)))" for m pre r
    using parse_bulk_header [OF assms(1), of "length ?b" "pre @ resp_encode (BulkString s) @ r" pre "?b @ crlf @ r" m]
      BulkString assms(1)
    by (simp add: resp_encode_header crlf_def reads_back_def)
  then show ?case by (intro parses_with_any_fuel) simp
next
  case (IntegerReply i)
  then show ?case
    using parse_int_reply [OF assms(1)] by (intro parses_with_any_fuel) (simp add: resp_encode_header)
next
  case NullBulk
  show ?case
    using parse_null_reply [OF assms(1)] by (intro parses_with_any_fuel) (simp add: resp_encode_header)
next
  case NullArray
  show ?case
    using parse_null_reply [OF assms(1)] by (intro parses_with_any_fuel) (simp add: resp_encode_header)
next
  case (ArrayReply ws)
  show ?case unfolding parses_def
  proof (intro allI impI)
    fix n pre r assume n: "2 * length (resp_encode (ArrayReply ws)) + 1 \<le> n"
    then obtain m where m: "n = Suc m" by (cases n) auto
    let ?h = "header (CHR ''*'') (nat_to_string (length ws))" and ?body = "concat (map resp_encode ws)"
    have "parse_resp txt n (pre @ resp_encode (ArrayReply ws) @ r) (length pre) =
        parse_elems txt m (pre @ ?h @ ?body @ r) (length ws) [] (length pre + length ?h)"
      using parse_array_header [OF assms(1), of "length ws" "pre @ ?h @ ?body @ r" pre "?body @ r" m] ArrayReply.prems m
      by (simp add: resp_encode_header)
    also have "\<dots> = Inr (RArray ([] @ map reply_value ws), length (pre @ ?h) + length ?body)"
      using parse_elems_reply [of ws "txt" m "pre @ ?h" r "[]"] ArrayReply n m length_header_ge [of "CHR ''*''" "nat_to_string (length ws)"]
      by (simp add: resp_encode_header)
    finally show "parse_resp txt n (pre @ resp_encode (ArrayReply ws) @ r) (length pre) =
        Inr (reply_value (ArrayReply ws), length pre + length (resp_encode (ArrayReply ws)))"
      by (simp add: resp_encode_header)
  qed
qed

section \<open>A proper prefix of a reply is incomplete\<close>

lemma cut_header:
  assumes "header_text t s" and "k < length (header t s)"
  shows "parse_resp txt (Suc n) (pre @ take k (header t s)) (length pre) = Inl IncompleteRespError"
proof -
  let ?h = "of_char t # buffer_of s"
  have "take k (header t s) = take k ?h \<or> take k (header t s) = ?h @ [13]"
  proof (cases "k \<le> length ?h")
    case True
    then show ?thesis by (simp add: header_bytes(1) [OF assms(1)] take_Cons' )
  next
    case False
    with assms have "k = length ?h + 1" by (simp add: header_bytes(1) [OF assms(1)] crlf_def)
    then show ?thesis by (simp add: header_bytes(1) [OF assms(1)] crlf_def)
  qed
  moreover have "no_cr (take k ?h)" using header_bytes(2) [OF assms(1)] by (meson in_set_takeD no_cr_def)
  ultimately have "find_crlf (take k (header t s)) = None"
    using find_crlf_none header_bytes(2) [OF assms(1)] by metis
  then show ?thesis by (simp add: line_end_def)
qed

definition cut_off :: "(int list \<Rightarrow> string) \<Rightarrow> wire_reply \<Rightarrow> bool" where
  "cut_off txt v =
     (\<forall>k n pre. k < length (resp_encode v) \<longrightarrow> 2 * k + 1 \<le> n \<longrightarrow>
        parse_resp txt n (pre @ take k (resp_encode v)) (length pre) = Inl IncompleteRespError)"

lemma cut_elems:
  assumes "\<forall>v \<in> set vs. parses txt v \<and> cut_off txt v"
    and "k < length (concat (map resp_encode vs))" and "2 * k + 2 \<le> n"
  shows "parse_elems txt n (pre @ take k (concat (map resp_encode vs))) (length vs) acc (length pre) =
    Inl IncompleteRespError"
  using assms
proof (induction vs arbitrary: k n pre acc)
  case (Cons v vs)
  obtain m where n: "n = Suc m" using Cons.prems(3) by (cases n) auto
  show ?case
  proof (cases "k < length (resp_encode v)")
    case True
    then have "parse_resp txt m (pre @ take k (resp_encode v)) (length pre) = Inl IncompleteRespError"
      using Cons.prems n by (simp add: cut_off_def)
    with True n show ?thesis by simp
  next
    case False
    let ?e = "resp_encode v" and ?rest = "take (k - length (resp_encode v)) (concat (map resp_encode vs))"
    have "parse_resp txt m (pre @ ?e @ ?rest) (length pre) = Inr (reply_value v, length pre + length ?e)"
      using Cons.prems False n by (simp add: parses_def)
    moreover have "parse_elems txt m ((pre @ ?e) @ ?rest) (length vs) (acc @ [reply_value v]) (length (pre @ ?e)) =
        Inl IncompleteRespError"
      using Cons.prems False n length_resp_encode [of v] by (intro Cons.IH) simp_all
    ultimately show ?thesis using n False by simp
  qed
qed simp

lemma cut_body:
  assumes "length h \<le> k" and "k < length (h @ body)"
  obtains j where "take k (h @ body) = h @ take j body" and "j < length body" and "k = length h + j"
  using assms that [of "k - length h"] by simp

lemma cut_line:
  assumes "resp_encode w = header t s" and "header_text t s"
  shows "cut_off txt w"
  unfolding cut_off_def assms(1)
proof (intro allI impI)
  fix k n pre assume "k < length (header t s)" "2 * k + 1 \<le> n"
  then show "parse_resp txt n (pre @ take k (header t s)) (length pre) = Inl IncompleteRespError"
    using cut_header [OF assms(2)] by (cases n) simp_all
qed

lemma cut_reply:
  assumes "reads_back txt" and "resp_wf w"
  shows "cut_off txt w"
  using assms(2)
proof (induction w)
  case (BulkString s)
  let ?b = "buffer_of s" and ?h = "header (CHR ''$'') (nat_to_string (length (buffer_of s)))"
  show ?case unfolding cut_off_def resp_encode_header
  proof (intro allI impI)
    fix k n pre assume k: "k < length (?h @ ?b @ crlf)" and n: "2 * k + 1 \<le> n"
    then obtain m where m: "n = Suc m" by (cases n) auto
    show "parse_resp txt n (pre @ take k (?h @ ?b @ crlf)) (length pre) = Inl IncompleteRespError"
    proof (cases "k < length ?h")
      case True
      then show ?thesis using cut_header [OF header_text_nat, of _ k] unfolding m by simp
    next
      case False
      then obtain j where j: "take k (?h @ ?b @ crlf) = ?h @ take j (?b @ crlf)" "j < length (?b @ crlf)"
        using cut_body [of ?h k "?b @ crlf"] k by (metis linorder_not_less)
      then show ?thesis
        using parse_bulk_header [OF assms(1), of "length ?b" "pre @ ?h @ take j (?b @ crlf)" pre "take j (?b @ crlf)" m]
          BulkString unfolding m by (simp add: crlf_def)
    qed
  qed
next
  case (ArrayReply ws)
  let ?h = "header (CHR ''*'') (nat_to_string (length ws))" and ?body = "concat (map resp_encode ws)"
  have all: "\<forall>w \<in> set ws. parses txt w \<and> cut_off txt w"
    using ArrayReply parse_reply [OF assms(1)] by simp
  show ?case unfolding cut_off_def resp_encode_header
  proof (intro allI impI)
    fix k n pre assume k: "k < length (?h @ ?body)" and n: "2 * k + 1 \<le> n"
    then obtain m where m: "n = Suc m" by (cases n) auto
    show "parse_resp txt n (pre @ take k (?h @ ?body)) (length pre) = Inl IncompleteRespError"
    proof (cases "k < length ?h")
      case True
      then show ?thesis using cut_header [OF header_text_nat, of _ k] unfolding m by simp
    next
      case False
      then obtain j where j: "take k (?h @ ?body) = ?h @ take j ?body" "j < length ?body" "k = length ?h + j"
        using cut_body [of ?h k ?body] k by auto
      have "parse_elems txt m ((pre @ ?h) @ take j ?body) (length ws) [] (length (pre @ ?h)) = Inl IncompleteRespError"
        using n m j(3) length_header_ge [of "CHR ''*''" "nat_to_string (length ws)"] by (intro cut_elems [OF all j(2)]) simp
      then show ?thesis
        using parse_array_header [OF assms(1), of "length ws" "pre @ ?h @ take j ?body" pre "take j ?body" m]
          ArrayReply.prems j(1) unfolding m by simp
    qed
  qed
next
  case (SimpleString s)
  then show ?case by (intro cut_line [OF resp_encode_header(1)]) (simp add: header_text_def)
next
  case (IntegerReply i)
  show ?case by (rule cut_line [OF resp_encode_header(3)], rule header_text_int) simp
next
  case NullBulk
  show ?case by (rule cut_line [OF resp_encode_header(4)], rule header_text_int) simp
next
  case NullArray
  show ?case by (rule cut_line [OF resp_encode_header(5)], rule header_text_int) simp
qed

section \<open>The fuel is enough\<close>

lemma find_crlf_bound: "find_crlf bs = Some i \<Longrightarrow> i + 2 \<le> length bs"
  by (induction bs arbitrary: i rule: find_crlf.induct) (fastforce split: if_splits)+

lemma line_end_bound: "line_end input offset = Some e \<Longrightarrow> offset \<le> e \<and> e + 2 \<le> length input"
  using find_crlf_bound [of "drop offset input"] by (auto simp: line_end_def)

lemma parse_progress:
  "parse_resp txt n input offset = Inr (v, next) \<Longrightarrow> offset + 2 \<le> next \<and> next \<le> length input"
  "parse_elems txt n input cnt vs current = Inr (v, next) \<Longrightarrow> current \<le> length input \<Longrightarrow>
     current \<le> next \<and> next \<le> length input"
proof (induction "txt" n input offset and "txt" n input cnt vs current arbitrary: v "next" and v "next"
    rule: parse_resp_parse_elems.induct)
  case (2 "txt" n input offset)
  then show ?case
    by (auto simp: Let_def split: if_splits option.splits sum.splits dest!: line_end_bound) force+
next
  case (4 "txt" n input cnt vs current)
  then show ?case by (fastforce split: nat.splits sum.splits)
qed simp_all

definition elems_fuel :: "int list \<Rightarrow> nat \<Rightarrow> nat" where
  "elems_fuel input current = 2 * (length input - current) + 2"

lemma fuel_enough:
  "(\<forall>m offset. 2 * (length input - offset) + 1 \<le> n \<longrightarrow> n \<le> m \<longrightarrow>
      parse_resp txt m input offset = parse_resp txt n input offset) \<and>
   (\<forall>m cnt vs current. current \<le> length input \<longrightarrow> elems_fuel input current \<le> n \<longrightarrow> n \<le> m \<longrightarrow>
      parse_elems txt m input cnt vs current = parse_elems txt n input cnt vs current)"
proof (induction n)
  case 0
  show ?case by (simp add: elems_fuel_def)
next
  case (Suc n)
  have IH: "parse_resp txt m input offset = parse_resp txt n input offset"
    if "2 * (length input - offset) + 1 \<le> n" "n \<le> m" for m offset using Suc that by blast
  have IHe: "parse_elems txt m input cnt vs current = parse_elems txt n input cnt vs current"
    if "current \<le> length input" "elems_fuel input current \<le> n" "n \<le> m" for m cnt vs current using Suc that by blast
  have "parse_resp txt (Suc k) input offset = parse_resp txt (Suc n) input offset"
    if "2 * (length input - offset) + 1 \<le> Suc n" "n \<le> k" for k offset
  proof (cases "line_end input offset")
    case (Some e)
    then have e: "offset \<le> e" "e + 2 \<le> length input" using line_end_bound by blast+
    have "parse_elems txt k input cnt vs (e + 2) = parse_elems txt n input cnt vs (e + 2)" for cnt vs
      using that e by (intro IHe) (simp_all add: elems_fuel_def)
    with Some show ?thesis by (simp add: Let_def split: sum.split)
  qed simp
  moreover have "parse_elems txt (Suc k) input cnt vs current = parse_elems txt (Suc n) input cnt vs current"
    if "current \<le> length input" "elems_fuel input current \<le> Suc n" "n \<le> k" for k cnt vs current
  proof -
    have head: "parse_resp txt k input current = parse_resp txt n input current"
      using that by (intro IH) (simp_all add: elems_fuel_def)
    show ?thesis
    proof (cases "parse_resp txt n input current")
      case (Inr r)
      obtain v "next" where r: "r = (v, next)" by fastforce
      have p: "current + 2 \<le> next" "next \<le> length input"
        using parse_progress(1) Inr r by blast+
      have "parse_elems txt k input c ws next = parse_elems txt n input c ws next" for c ws
        using that p by (intro IHe) (simp_all add: elems_fuel_def)
      with head Inr r show ?thesis by (simp split: nat.split)
    qed (simp add: head split: nat.split)
  qed
  ultimately show ?case by (metis Suc_le_D Suc_le_mono)
qed

lemma parseInteger_fuel: "parseInteger s \<noteq> Inl OutOfFuel"
  by (simp add: parseInteger_def Let_def)

lemma fuel_not_exhausted:
  "(\<forall>offset. 2 * (length input - offset) + 1 \<le> n \<longrightarrow> parse_resp txt n input offset \<noteq> Inl OutOfFuel) \<and>
   (\<forall>cnt vs current. current \<le> length input \<longrightarrow> elems_fuel input current \<le> n \<longrightarrow>
      parse_elems txt n input cnt vs current \<noteq> Inl OutOfFuel)"
proof (induction n)
  case 0
  show ?case by (simp add: elems_fuel_def)
next
  case (Suc n)
  have "parse_resp txt (Suc n) input offset \<noteq> Inl OutOfFuel" if "2 * (length input - offset) + 1 \<le> Suc n" for offset
  proof (cases "line_end input offset")
    case (Some e)
    then have e: "offset \<le> e" "e + 2 \<le> length input" using line_end_bound by blast+
    then have "parse_elems txt n input cnt vs (e + 2) \<noteq> Inl OutOfFuel" for cnt vs
      using that Suc by (simp add: elems_fuel_def)
    with Some parseInteger_fuel show ?thesis by (auto simp: Let_def split: sum.split)
  qed simp
  moreover have "parse_elems txt (Suc n) input cnt vs current \<noteq> Inl OutOfFuel"
    if "current \<le> length input" "elems_fuel input current \<le> Suc n" for cnt vs current
  proof -
    have head: "parse_resp txt n input current \<noteq> Inl OutOfFuel" using Suc that by (simp add: elems_fuel_def)
    have "parse_elems txt n input c ws next \<noteq> Inl OutOfFuel" if "parse_resp txt n input current = Inr (v, next)" for c ws v "next"
    proof -
      have "next \<le> length input" "elems_fuel input next \<le> n"
        using parse_progress(1) [OF that] \<open>elems_fuel input current \<le> Suc n\<close> by (auto simp: elems_fuel_def)
      then show ?thesis using Suc by blast
    qed
    with head show ?thesis by (auto split: nat.split sum.split)
  qed
  ultimately show ?case by blast
qed

lemma parseResp_any_fuel:
  "resp_fuel input offset \<le> n \<Longrightarrow> parse_resp txt n input offset = parseResp txt input offset"
  using fuel_enough [of input "resp_fuel input offset" "txt"] by (simp add: parseResp_def resp_fuel_def)

section \<open>An exchange\<close>

lemma parseResp_reply:
  assumes "reads_back txt" and "resp_wf v"
  shows "parseResp txt (resp_encode v @ r) 0 = Inr (reply_value v, length (resp_encode v))"
  using parse_reply [OF assms] unfolding parses_def parseResp_def resp_fuel_def
  by (elim allE [of _ "2 * length (resp_encode v @ r) + 2"] allE [of _ "[]"] allE [of _ r]) simp

lemma parseResp_cut:
  assumes "reads_back txt" and "resp_wf v" and "k < length (resp_encode v)"
  shows "parseResp txt (take k (resp_encode v)) 0 = Inl IncompleteRespError"
  using cut_reply [OF assms(1,2)] assms(3) unfolding cut_off_def parseResp_def resp_fuel_def
  by (elim allE [of _ k] allE [of _ "2 * k + 2"] allE [of _ "[]"]) simp

lemma parseResp_error:
  assumes "reads_back txt" and "CHR 13 \<notin> set message"
  shows "parseResp txt (error_encode message @ r) 0 = Inl (ValkeyServerError message)"
  using parse_line_reply(2) [OF assms, of "error_encode message @ r" "[]" r]
  by (simp add: parseResp_def resp_fuel_def error_encode_def header_def)

lemma drain_complete:
  assumes "reads_back txt" and "\<forall>v \<in> set vs. resp_wf v"
  shows "drain txt (concat (map resp_encode vs) @ r) (length vs) lastR = Resolved (last (lastR # map reply_value vs))"
  using assms(2)
proof (induction vs arbitrary: lastR)
  case (Cons v vs)
  then have "parseResp txt (resp_encode v @ concat (map resp_encode vs) @ r) 0 = Inr (reply_value v, length (resp_encode v))"
    by (intro parseResp_reply [OF assms(1)]) simp
  with Cons show ?case by (simp add: append.assoc)
qed simp

lemma drain_partial:
  assumes "reads_back txt" and "\<forall>v \<in> set vs. resp_wf v" and "k < length (concat (map resp_encode vs))"
  shows "\<exists>us ws j. vs = us @ ws \<and> ws \<noteq> [] \<and> j < length (concat (map resp_encode ws)) \<and>
    drop j (concat (map resp_encode ws)) = drop k (concat (map resp_encode vs)) \<and>
    (\<exists>l. drain txt (take k (concat (map resp_encode vs))) (length vs) lastR =
       Waiting \<lparr>ex_buffer = take j (concat (map resp_encode ws)), ex_remaining = length ws, ex_lastResponse = l\<rparr>)"
  using assms(2,3)
proof (induction vs arbitrary: k lastR)
  case (Cons v vs)
  show ?case
  proof (cases "k < length (resp_encode v)")
    case True
    then have "parseResp txt (take k (resp_encode v)) 0 = Inl IncompleteRespError"
      using Cons.prems(1) by (intro parseResp_cut [OF assms(1)]) simp_all
    with True Cons.prems show ?thesis
      by (intro exI [of _ "[]"] exI [of _ "v # vs"] exI [of _ k]) simp
  next
    case False
    let ?k = "k - length (resp_encode v)"
    have k: "?k < length (concat (map resp_encode vs))" using Cons.prems(2) False by simp
    have step: "drain txt (take k (concat (map resp_encode (v # vs)))) (length (v # vs)) lastR =
        drain txt (take ?k (concat (map resp_encode vs))) (length vs) (reply_value v)"
      using False parseResp_reply [OF assms(1), of v "take ?k (concat (map resp_encode vs))"] Cons.prems(1) by simp
    obtain us ws j l where IH: "vs = us @ ws" "ws \<noteq> []" "j < length (concat (map resp_encode ws))"
      "drop j (concat (map resp_encode ws)) = drop ?k (concat (map resp_encode vs))"
      "drain txt (take ?k (concat (map resp_encode vs))) (length vs) (reply_value v) =
       Waiting \<lparr>ex_buffer = take j (concat (map resp_encode ws)), ex_remaining = length ws, ex_lastResponse = l\<rparr>"
      using Cons.IH [OF _ k, of "reply_value v"] Cons.prems(1) by auto
    then show ?thesis
      using step False by (intro exI [of _ "v # us"] exI [of _ ws] exI [of _ j]) auto
  qed
qed simp

lemma exchange_prefix:
  assumes "reads_back txt" and "\<forall>v \<in> set vs. resp_wf v" and "vs \<noteq> []"
    and "k < length (concat (map resp_encode vs))" and "ex_buffer ex = take k (concat (map resp_encode vs))"
    and "ex_remaining ex = length vs" and "concat chunks = drop k (concat (map resp_encode vs))"
  shows "exchange_chunks txt ex chunks = Resolved (reply_value (last vs))"
  using assms(2-7)
proof (induction chunks arbitrary: vs k ex)
  case (Cons chunk chunks)
  let ?all = "concat (map resp_encode vs)"
  have rest: "chunk @ concat chunks = drop k ?all" using Cons.prems(6) by simp
  then have "length chunk + length (concat chunks) = length ?all - k" by (metis length_append length_drop)
  then have len: "k + length chunk \<le> length ?all" using Cons.prems(3) by linarith
  have "take (length chunk) (drop k ?all) = chunk" "drop (length chunk) (drop k ?all) = concat chunks"
    by (simp_all flip: rest)
  then have buf: "ex_buffer ex @ chunk = take (k + length chunk) ?all"
    and tail: "concat chunks = drop (k + length chunk) ?all"
    using Cons.prems(4) by (simp_all add: take_add add.commute)
  show ?case
  proof (cases "k + length chunk = length ?all")
    case True
    then have "exchange_data txt ex chunk = Resolved (reply_value (last vs))"
      using drain_complete [OF assms(1) Cons.prems(1), of "[]"] Cons.prems(2,5) buf
      by (simp add: exchange_data_def last_map)
    then show ?thesis by simp
  next
    case False
    with len have "k + length chunk < length ?all" by simp
    from drain_partial [OF assms(1) Cons.prems(1) this, of "ex_lastResponse ex"]
    obtain us ws j l where ws: "vs = us @ ws" "ws \<noteq> []" "j < length (concat (map resp_encode ws))"
      "drop j (concat (map resp_encode ws)) = drop (k + length chunk) ?all"
      "exchange_data txt ex chunk =
       Waiting \<lparr>ex_buffer = take j (concat (map resp_encode ws)), ex_remaining = length ws, ex_lastResponse = l\<rparr>"
      using buf Cons.prems(5) unfolding exchange_data_def by auto
    with tail Cons.prems(1) have "exchange_chunks txt
        \<lparr>ex_buffer = take j (concat (map resp_encode ws)), ex_remaining = length ws, ex_lastResponse = l\<rparr> chunks =
        Resolved (reply_value (last ws))"
      by (intro Cons.IH [of ws j]) simp_all
    with ws show ?thesis by simp
  qed
qed simp

section \<open>Properties\<close>

text \<open>A conversion of bytes to text that reads back what \<open>Buffer.from\<close> wrote.\<close>

fun utf8_text_fuel :: "nat \<Rightarrow> int list \<Rightarrow> string" where
  "utf8_text_fuel 0 bytes = []"
| "utf8_text_fuel (Suc n) bytes =
     (case utf8_decode bytes of None \<Rightarrow> [] | Some (c, r) \<Rightarrow> char_of (nat c) # utf8_text_fuel n r)"

definition utf8_text :: "int list \<Rightarrow> string" where
  "utf8_text bytes = utf8_text_fuel (length bytes) bytes"

lemma utf8_text_reads_back: "reads_back utf8_text"
proof -
  have "length s \<le> n \<Longrightarrow> utf8_text_fuel n (buffer_of s) = s" for s n
  proof (induction s arbitrary: n)
    case Nil
    then show ?case by (cases n) (simp_all add: buffer_of_def utf8Bytes_def codePoints_def)
  next
    case (Cons c s)
    then obtain m where n: "n = Suc m" "length s \<le> m" by (cases n) auto
    have "code_point (of_char c)" using code_point_of_string [of "[c]"] by (simp add: codePoints_def)
    then have "utf8_decode (utf8_char (of_char c) @ buffer_of s) = Some (of_char c, buffer_of s)"
      by (rule utf8.dec_enc)
    moreover have "buffer_of (c # s) = utf8_char (of_char c) @ buffer_of s"
      by (simp add: buffer_of_def utf8Bytes_def codePoints_def)
    moreover have "nat (of_char c :: int) = of_char c" by (metis nat_int of_nat_of_char)
    ultimately show ?case using Cons.IH [OF n(2)] n by simp
  qed
  moreover have "length s \<le> length (buffer_of s)" for s
  proof (induction s)
    case (Cons c s)
    have "1 \<le> length (utf8_char (of_char c))" using utf8_char_nonempty [of "of_char c"] by (cases "utf8_char (of_char c)") auto
    with Cons show ?case by (simp add: buffer_of_def utf8Bytes_def codePoints_def)
  qed simp
  ultimately show ?thesis by (simp add: reads_back_def utf8_text_def)
qed

lemma encodeResp_is_reply: "encodeResp fmt parts = resp_encode (ArrayReply (map (BulkString \<circ> arg_text fmt) parts))"
proof -
  have "resp_encode (BulkString s) = encode_bulk (buffer_of s)" for s by (simp add: resp_encode.simps)
  then show ?thesis by (simp add: encodeResp_def resp_encode.simps comp_def)
qed

text \<open>
  C17: a command is written as the RESP2 array of its arguments. The parser reads every reply, status
  lines and both forms of null included, back from the front of the bytes received, reports every proper
  prefix of a reply as incomplete, and throws the line of an error reply as the server's error.
\<close>

theorem resp_round_trip:
  assumes "reads_back txt" and "resp_wf w" and "k < length (resp_encode w)" and "CHR 13 \<notin> set message"
  shows "encodeResp fmt parts = resp_encode (ArrayReply (map (BulkString \<circ> arg_text fmt) parts)) \<and>
    parseResp txt (resp_encode w @ r) 0 = Inr (reply_value w, length (resp_encode w)) \<and>
    parseResp txt (take k (resp_encode w)) 0 = Inl IncompleteRespError \<and>
    parseResp txt (error_encode message @ r) 0 = Inl (ValkeyServerError message)"
  using encodeResp_is_reply parseResp_reply [OF assms(1,2)] parseResp_cut [OF assms(1-3)] parseResp_error [OF assms(1,4)] by blast

definition example_reply :: wire_reply where
  "example_reply = ArrayReply [SimpleString ''OK'', BulkString [CHR 13, CHR 10], IntegerReply (- 7), NullBulk, NullArray, ArrayReply []]"

lemma example_reply_wf: "resp_wf example_reply"
  by (simp add: example_reply_def MAX_SAFE_INTEGER_def buffer_of_def utf8Bytes_def codePoints_def utf8_char_def)

theorem resp_round_trip_witness:
  "parseResp utf8_text (resp_encode example_reply @ [0]) 0 =
     Inr (RArray [RText ''OK'', RText [CHR 13, CHR 10], RInt (- 7), RNull, RNull, RArray []], length (resp_encode example_reply)) \<and>
   parseResp utf8_text (take 2 (resp_encode example_reply)) 0 = Inl IncompleteRespError \<and>
   parseResp utf8_text (error_encode ''ERR'' @ [0]) 0 = Inl (ValkeyServerError ''ERR'')"
proof -
  have "2 < length (resp_encode example_reply)" using length_resp_encode [of example_reply] by simp
  from resp_round_trip [OF utf8_text_reads_back example_reply_wf this, of "''ERR''" _ _ "[0]"]
  show ?thesis by (simp add: example_reply_def)
qed

text \<open>
  C18: an exchange resolves to the last of the replies it waits for, however the bytes of the replies
  are cut into chunks; the status line before a command's own reply is one of them.
\<close>

theorem exchange_any_chunking:
  assumes "reads_back txt" and "ws \<noteq> []" and "\<forall>w \<in> set ws. resp_wf w"
    and "concat chunks = concat (map resp_encode ws)"
  shows "exchange_chunks txt (start_exchange (length ws)) chunks = Resolved (reply_value (last ws))"
proof (rule exchange_prefix [OF assms(1,3,2), of 0])
  obtain w us where "ws = w # us" using assms(2) by (cases ws) auto
  then show "0 < length (concat (map resp_encode ws))" using length_resp_encode [of w] by (cases "resp_encode w") simp_all
qed (simp_all add: start_exchange_def assms(4))

theorem exchange_any_chunking_witness:
  "exchange_chunks utf8_text (start_exchange 2)
     [take 3 (resp_encode (SimpleString ''OK'')), drop 3 (resp_encode (SimpleString ''OK'')), resp_encode example_reply] =
   Resolved (reply_value example_reply)"
proof -
  have "\<forall>w \<in> set [SimpleString ''OK'', example_reply]. resp_wf w"
    using example_reply_wf by simp
  from exchange_any_chunking [OF utf8_text_reads_back _ this,
      of "[take 3 (resp_encode (SimpleString ''OK'')), drop 3 (resp_encode (SimpleString ''OK'')), resp_encode example_reply]"]
  show ?thesis by (simp add: numeral_2_eq_2)
qed

text \<open>
  C19: the parser ends on every input: with the fuel that \<open>parseResp\<close> gives it, or more, it never runs
  out, its result no longer depends on the fuel, and a reply it returns ends inside the input, after
  its start.
\<close>

theorem parseResp_terminates:
  assumes "resp_fuel input offset \<le> n"
  shows "parse_resp txt n input offset = parseResp txt input offset \<and>
    parseResp txt input offset \<noteq> Inl OutOfFuel \<and>
    (\<forall>v next. parseResp txt input offset = Inr (v, next) \<longrightarrow> offset < next \<and> next \<le> length input)"
proof -
  have "parseResp txt input offset \<noteq> Inl OutOfFuel"
    using fuel_not_exhausted [of input "resp_fuel input offset" "txt"] by (simp add: parseResp_def resp_fuel_def)
  then show ?thesis
    using parseResp_any_fuel [OF assms] parse_progress(1) [of "txt" "resp_fuel input offset" input offset]
    by (auto simp: parseResp_def)
qed

theorem parseResp_terminates_witness:
  "parse_resp utf8_text 100 (buffer_of ''*9'' @ crlf) 0 = parseResp utf8_text (buffer_of ''*9'' @ crlf) 0 \<and>
   parseResp utf8_text (buffer_of ''*9'' @ crlf) 0 \<noteq> Inl OutOfFuel"
proof -
  have "length (buffer_of ''*9'' @ crlf) = 4" by code_simp
  then show ?thesis using parseResp_terminates [of "buffer_of ''*9'' @ crlf" 0 100 utf8_text] by (simp add: resp_fuel_def)
qed

end
