(* ===== verification/Valkey_Cluster.thy ===== *)
theory Valkey_Cluster
  imports Valkey_Protocol
begin

unbundle bit_operations_syntax

text \<open>
  Cluster routing of the client of \<open>Valkey_Protocol\<close>: \<open>redisSlot\<close> is CRC-16/XMODEM on 16-bit
  words taken modulo the number of slots; a redirect that the client follows is well formed; and the
  redirect loop makes a bounded number of sends.
\<close>

section \<open>CRC-16\<close>

text \<open>The reference: polynomial \<open>0x1021\<close>, initial value zero, most significant bit first.\<close>

definition crc16_bit :: "16 word \<Rightarrow> 16 word" where
  "crc16_bit w = (if bit w 15 then push_bit 1 w XOR 0x1021 else push_bit 1 w)"

definition crc16_byte :: "16 word \<Rightarrow> int \<Rightarrow> 16 word" where
  "crc16_byte w byte = (crc16_bit ^^ 8) (w XOR push_bit 8 (word_of_int byte))"

definition crc16 :: "int list \<Rightarrow> 16 word" where
  "crc16 bytes = foldl crc16_byte 0 bytes"

lemma js_and_ffff: "js_and x 0xffff = take_bit 16 x"
proof (rule bit_eqI)
  fix k
  have "bit (0xffff :: int) k \<longleftrightarrow> k < 16"
    using bit_mask_iff [of 16 k, where ?'a = int] by (simp add: mask_eq_exp_minus_1)
  moreover have "toInt32 0xffff = 0xffff" by (simp add: toInt32_def)
  ultimately show "bit (js_and x 0xffff) k \<longleftrightarrow> bit (take_bit 16 x) k"
    by (auto simp: js_and_def bit_and_iff bit_toInt32 bit_take_bit_iff)
qed

lemma js_and_8000: "js_and x 0x8000 \<noteq> 0 \<longleftrightarrow> bit x 15"
proof -
  have "toInt32 0x8000 = 0x8000" by (simp add: toInt32_def)
  moreover have "bit (0x8000 :: int) k \<longleftrightarrow> k = 15" for k
    using bit_exp_iff [of 15 k, where ?'a = int] by auto
  ultimately have "bit (js_and x 0x8000) k \<longleftrightarrow> k = 15 \<and> bit x 15" for k
    by (auto simp: js_and_def bit_and_iff bit_toInt32)
  then have "js_and x 0x8000 = 0 \<longleftrightarrow> \<not> bit x 15" by (auto simp: bit_eq_iff)
  then show ?thesis by simp
qed

lemma take_shl: "n < 32 \<Longrightarrow> take_bit 16 (js_shl x n) = take_bit 16 (push_bit n x)"
  by (rule bit_eqI) (auto simp: bit_take_bit_iff js_shl_def bit_toInt32 bit_push_bit_iff)

lemma take_xor: "take_bit 16 (js_xor a b) = take_bit 16 a XOR take_bit 16 b"
  by (rule bit_eqI) (auto simp: bit_take_bit_iff js_xor_def bit_toInt32 bit_xor_iff)

lemma word_take_16: "take_bit 16 x = uint (word_of_int x :: 16 word)"
  by (simp add: uint_word_of_int_eq)

lemma crc_bit_word: "crc_bit crc = uint (crc16_bit (word_of_int crc))"
proof -
  let ?w = "word_of_int crc :: 16 word"
  have "(word_of_int (push_bit 1 crc) :: 16 word) = push_bit 1 ?w"
    by (rule bit_word_eqI) (auto simp: bit_word_of_int_iff bit_push_bit_iff)
  moreover have "take_bit 16 (js_shl crc 1) = take_bit 16 (push_bit 1 crc)" by (rule take_shl) simp
  ultimately have shl: "take_bit 16 (js_shl crc 1) = uint (push_bit 1 ?w)"
    using word_take_16 [of "push_bit 1 crc"] by (simp only:)
  have "take_bit 16 (js_xor (js_shl crc 1) 0x1021) = uint (push_bit 1 ?w XOR 0x1021)"
    unfolding take_xor shl uint_xor by simp
  moreover have "bit crc 15 \<longleftrightarrow> bit ?w 15" by (simp add: bit_word_of_int_iff)
  ultimately show ?thesis
    using shl by (simp add: crc_bit_def crc16_bit_def js_and_8000 js_and_ffff)
qed

lemma crc_bits_word: "0 < n \<Longrightarrow> (crc_bit ^^ n) crc = uint ((crc16_bit ^^ n) (word_of_int crc))"
proof (induction n)
  case (Suc n)
  then show ?case by (cases n) (simp_all add: crc_bit_word)
qed simp

lemma crc_byte_word: "crc_byte (uint w) byte = uint (crc16_byte w byte)"
proof -
  have "(word_of_int (js_xor (uint w) (js_shl byte 8)) :: 16 word) = w XOR push_bit 8 (word_of_int byte)"
    by (rule bit_word_eqI)
       (auto simp: bit_word_of_int_iff js_xor_def js_shl_def bit_toInt32 bit_xor_iff bit_push_bit_iff bit_uint_iff)
  then show ?thesis by (simp add: crc_byte_def crc16_byte_def crc_bits_word)
qed

lemma crc_word: "foldl crc_byte (uint w) bytes = uint (foldl crc16_byte w bytes)"
  by (induction bytes arbitrary: w) (simp_all add: crc_byte_word)

lemma crc16_byte_unfold:
  "crc16_byte w byte = crc16_bit (crc16_bit (crc16_bit (crc16_bit (crc16_bit (crc16_bit (crc16_bit (crc16_bit
     (w XOR push_bit 8 (word_of_int byte)))))))))"
  by (simp add: crc16_byte_def numeral_eq_Suc)

section \<open>Hash tags\<close>

text \<open>
  The hash tag of the cluster specification: the text between the first opening brace and the first
  closing brace after it, when there is one and it is not empty; otherwise the whole key.
\<close>

definition spec_tag :: "string \<Rightarrow> string" where
  "spec_tag key =
     (let after = dropWhile (\<lambda>c. c \<noteq> CHR ''{'') key;
          inner = takeWhile (\<lambda>c. c \<noteq> CHR ''}'') (tl after)
      in if after \<noteq> [] \<and> CHR ''}'' \<in> set (tl after) \<and> inner \<noteq> [] then inner else key)"

definition tagged :: "string \<Rightarrow> string" where
  "tagged key = (case tag_match key of None \<Rightarrow> key | Some tag \<Rightarrow> tag)"

lemma tag_match_no_brace: "CHR ''{'' \<notin> set key \<Longrightarrow> tag_match key = None"
  by (induction key) auto

lemma tag_match_skip: "CHR ''{'' \<notin> set pre \<Longrightarrow> tag_match (pre @ key) = tag_match key"
  by (induction pre) auto

lemma tag_match_tag:
  assumes "set tag \<inter> set ''{}'' = {}" and "tag \<noteq> []"
  shows "tag_match (CHR ''{'' # tag @ CHR ''}'' # rest) = Some tag"
proof -
  have ok: "\<forall>c \<in> set tag. c \<notin> set ''{}''" using assms(1) by blast
  have "takeWhile (\<lambda>d. d \<notin> set ''{}'') (tag @ CHR ''}'' # rest) = tag"
    using ok by (subst takeWhile_append2) simp_all
  moreover have "dropWhile (\<lambda>d. d \<notin> set ''{}'') (tag @ CHR ''}'' # rest) = CHR ''}'' # rest"
    using ok by (subst dropWhile_append2) simp_all
  ultimately show ?thesis using assms(2) unfolding tag_match.simps by simp
qed

lemma tag_match_open: "CHR ''}'' \<notin> set key \<Longrightarrow> tag_match key = None"
proof (induction key)
  case (Cons c key)
  have "dropWhile (\<lambda>d. d \<notin> set ''{}'') key = [] \<or> hd (dropWhile (\<lambda>d. d \<notin> set ''{}'') key) \<noteq> CHR ''}''"
    using Cons.prems set_dropWhileD [of "CHR ''}''" "\<lambda>d. d \<notin> set ''{}''" key]
    by (metis hd_in_set list.set_intros(2))
  with Cons show ?case by auto
qed simp

text \<open>
  A key without an opening brace, or whose first opening brace is not closed, or whose first opening
  brace is followed by one or more characters other than braces and a closing brace.
\<close>

definition simple_key :: "string \<Rightarrow> bool" where
  "simple_key key =
     (CHR ''{'' \<notin> set key \<or>
      (\<exists>pre rest. key = pre @ CHR ''{'' # rest \<and> CHR ''{'' \<notin> set pre \<and> CHR ''}'' \<notin> set rest) \<or>
      (\<exists>pre tag rest. key = pre @ CHR ''{'' # tag @ CHR ''}'' # rest \<and> CHR ''{'' \<notin> set pre \<and>
         set tag \<inter> set ''{}'' = {} \<and> tag \<noteq> []))"

lemma tagged_simple:
  assumes "simple_key key"
  shows "tagged key = spec_tag key"
proof -
  consider "CHR ''{'' \<notin> set key"
    | pre rest where "key = pre @ CHR ''{'' # rest" "CHR ''{'' \<notin> set pre" "CHR ''}'' \<notin> set rest"
    | pre tag rest where "key = pre @ CHR ''{'' # tag @ CHR ''}'' # rest" "CHR ''{'' \<notin> set pre"
        "set tag \<inter> set ''{}'' = {}" "tag \<noteq> []"
    using assms unfolding simple_key_def by blast
  then show ?thesis
  proof cases
    case 1
    then have "dropWhile (\<lambda>c. c \<noteq> CHR ''{'') key = []" by (auto simp: dropWhile_eq_Nil_conv)
    with 1 show ?thesis by (simp add: tagged_def spec_tag_def tag_match_no_brace)
  next
    case (2 pre rest)
    have "dropWhile (\<lambda>c. c \<noteq> CHR ''{'') key = CHR ''{'' # rest"
      unfolding 2(1) using 2(2) by (subst dropWhile_append2) auto
    moreover have "tag_match key = None" unfolding 2(1) tag_match_skip [OF 2(2)] using 2(3) by (intro tag_match_open) simp
    ultimately show ?thesis using 2(3) by (simp add: tagged_def spec_tag_def)
  next
    case (3 pre tag rest)
    have "tag_match key = Some tag" unfolding 3(1) tag_match_skip [OF 3(2)] by (rule tag_match_tag [OF 3(3,4)])
    moreover have "dropWhile (\<lambda>c. c \<noteq> CHR ''{'') key = CHR ''{'' # tag @ CHR ''}'' # rest"
      unfolding 3(1) using 3(2) by (subst dropWhile_append2) auto
    moreover have "takeWhile (\<lambda>c. c \<noteq> CHR ''}'') (tag @ CHR ''}'' # rest) = tag"
      using 3(3) by (subst takeWhile_append2) auto
    ultimately show ?thesis using 3(4) by (simp add: tagged_def spec_tag_def)
  qed
qed

lemma redisSlot_crc: "redisSlot key = uint (crc16 (buffer_of (tagged key))) mod 16384"
  using crc_word [of 0] by (simp add: redisSlot_def crc16_def tagged_def Let_def)

section \<open>Redirects\<close>

lemma length_nat_to_string: "n < 10 ^ Suc k \<Longrightarrow> length (nat_to_string n) \<le> Suc k"
proof (induction k arbitrary: n)
  case 0
  then show ?case by (subst nat_to_string.simps) simp
next
  case (Suc k)
  show ?case
  proof (cases "n < 10")
    case True
    then show ?thesis by (subst nat_to_string.simps) simp
  next
    case False
    have "n div 10 < 10 ^ Suc k" using Suc.prems by (simp add: less_mult_imp_div_less)
    with Suc.IH False show ?thesis by (subst nat_to_string.simps) simp
  qed
qed

lemma digits_nat: "n < 100000 \<Longrightarrow> digits_1_5 (nat_to_string n)"
  using length_nat_to_string [of n 4] nat_to_string_digits [of n]
  by (cases "nat_to_string n") (auto simp: digits_1_5_def)

definition redirect_text :: "redirect_kind \<Rightarrow> nat \<Rightarrow> string \<Rightarrow> nat \<Rightarrow> string" where
  "redirect_text kind slot host port =
     (case kind of MOVED \<Rightarrow> ''MOVED '' | ASK \<Rightarrow> ''ASK '') @ nat_to_string slot @ '' '' @ host @ '':'' @ nat_to_string port"

definition plain_host :: "string \<Rightarrow> bool" where
  "plain_host host = (host \<noteq> [] \<and> hd host \<noteq> CHR ''['' \<and> CHR '':'' \<notin> set host \<and> CHR '' '' \<notin> set host)"

definition bracket_host :: "string \<Rightarrow> bool" where
  "bracket_host host = (host \<noteq> [] \<and> CHR '']'' \<notin> set host)"

lemma port_part_nat: "n < 100000 \<Longrightarrow> port_part (CHR '':'' # nat_to_string n) = Some (nat_to_string n)"
  by (simp add: port_part_def digits_nat)

lemma host_port_plain:
  assumes "plain_host host" and "n < 100000"
  shows "host_port (host @ CHR '':'' # nat_to_string n) = Some (host, nat_to_string n)"
proof -
  have "takeWhile (\<lambda>c. c \<noteq> CHR '':'' \<and> c \<noteq> CHR '' '') (host @ CHR '':'' # nat_to_string n) = host"
    using assms(1) by (subst takeWhile_append2) (auto simp: plain_host_def)
  moreover have "hd (host @ CHR '':'' # nat_to_string n) \<noteq> CHR ''[''" "host \<noteq> []"
    using assms(1) by (auto simp: plain_host_def)
  ultimately show ?thesis
    using port_part_nat [OF assms(2)] by (simp add: host_port_def Let_def)
qed

lemma host_port_bracket:
  assumes "bracket_host host" and "n < 100000"
  shows "host_port ((CHR ''['' # host @ '']'') @ CHR '':'' # nat_to_string n) =
    Some (CHR ''['' # host @ '']'', nat_to_string n)"
proof -
  have "takeWhile (\<lambda>c. c \<noteq> CHR '']'') (host @ CHR '']'' # CHR '':'' # nat_to_string n) = host"
    using assms(1) by (subst takeWhile_append2) (auto simp: bracket_host_def)
  then show ?thesis
    using assms port_part_nat [OF assms(2)] by (simp add: host_port_def Let_def bracket_host_def)
qed

lemma match_redirect_text:
  assumes "slot < 100000" and "host_port (host @ CHR '':'' # nat_to_string port) = Some (host, nat_to_string port)"
  shows "match_redirect (redirect_text kind slot host port) =
    Some (kind, nat_to_string slot, host, nat_to_string port)"
proof -
  have sp: "CHR '' '' \<notin> set (nat_to_string slot)"
    using nat_to_string_digits [of slot] by (auto simp: list_all_iff is_digit_def)
  have "takeWhile (\<lambda>c. c \<noteq> CHR '' '') (nat_to_string slot @ CHR '' '' # r) = nat_to_string slot" for r
    using sp by (subst takeWhile_append2) auto
  then show ?thesis
    using assms digits_nat [OF assms(1)]
    by (cases kind) (simp_all add: match_redirect_def redirect_text_def Let_def)
qed

lemma redirect_plain:
  assumes "plain_host host" and "slot < 16384" and "1 \<le> port" and "port \<le> 65535"
  shows "valkeyRedirect (ValkeyServerError (redirect_text kind slot host port)) =
    Some \<lparr>rd_kind = kind, rd_slot = int slot, rd_endpoint = \<lparr>ep_host = host, ep_port = int port\<rparr>\<rparr>"
  using match_redirect_text [OF _ host_port_plain, of slot host port kind] assms nat_to_string_digits
  by (simp add: plain_host_def Let_def)

lemma redirect_bracket:
  assumes "bracket_host host" and "slot < 16384" and "1 \<le> port" and "port \<le> 65535"
  shows "valkeyRedirect (ValkeyServerError (redirect_text kind slot (CHR ''['' # host @ '']'') port)) =
    Some \<lparr>rd_kind = kind, rd_slot = int slot, rd_endpoint = \<lparr>ep_host = host, ep_port = int port\<rparr>\<rparr>"
  using match_redirect_text [of slot "CHR ''['' # host @ '']''" port kind] host_port_bracket [of host port]
    assms nat_to_string_digits
  by (simp add: bracket_host_def Let_def butlast_append)

definition redirect_ok :: "ValkeyRedirect \<Rightarrow> bool" where
  "redirect_ok r = (0 \<le> rd_slot r \<and> rd_slot r < 16384 \<and> ep_host (rd_endpoint r) \<noteq> [] \<and>
     1 \<le> ep_port (rd_endpoint r) \<and> ep_port (rd_endpoint r) \<le> 65535)"

lemma valkeyRedirect_ok: "valkeyRedirect e = Some r \<Longrightarrow> redirect_ok r"
  by (cases e) (auto simp: redirect_ok_def Let_def split: option.splits prod.splits if_splits)

section \<open>The redirect loop\<close>

definition slots_ok :: "(int \<times> ValkeyEndpoint) list \<Rightarrow> bool" where
  "slots_ok slots = (\<forall>(slot, e) \<in> set slots. 0 \<le> slot \<and> slot < 16384 \<and> ep_host e \<noteq> [] \<and>
     1 \<le> ep_port e \<and> ep_port e \<le> 65535)"

lemma slots_ok_update:
  "slots_ok slots \<Longrightarrow> redirect_ok r \<Longrightarrow> slots_ok (AList.update (rd_slot r) (rd_endpoint r) slots)"
  by (induction slots) (auto simp: slots_ok_def redirect_ok_def split: if_splits)

declare command_loop.simps [simp del]

lemma command_loop_bound:
  assumes "command_loop send parts left endpoint asking cl = (result, cl')"
  shows "\<exists>later. cl_sent cl' = cl_sent cl @ (endpoint, asking) # later \<and> length later \<le> left \<and>
    (case result of Inl e \<Rightarrow> valkeyRedirect e \<noteq> None \<longrightarrow> length later = left | Inr v \<Rightarrow> True)"
  using assms
proof (induction left arbitrary: endpoint asking cl)
  case 0
  then show ?case
    by (subst (asm) command_loop.simps) (auto simp: Let_def split: prod.splits sum.splits option.splits)
next
  case (Suc left)
  obtain res world where send: "send endpoint parts asking (cl_world cl) = (res, world)" by fastforce
  show ?case
  proof (cases res)
    case (Inr v)
    then show ?thesis using Suc.prems send by (subst (asm) command_loop.simps) auto
  next
    case (Inl e)
    show ?thesis
    proof (cases "valkeyRedirect e")
      case None
      then show ?thesis using Suc.prems send Inl by (subst (asm) command_loop.simps) (auto simp: Let_def)
    next
      case (Some r)
      let ?cl = "cl\<lparr>cl_world := world, cl_sent := cl_sent cl @ [(endpoint, asking)]\<rparr>"
      let ?cl' = "if rd_kind r = MOVED then ?cl\<lparr>cl_slots := AList.update (rd_slot r) (rd_endpoint r) (cl_slots ?cl)\<rparr> else ?cl"
      have "command_loop send parts left (rd_endpoint r) (rd_kind r = ASK) ?cl' = (result, cl')"
        using Suc.prems send Inl Some by (subst (asm) command_loop.simps) (simp add: Let_def)
      from Suc.IH [OF this] show ?thesis by (auto split: if_splits sum.splits)
    qed
  qed
qed

lemma command_loop_slots:
  assumes "command_loop send parts left endpoint asking cl = (result, cl')" and "slots_ok (cl_slots cl)"
  shows "slots_ok (cl_slots cl')"
  using assms
proof (induction send parts left endpoint asking cl rule: command_loop.induct)
  case (1 send parts left endpoint asking cl)
  obtain res world where send: "send endpoint parts asking (cl_world cl) = (res, world)" by fastforce
  show ?case
    using 1 send
    by (subst (asm) (2) command_loop.simps)
       (auto simp: Let_def slots_ok_update valkeyRedirect_ok split: sum.splits option.splits nat.splits if_splits)
qed

section \<open>Properties\<close>

text \<open>
  C21: the slot of a key is CRC-16 of its tag modulo 16384, so it is a cluster slot. The tag is the one
  of the cluster specification where the key has no opening brace, where its first opening brace is
  never closed, and where that brace opens a non-empty tag without braces that a closing brace ends;
  of other keys, such as those that begin with an empty pair of braces, nothing is said.
\<close>

theorem slot_is_crc16_of_tag:
  "redisSlot key = uint (crc16 (buffer_of (tagged key))) mod 16384 \<and>
   0 \<le> redisSlot key \<and> redisSlot key < 16384 \<and>
   (simple_key key \<longrightarrow> redisSlot key = uint (crc16 (buffer_of (spec_tag key))) mod 16384)"
  by (simp add: redisSlot_crc tagged_simple)

theorem slot_is_crc16_of_tag_witness:
  "redisSlot ''{user}1'' = uint (crc16 (buffer_of (spec_tag ''{user}1''))) mod 16384"
proof -
  have "simple_key ''{user}1''"
    unfolding simple_key_def
    by (rule disjI2, rule disjI2, rule exI [of _ "[]"], rule exI [of _ "''user''"], rule exI [of _ "''1''"]) simp
  then show ?thesis using slot_is_crc16_of_tag [of "''{user}1''"] by blast
qed

text \<open>
  On nested braces the slot is not the one of the cluster specification, whose tag runs from the
  first opening brace to the first closing brace.
\<close>

lemma nested_braces_leave_cluster_slot:
  "spec_tag ''foo{{bar}}zap'' = ''{bar'' \<and> tagged ''foo{{bar}}zap'' = ''bar'' \<and>
   redisSlot ''foo{{bar}}zap'' \<noteq> uint (crc16 (buffer_of (spec_tag ''foo{{bar}}zap''))) mod 16384"
proof -
  have tags: "spec_tag ''foo{{bar}}zap'' = ''{bar''" "tagged ''foo{{bar}}zap'' = ''bar''" by code_simp+
  have bytes: "buffer_of ''bar'' = [98, 97, 114]" "buffer_of ''{bar'' = [123, 98, 97, 114]" by code_simp+
  have "crc16 [98, 97, 114] = 37829" "crc16 [123, 98, 97, 114] = 53167"
    by (simp_all add: crc16_def crc16_byte_unfold crc16_bit_def)
  then show ?thesis by (simp add: redisSlot_crc tags bytes)
qed

text \<open>
  A \<open>MOVED\<close> or \<open>ASK\<close> reply to a host name or a bracketed address is recognised with its slot and
  endpoint, and every redirect recognised names a cluster slot, a host and a port.
\<close>

theorem redirect_recognised:
  assumes "slot < 16384" and "1 \<le> port" and "port \<le> 65535" and "plain_host host" and "bracket_host address"
  shows "valkeyRedirect (ValkeyServerError (redirect_text kind slot host port)) =
      Some \<lparr>rd_kind = kind, rd_slot = int slot, rd_endpoint = \<lparr>ep_host = host, ep_port = int port\<rparr>\<rparr> \<and>
    valkeyRedirect (ValkeyServerError (redirect_text kind slot (CHR ''['' # address @ '']'') port)) =
      Some \<lparr>rd_kind = kind, rd_slot = int slot, rd_endpoint = \<lparr>ep_host = address, ep_port = int port\<rparr>\<rparr> \<and>
    (\<forall>e r. valkeyRedirect e = Some r \<longrightarrow> redirect_ok r)"
  using redirect_plain [OF assms(4,1-3)] redirect_bracket [OF assms(5,1-3)] valkeyRedirect_ok by blast

theorem redirect_recognised_witness:
  "valkeyRedirect (ValkeyServerError (redirect_text ASK 7 ''node-1'' 6379)) =
     Some \<lparr>rd_kind = ASK, rd_slot = 7, rd_endpoint = \<lparr>ep_host = ''node-1'', ep_port = 6379\<rparr>\<rparr>"
  using redirect_recognised [of 7 6379 "''node-1''" "''::1''" ASK]
  by (simp add: plain_host_def bracket_host_def)

text \<open>
  C20: a command is sent at least once and at most \<open>maxRedirects + 1\<close> times, first without
  \<open>ASKING\<close>; a redirect is reported to the caller only when that bound is used up; and the slots the
  client remembers stay well formed.
\<close>

theorem command_redirects_bounded:
  assumes "valkey_command fmt cfg send parts cl = (result, cl')" and "parts \<noteq> []" and "slots_ok (cl_slots cl)"
  shows "slots_ok (cl_slots cl') \<and>
    (\<exists>endpoint later. cl_sent cl' = cl_sent cl @ (endpoint, False) # later \<and>
       length later \<le> cfg_maxRedirects cfg \<and>
       (case result of
          Inl e \<Rightarrow> valkeyRedirect e \<noteq> None \<longrightarrow> length later = cfg_maxRedirects cfg
        | Inr v \<Rightarrow> True))"
proof -
  obtain endpoint where loop:
    "command_loop send parts (cfg_maxRedirects cfg) endpoint False cl = (result, cl')"
    using assms(1,2) by (auto simp: valkey_command_def Let_def)
  show ?thesis using command_loop_bound [OF loop] command_loop_slots [OF loop assms(3)] by blast
qed

text \<open>A cluster of two nodes: the origin moves every command to the other node, which answers.\<close>

definition example_endpoint :: ValkeyEndpoint where
  "example_endpoint = \<lparr>ep_host = ''n2'', ep_port = 6379\<rparr>"

definition example_send :: "unit transport" where
  "example_send endpoint parts asking world =
     ((if ep_host endpoint = ''n2'' then Inr (RInt 1)
       else Inl (ValkeyServerError (redirect_text MOVED 5 ''n2'' 6379))), world)"

definition example_config :: client_config where
  "example_config =
     \<lparr>cfg_origin = \<lparr>ep_host = ''n1'', ep_port = 6379\<rparr>, cfg_password = None, cfg_timeoutMs = 5000,
      cfg_maxRedirects = 1, cfg_poolSize = 4\<rparr>"

theorem command_redirects_bounded_witness:
  "\<exists>cl'. valkey_command (\<lambda>_. []) example_config example_send [ArgText ''PING'']
      \<lparr>cl_slots = [], cl_world = (), cl_sent = []\<rparr> = (Inr (RInt 1), cl') \<and>
    slots_ok (cl_slots cl') \<and> length (cl_sent cl') \<le> 2"
proof -
  let ?run = "valkey_command (\<lambda>_. []) example_config example_send [ArgText ''PING'']
      \<lparr>cl_slots = [], cl_world = (), cl_sent = []\<rparr>"
  have moved: "valkeyRedirect (ValkeyServerError (redirect_text MOVED 5 ''n2'' 6379)) =
      Some \<lparr>rd_kind = MOVED, rd_slot = 5, rd_endpoint = \<lparr>ep_host = ''n2'', ep_port = 6379\<rparr>\<rparr>"
    using redirect_plain [of "''n2''" 5 6379 MOVED] by (simp add: plain_host_def)
  have "commandSlot (\<lambda>_. []) [ArgText ''PING''] = None" by (simp add: commandSlot_def Let_def)
  then have "fst ?run = Inr (RInt 1)"
    by (simp add: valkey_command_def example_config_def, subst command_loop.simps,
        simp add: example_send_def moved del: valkeyRedirect.simps, subst command_loop.simps, simp add: example_send_def)
  then obtain cl' where run: "?run = (Inr (RInt 1), cl')" by (cases ?run) simp
  have "slots_ok (cl_slots \<lparr>cl_slots = [], cl_world = (), cl_sent = []\<rparr>)" by (simp add: slots_ok_def)
  from command_redirects_bounded [OF run _ this] run show ?thesis by (auto simp: example_config_def)
qed

lemma int_withinD: "int_within x lo hi \<Longrightarrow> \<exists>i. x = NInt i \<and> lo \<le> i \<and> i \<le> hi"
  by (cases x) (auto simp: int_within_def)

lemma check_options_Inr:
  assumes "check_options options = Inr cfg"
  shows "\<exists>port timeoutMs maxRedirects poolSize.
    1 \<le> port \<and> port \<le> 65535 \<and> 1 \<le> timeoutMs \<and> timeoutMs \<le> 120000 \<and>
    0 \<le> maxRedirects \<and> maxRedirects \<le> 16 \<and> 1 \<le> poolSize \<and> poolSize \<le> 32 \<and>
    cfg = \<lparr>cfg_origin = \<lparr>ep_host = opt_host options, ep_port = port\<rparr>, cfg_password = opt_password options,
       cfg_timeoutMs = timeoutMs, cfg_maxRedirects = nat maxRedirects, cfg_poolSize = nat poolSize\<rparr>"
proof -
  have within: "int_within (or_default (opt_port options) 6379) 1 65535"
    "int_within (or_default (opt_timeoutMs options) 5000) 1 120000"
    "int_within (or_default (opt_maxRedirects options) 5) 0 16"
    "int_within (or_default (opt_poolSize options) 4) 1 32"
    using assms unfolding check_options_def Let_def by (simp_all split: if_splits)
  obtain a b c d where eq: "or_default (opt_port options) 6379 = NInt a"
    "or_default (opt_timeoutMs options) 5000 = NInt b" "or_default (opt_maxRedirects options) 5 = NInt c"
    "or_default (opt_poolSize options) 4 = NInt d"
    and range: "1 \<le> a" "a \<le> 65535" "1 \<le> b" "b \<le> 120000" "0 \<le> c" "c \<le> 16" "1 \<le> d" "d \<le> 32"
    using within [THEN int_withinD] by auto
  have "cfg = \<lparr>cfg_origin = \<lparr>ep_host = opt_host options, ep_port = a\<rparr>, cfg_password = opt_password options,
       cfg_timeoutMs = b, cfg_maxRedirects = nat c, cfg_poolSize = nat d\<rparr>"
    using assms eq within unfolding check_options_def Let_def by (simp add: int_of_number_def split: if_splits)
  with range show ?thesis by blast
qed

text \<open>
  Options that are accepted give a port, a timeout, a redirect bound and a pool size inside their
  documented ranges, and the pool then serves its commands by its lanes in turn.
\<close>

theorem accepted_options_in_range:
  assumes "check_options options = Inr cfg"
  shows "1 \<le> ep_port (cfg_origin cfg) \<and> ep_port (cfg_origin cfg) \<le> 65535 \<and>
    1 \<le> cfg_timeoutMs cfg \<and> cfg_timeoutMs cfg \<le> 120000 \<and> cfg_maxRedirects cfg \<le> 16 \<and>
    1 \<le> cfg_poolSize cfg \<and> cfg_poolSize cfg \<le> 32 \<and>
    (\<forall>k. fst (pool_execute (((\<lambda>p. snd (pool_execute p)) ^^ k) (new_pool endpoint (cfg_poolSize cfg)))) =
       Inr (k mod cfg_poolSize cfg))"
proof -
  have range: "1 \<le> ep_port (cfg_origin cfg) \<and> ep_port (cfg_origin cfg) \<le> 65535 \<and>
    1 \<le> cfg_timeoutMs cfg \<and> cfg_timeoutMs cfg \<le> 120000 \<and> cfg_maxRedirects cfg \<le> 16 \<and>
    1 \<le> cfg_poolSize cfg \<and> cfg_poolSize cfg \<le> 32"
    using check_options_Inr [OF assms] by auto
  have "((\<lambda>p. snd (pool_execute p)) ^^ k) (new_pool endpoint (cfg_poolSize cfg)) =
      (new_pool endpoint (cfg_poolSize cfg))\<lparr>pool_next := k\<rparr>" for k
    using range by (induction k) (simp_all add: pool_execute_def new_pool_def)
  with range show ?thesis by (simp add: pool_execute_def new_pool_def)
qed

theorem accepted_options_in_range_witness:
  "\<exists>cfg. check_options \<lparr>opt_host = ''h'', opt_port = None, opt_password = None, opt_timeoutMs = None,
      opt_maxRedirects = None, opt_poolSize = Some (NInt 8)\<rparr> = Inr cfg \<and> cfg_poolSize cfg \<le> 32"
proof -
  let ?o = "\<lparr>opt_host = ''h'', opt_port = None, opt_password = None, opt_timeoutMs = None,
      opt_maxRedirects = None, opt_poolSize = Some (NInt 8)\<rparr>"
  have "\<exists>cfg. check_options ?o = Inr cfg"
    by (simp add: check_options_def Let_def int_within_def or_default_def trim_def is_ws_def)
  then show ?thesis using accepted_options_in_range by blast
qed

end
