(* ===== verification/Conversation_Store.thy ===== *)
theory Conversation_Store
  imports Js_Json
begin

text \<open>
  The conversation store, \<^verbatim>\<open>packages/conversations/src/contracts.ts\<close> and
  \<^verbatim>\<open>packages/conversations/src/memory.ts\<close>: conversations with their messages, and protocol runs
  with their events. The four \<open>Map\<close>s are association lists in insertion order; \<open>set\<close> keeps the
  place of a key it overwrites. An operation returns the thrown error or its result with the next
  store; values are immutable here, so \<open>clone\<close> is the identity. \<open>Date.parse\<close> is a parameter that
  yields no number on a text that is not a date.
\<close>

section \<open>Records\<close>

record ApplicationAIConversationRecord =
  conv_id :: string
  conv_principalScope :: string
  conv_title :: "string option"
  conv_revision :: int
  conv_createdAt :: string
  conv_updatedAt :: string
  conv_archivedAt :: "string option"
  conv_retentionUntil :: "string option"

datatype message_role = RoleSystem | RoleUser | RoleAssistant | RoleTool
datatype message_state = Committed | MsgRejected

record ApplicationAIMessageRecord =
  msg_id :: string
  msg_conversationId :: string
  msg_revision :: int
  msg_role :: message_role
  msg_content :: jsval
  msg_state :: message_state
  msg_invocationId :: "string option"
  msg_createdAt :: string

datatype run_status = Running | Interrupted | Completed | Failed | Cancelled

fun status_literal :: "run_status \<Rightarrow> string" where
  "status_literal Running = ''running''"
| "status_literal Interrupted = ''interrupted''"
| "status_literal Completed = ''completed''"
| "status_literal Failed = ''failed''"
| "status_literal Cancelled = ''cancelled''"

record ApplicationAIProtocolRunRecord =
  run_id :: string
  run_conversationId :: string
  run_principalScope :: string
  run_status :: run_status
  run_agentRunId :: "string option"
  run_invocationId :: "string option"
  run_terminalReason :: "string option"
  run_runtimeState :: "jsobject option"
  run_startedAt :: string
  run_updatedAt :: string

datatype event_visibility = Browser | AuditOnly

record ApplicationAIRunEventRecord =
  ev_runId :: string
  ev_sequence :: int
  ev_type :: string
  ev_payload :: jsobject
  ev_visibility :: event_visibility
  ev_createdAt :: string

record ApplicationConversationMessageInput =
  in_id :: string
  in_role :: message_role
  in_content :: jsval
  in_state :: "message_state option"
  in_invocationId :: "string option"
  in_createdAt :: string

record ApplicationConversationRunInput =
  start_id :: string
  start_conversationId :: string
  start_principalScope :: string
  start_agentRunId :: "string option"
  start_invocationId :: "string option"
  start_startedAt :: string

datatype conversation_error =
    ApplicationConversationConflictError string
  | PlainError string

text \<open>\<open>error instanceof ApplicationConversationConflictError\<close>\<close>

fun is_conflict :: "conversation_error \<Rightarrow> bool" where
  "is_conflict (ApplicationConversationConflictError message) = True"
| "is_conflict (PlainError message) = False"

record conversation_store =
  st_conversations :: "(string \<times> ApplicationAIConversationRecord) list"
  st_messages :: "(string \<times> ApplicationAIMessageRecord list) list"
  st_runs :: "(string \<times> ApplicationAIProtocolRunRecord) list"
  st_events :: "(string \<times> ApplicationAIRunEventRecord list) list"

definition createMemoryApplicationConversationStore :: conversation_store where
  "createMemoryApplicationConversationStore =
     \<lparr>st_conversations = [], st_messages = [], st_runs = [], st_events = []\<rparr>"

section \<open>Shared pieces\<close>

text \<open>\<open>conversations.get(id)?.principalScope === scope\<close>, and the same for runs.\<close>

definition scoped_conversation ::
  "conversation_store \<Rightarrow> string \<Rightarrow> string \<Rightarrow> ApplicationAIConversationRecord option" where
  "scoped_conversation s cid scope =
     (case map_of (st_conversations s) cid of
        Some c \<Rightarrow> if conv_principalScope c = scope then Some c else None
      | None \<Rightarrow> None)"

definition scoped_run :: "conversation_store \<Rightarrow> string \<Rightarrow> string \<Rightarrow> ApplicationAIProtocolRunRecord option" where
  "scoped_run s rid scope =
     (case map_of (st_runs s) rid of
        Some r \<Rightarrow> if run_principalScope r = scope then Some r else None
      | None \<Rightarrow> None)"

definition messages_of :: "conversation_store \<Rightarrow> string \<Rightarrow> ApplicationAIMessageRecord list" where
  "messages_of s cid = (case map_of (st_messages s) cid of None \<Rightarrow> [] | Some ms \<Rightarrow> ms)"

definition events_of :: "conversation_store \<Rightarrow> string \<Rightarrow> ApplicationAIRunEventRecord list" where
  "events_of s rid = (case map_of (st_events s) rid of None \<Rightarrow> [] | Some es \<Rightarrow> es)"

fun allowedRunTransition :: "run_status \<Rightarrow> run_status \<Rightarrow> bool" where
  "allowedRunTransition Running to = (to \<in> {Interrupted, Completed, Failed, Cancelled})"
| "allowedRunTransition Interrupted to = (to \<in> {Running, Failed, Cancelled})"
| "allowedRunTransition _ to = False"

definition assertLimit :: "js_number \<Rightarrow> conversation_error + nat" where
  "assertLimit limit =
     (case limit of
        NInt i \<Rightarrow>
          (if \<not> isSafeInteger limit \<or> i < 1 \<or> 1000 < i
           then Inl (PlainError ''Conversation page limit must be between 1 and 1000.'')
           else Inr (nat i))
      | _ \<Rightarrow> Inl (PlainError ''Conversation page limit must be between 1 and 1000.''))"

definition message_record ::
  "string \<Rightarrow> int \<Rightarrow> ApplicationConversationMessageInput \<Rightarrow> ApplicationAIMessageRecord" where
  "message_record cid revision input =
     \<lparr>msg_id = in_id input, msg_conversationId = cid, msg_revision = revision, msg_role = in_role input,
      msg_content = in_content input,
      msg_state = (case in_state input of None \<Rightarrow> Committed | Some st \<Rightarrow> st),
      msg_invocationId = truthy_text (in_invocationId input), msg_createdAt = in_createdAt input\<rparr>"

section \<open>Conversations and messages\<close>

definition createConversation ::
  "ApplicationAIConversationRecord \<Rightarrow> conversation_store \<Rightarrow>
   conversation_error + ApplicationAIConversationRecord \<times> conversation_store" where
  "createConversation conversation s =
     (if map_of (st_conversations s) (conv_id conversation) \<noteq> None
      then Inl (ApplicationConversationConflictError
             (''Conversation '' @ conv_id conversation @ '' already exists.''))
      else Inr (conversation,
             s\<lparr>st_conversations := AList.update (conv_id conversation) conversation (st_conversations s)\<rparr>))"

definition getConversation ::
  "string \<Rightarrow> string \<Rightarrow> conversation_store \<Rightarrow> ApplicationAIConversationRecord option" where
  "getConversation cid scope s = scoped_conversation s cid scope"

definition getMessage ::
  "string \<Rightarrow> string \<Rightarrow> string \<Rightarrow> conversation_store \<Rightarrow> ApplicationAIMessageRecord option" where
  "getMessage mid cid scope s =
     (case scoped_conversation s cid scope of
        None \<Rightarrow> None
      | Some _ \<Rightarrow> List.find (\<lambda>candidate. msg_id candidate = mid) (messages_of s cid))"

definition appendMessage ::
  "string \<Rightarrow> string \<Rightarrow> int \<Rightarrow> ApplicationConversationMessageInput \<Rightarrow> conversation_store \<Rightarrow>
   conversation_error + (ApplicationAIConversationRecord \<times> ApplicationAIMessageRecord) \<times> conversation_store" where
  "appendMessage cid scope expectedRevision input s =
     (let conflict = Inl (ApplicationConversationConflictError
            (''Conversation '' @ cid @ '' is absent, outside the admitted scope, or no longer at revision '' @
             int_to_string expectedRevision @ ''.''))
      in case scoped_conversation s cid scope of
           None \<Rightarrow> conflict
         | Some conversation \<Rightarrow>
             (if conv_revision conversation \<noteq> expectedRevision then conflict
              else if list_ex (\<lambda>m. msg_id m = in_id input) (messages_of s cid)
              then Inl (ApplicationConversationConflictError (''Message '' @ in_id input @ '' already exists.''))
              else
                (let nextConversation = conversation\<lparr>conv_revision := conv_revision conversation + 1,
                       conv_updatedAt := in_createdAt input\<rparr>;
                     message = message_record cid (conv_revision nextConversation) input
                 in Inr ((nextConversation, message),
                      s\<lparr>st_conversations := AList.update cid nextConversation (st_conversations s),
                        st_messages := AList.update cid (messages_of s cid @ [message]) (st_messages s)\<rparr>))))"

definition listMessages ::
  "string \<Rightarrow> string \<Rightarrow> int option \<Rightarrow> js_number \<Rightarrow> conversation_store \<Rightarrow>
   conversation_error + ApplicationAIMessageRecord list" where
  "listMessages cid scope afterRevision limit s =
     (case assertLimit limit of
        Inl e \<Rightarrow> Inl e
      | Inr n \<Rightarrow>
          (case scoped_conversation s cid scope of
             None \<Rightarrow> Inr []
           | Some _ \<Rightarrow>
               Inr (take n (filter (\<lambda>m. msg_revision m > (case afterRevision of None \<Rightarrow> 0 | Some r \<Rightarrow> r))
                 (messages_of s cid)))))"

text \<open>The \<open>map\<close> of \<open>replaceMessages\<close>, which throws on the first repeated identifier.\<close>

fun replacement_from ::
  "string \<Rightarrow> string list \<Rightarrow> nat \<Rightarrow> ApplicationConversationMessageInput list \<Rightarrow>
   conversation_error + ApplicationAIMessageRecord list" where
  "replacement_from cid identifiers index [] = Inr []"
| "replacement_from cid identifiers index (input # inputs) =
     (if in_id input \<in> set identifiers
      then Inl (ApplicationConversationConflictError
             (''Message '' @ in_id input @ '' occurs more than once in the authoritative transcript.''))
      else (case replacement_from cid (in_id input # identifiers) (index + 1) inputs of
              Inl e \<Rightarrow> Inl e
            | Inr ms \<Rightarrow> Inr (message_record cid (int index + 1) input # ms)))"

definition replaceMessages ::
  "string \<Rightarrow> string \<Rightarrow> ApplicationConversationMessageInput list \<Rightarrow> string \<Rightarrow> conversation_store \<Rightarrow>
   conversation_error + conversation_store" where
  "replaceMessages cid scope inputs updatedAt s =
     (case scoped_conversation s cid scope of
        None \<Rightarrow> Inl (ApplicationConversationConflictError
                  (''Conversation '' @ cid @ '' is absent or outside the admitted scope.''))
      | Some conversation \<Rightarrow>
          (case replacement_from cid [] 0 inputs of
             Inl e \<Rightarrow> Inl e
           | Inr replacement \<Rightarrow>
               Inr (s\<lparr>st_messages := AList.update cid replacement (st_messages s),
                      st_conversations := AList.update cid
                        (conversation\<lparr>conv_revision := int (length replacement), conv_updatedAt := updatedAt\<rparr>)
                        (st_conversations s)\<rparr>)))"

section \<open>Runs and events\<close>

definition startRun ::
  "ApplicationConversationRunInput \<Rightarrow> conversation_store \<Rightarrow>
   conversation_error + ApplicationAIProtocolRunRecord \<times> conversation_store" where
  "startRun input s =
     (if scoped_conversation s (start_conversationId input) (start_principalScope input) = None \<or>
         map_of (st_runs s) (start_id input) \<noteq> None
      then Inl (ApplicationConversationConflictError
             (''Run '' @ start_id input @ '' already exists or its conversation is outside the admitted scope.''))
      else
        (let run = \<lparr>run_id = start_id input, run_conversationId = start_conversationId input,
               run_principalScope = start_principalScope input, run_status = Running,
               run_agentRunId = truthy_text (start_agentRunId input),
               run_invocationId = truthy_text (start_invocationId input), run_terminalReason = None,
               run_runtimeState = None, run_startedAt = start_startedAt input,
               run_updatedAt = start_startedAt input\<rparr>
         in Inr (run, s\<lparr>st_runs := AList.update (run_id run) run (st_runs s)\<rparr>)))"

definition getRun :: "string \<Rightarrow> string \<Rightarrow> conversation_store \<Rightarrow> ApplicationAIProtocolRunRecord option" where
  "getRun rid scope s = scoped_run s rid scope"

text \<open>\<open>Date.parse(left.startedAt) - Date.parse(right.startedAt)\<close>; \<open>NaN\<close> sorts as zero.\<close>

definition compareStarts ::
  "(string \<Rightarrow> int option) \<Rightarrow> ApplicationAIProtocolRunRecord \<Rightarrow> ApplicationAIProtocolRunRecord \<Rightarrow> int" where
  "compareStarts date left right =
     (case (date (run_startedAt left), date (run_startedAt right)) of
        (Some l, Some r) \<Rightarrow> l - r
      | _ \<Rightarrow> 0)"

definition listRuns ::
  "(string \<Rightarrow> int option) \<Rightarrow> string \<Rightarrow> string \<Rightarrow> conversation_store \<Rightarrow> ApplicationAIProtocolRunRecord list" where
  "listRuns date cid scope s =
     js_sort (compareStarts date)
       (filter (\<lambda>r. run_conversationId r = cid \<and> run_principalScope r = scope) (map snd (st_runs s)))"

text \<open>
  \<open>terminalReason\<close> of \<open>patchRun\<close> is absent (\<open>None\<close>), \<open>null\<close> (\<open>Some None\<close>) or a text.
\<close>

definition patchRun ::
  "string \<Rightarrow> string \<Rightarrow> run_status option \<Rightarrow> string \<Rightarrow> string option option \<Rightarrow> jsobject option \<Rightarrow>
   conversation_store \<Rightarrow> ApplicationAIProtocolRunRecord option \<times> conversation_store" where
  "patchRun rid scope status updatedAt terminalReason runtimeState s =
     (case scoped_run s rid scope of
        None \<Rightarrow> (None, s)
      | Some run \<Rightarrow>
          (let kept = (if terminalReason = Some None then run\<lparr>run_terminalReason := None\<rparr> else run);
               patched = kept\<lparr>
                 run_status := (case status of None \<Rightarrow> run_status kept | Some st \<Rightarrow> st),
                 run_terminalReason := (case truthy_text (Option.bind terminalReason (\<lambda>t. t)) of
                    None \<Rightarrow> run_terminalReason kept | Some t \<Rightarrow> Some t),
                 run_runtimeState := (case runtimeState of None \<Rightarrow> run_runtimeState kept | Some rs \<Rightarrow> Some rs),
                 run_updatedAt := updatedAt\<rparr>
           in (Some patched, s\<lparr>st_runs := AList.update (run_id run) patched (st_runs s)\<rparr>)))"

definition transitionRun ::
  "string \<Rightarrow> string \<Rightarrow> run_status \<Rightarrow> run_status \<Rightarrow> string \<Rightarrow> string option \<Rightarrow> conversation_store \<Rightarrow>
   conversation_error + ApplicationAIProtocolRunRecord \<times> conversation_store" where
  "transitionRun rid scope frm to updatedAt terminalReason s =
     (let conflict = Inl (ApplicationConversationConflictError
            (''Run '' @ rid @ '' cannot transition from '' @ status_literal frm @ '' to '' @ status_literal to @ ''.''))
      in case scoped_run s rid scope of
           None \<Rightarrow> conflict
         | Some run \<Rightarrow>
             (if run_status run \<noteq> frm \<or> \<not> allowedRunTransition frm to then conflict
              else
                (let transitioned = run\<lparr>run_status := to,
                       run_terminalReason := (case truthy_text terminalReason of
                          None \<Rightarrow> run_terminalReason run | Some t \<Rightarrow> Some t),
                       run_updatedAt := updatedAt\<rparr>
                 in Inr (transitioned, s\<lparr>st_runs := AList.update (run_id run) transitioned (st_runs s)\<rparr>))))"

text \<open>The event without its run and sequence, which the store fills in.\<close>

definition appendRunEvent ::
  "string \<Rightarrow> string \<Rightarrow> int \<Rightarrow> ApplicationAIRunEventRecord \<Rightarrow> conversation_store \<Rightarrow>
   conversation_error + ApplicationAIRunEventRecord \<times> conversation_store" where
  "appendRunEvent rid scope expectedSequence input s =
     (if scoped_run s rid scope = None \<or> int (length (events_of s rid)) \<noteq> expectedSequence
      then Inl (ApplicationConversationConflictError
             (''Run '' @ rid @ '' is outside the admitted scope or no longer at event sequence '' @
              int_to_string expectedSequence @ ''.''))
      else
        (let event = input\<lparr>ev_runId := rid, ev_sequence := expectedSequence + 1\<rparr>
         in Inr (event, s\<lparr>st_events := AList.update rid (events_of s rid @ [event]) (st_events s)\<rparr>)))"

definition getRunEvent ::
  "string \<Rightarrow> string \<Rightarrow> int \<Rightarrow> conversation_store \<Rightarrow> ApplicationAIRunEventRecord option" where
  "getRunEvent rid scope sequence s =
     (case scoped_run s rid scope of
        None \<Rightarrow> None
      | Some _ \<Rightarrow> List.find (\<lambda>candidate. ev_sequence candidate = sequence) (events_of s rid))"

definition getRunEventFrontier :: "string \<Rightarrow> string \<Rightarrow> conversation_store \<Rightarrow> int" where
  "getRunEventFrontier rid scope s =
     (case scoped_run s rid scope of
        None \<Rightarrow> 0
      | Some _ \<Rightarrow> (if events_of s rid = [] then 0 else ev_sequence (last (events_of s rid))))"

definition listRunEvents ::
  "string \<Rightarrow> string \<Rightarrow> int option \<Rightarrow> js_number \<Rightarrow> event_visibility option \<Rightarrow> conversation_store \<Rightarrow>
   conversation_error + ApplicationAIRunEventRecord list" where
  "listRunEvents rid scope afterSequence limit visibility s =
     (case assertLimit limit of
        Inl e \<Rightarrow> Inl e
      | Inr n \<Rightarrow>
          (case scoped_run s rid scope of
             None \<Rightarrow> Inr []
           | Some _ \<Rightarrow>
               Inr (take n (filter (\<lambda>e. ev_sequence e > (case afterSequence of None \<Rightarrow> 0 | Some q \<Rightarrow> q) \<and>
                   (case visibility of None \<Rightarrow> True | Some v \<Rightarrow> ev_visibility e = v)) (events_of s rid)))))"

section \<open>Reading a whole transcript\<close>

text \<open>
  \<open>loadAllMessages\<close> of \<^verbatim>\<open>tanstack-persistence.ts\<close>: pages of 250 until a shorter one. The
  \<open>while (true)\<close> loop is a partial function; \<open>None\<close> is a loop that never returns.
\<close>

partial_function (option) load_pages ::
  "(int option \<Rightarrow> 'e + 'a list) \<Rightarrow> ('a \<Rightarrow> int) \<Rightarrow> int option \<Rightarrow> 'a list \<Rightarrow> ('e + 'a list) option" where
  "load_pages list_after revision after values =
     (case list_after after of
        Inl e \<Rightarrow> Some (Inl e)
      | Inr page \<Rightarrow>
          (if length page < 250 then Some (Inr (values @ page))
           else load_pages list_after revision (Some (revision (last page))) (values @ page)))"

definition loadAllMessages ::
  "string \<Rightarrow> string \<Rightarrow> conversation_store \<Rightarrow> (conversation_error + ApplicationAIMessageRecord list) option" where
  "loadAllMessages conversationId principalScope s =
     load_pages (\<lambda>after. listMessages conversationId principalScope after (NInt 250) s) msg_revision None []"

end
