(* ===== verification/Conversation_Laws.thy ===== *)
theory Conversation_Laws
  imports Conversation_Store
begin

text \<open>
  What the conversation store of \<^verbatim>\<open>packages/conversations/src/memory.ts\<close> promises its callers. The
  mutating operations of the interface \<open>ApplicationConversationStore\<close> are the constructors of
  \<open>conversation_call\<close>; a history is a list of calls, in the order the event loop runs them, and a call
  that throws leaves the store as it was. Two locales state the contracts that messages and run
  events share: a log appended to under an expected position, and pages read after a position.
\<close>

section \<open>Calls and histories\<close>

datatype conversation_call =
    CreateConversation ApplicationAIConversationRecord
  | AppendMessage string string int ApplicationConversationMessageInput
  | ReplaceMessages string string "ApplicationConversationMessageInput list" string
  | StartRun ApplicationConversationRunInput
  | PatchRun string string "run_status option" string "string option option" "jsobject option"
  | TransitionRun string string run_status run_status string "string option"
  | AppendRunEvent string string int ApplicationAIRunEventRecord

primrec perform :: "conversation_call \<Rightarrow> conversation_store \<Rightarrow> conversation_error + conversation_store" where
  "perform (CreateConversation c) s = map_sum id snd (createConversation c s)"
| "perform (AppendMessage cid scope expected input) s = map_sum id snd (appendMessage cid scope expected input s)"
| "perform (ReplaceMessages cid scope inputs updatedAt) s = replaceMessages cid scope inputs updatedAt s"
| "perform (StartRun input) s = map_sum id snd (startRun input s)"
| "perform (PatchRun rid scope status updatedAt reason state) s =
     Inr (snd (patchRun rid scope status updatedAt reason state s))"
| "perform (TransitionRun rid scope frm to updatedAt reason) s =
     map_sum id snd (transitionRun rid scope frm to updatedAt reason s)"
| "perform (AppendRunEvent rid scope expected input) s = map_sum id snd (appendRunEvent rid scope expected input s)"

definition attempt :: "conversation_call \<Rightarrow> conversation_store \<Rightarrow> conversation_store" where
  "attempt call s = (case perform call s of Inl _ \<Rightarrow> s | Inr s' \<Rightarrow> s')"

primrec call_scope :: "conversation_call \<Rightarrow> string" where
  "call_scope (CreateConversation c) = conv_principalScope c"
| "call_scope (AppendMessage cid scope expected input) = scope"
| "call_scope (ReplaceMessages cid scope inputs updatedAt) = scope"
| "call_scope (StartRun input) = start_principalScope input"
| "call_scope (PatchRun rid scope status updatedAt reason state) = scope"
| "call_scope (TransitionRun rid scope frm to updatedAt reason) = scope"
| "call_scope (AppendRunEvent rid scope expected input) = scope"

text \<open>Both callers of \<open>createConversation\<close> start at revision 0; a negative start is excluded here.\<close>

primrec admissible :: "conversation_call \<Rightarrow> bool" where
  "admissible (CreateConversation c) = (0 \<le> conv_revision c)"
| "admissible (AppendMessage cid scope expected input) = True"
| "admissible (ReplaceMessages cid scope inputs updatedAt) = True"
| "admissible (StartRun input) = True"
| "admissible (PatchRun rid scope status updatedAt reason state) = True"
| "admissible (TransitionRun rid scope frm to updatedAt reason) = True"
| "admissible (AppendRunEvent rid scope expected input) = True"

definition history :: "conversation_call list \<Rightarrow> conversation_store" where
  "history calls = fold attempt calls createMemoryApplicationConversationStore"

lemma history_induct:
  assumes "P createMemoryApplicationConversationStore"
    and "\<And>call s. \<lbrakk>P s; ok call\<rbrakk> \<Longrightarrow> P (attempt call s)" and "\<forall>call \<in> set calls. ok call"
  shows "P (history calls)"
proof -
  have "P (fold attempt calls s)" if "P s" "\<forall>call \<in> set calls. ok call" for s
    using that assms(2) by (induction calls arbitrary: s) auto
  then show ?thesis using assms(1,3) by (simp add: history_def)
qed

section \<open>Reading the updated maps\<close>

lemma scoped_conversation_Some:
  "scoped_conversation s cid scope = Some c \<longleftrightarrow>
   map_of (st_conversations s) cid = Some c \<and> conv_principalScope c = scope"
  by (auto simp: scoped_conversation_def split: option.splits)

lemma scoped_run_Some:
  "scoped_run s rid scope = Some r \<longleftrightarrow> map_of (st_runs s) rid = Some r \<and> run_principalScope r = scope"
  by (auto simp: scoped_run_def split: option.splits)

lemma map_of_AList_update [simp]: "map_of (AList.update k v al) = (map_of al)(k \<mapsto> v)"
  by (rule update_conv')

lemma messages_of_update [simp]:
  "messages_of (st\<lparr>st_messages := AList.update cid ms (st_messages s)\<rparr>) k =
   (if k = cid then ms else messages_of s k)"
  "messages_of (st\<lparr>st_conversations := x\<rparr>) k = messages_of st k"
  "messages_of (st\<lparr>st_runs := y\<rparr>) k = messages_of st k"
  "messages_of (st\<lparr>st_events := z\<rparr>) k = messages_of st k"
  by (auto simp: messages_of_def)

lemma events_of_update [simp]:
  "events_of (st\<lparr>st_events := AList.update rid es (st_events s)\<rparr>) k =
   (if k = rid then es else events_of s k)"
  "events_of (st\<lparr>st_conversations := x\<rparr>) k = events_of st k"
  "events_of (st\<lparr>st_runs := y\<rparr>) k = events_of st k"
  "events_of (st\<lparr>st_messages := z\<rparr>) k = events_of st k"
  by (auto simp: events_of_def)

section \<open>What a successful call did\<close>

lemma createConversation_ok:
  "createConversation c s = Inr (r, s') \<longleftrightarrow>
   map_of (st_conversations s) (conv_id c) = None \<and> r = c \<and>
   s' = s\<lparr>st_conversations := AList.update (conv_id c) c (st_conversations s)\<rparr>"
  by (auto simp: createConversation_def)

lemma appendMessage_ok:
  "appendMessage cid scope expected input s = Inr ((c', m), s') \<longleftrightarrow>
   (\<exists>c. map_of (st_conversations s) cid = Some c \<and> conv_principalScope c = scope \<and>
        conv_revision c = expected \<and> in_id input \<notin> msg_id ` set (messages_of s cid) \<and>
        c' = c\<lparr>conv_revision := expected + 1, conv_updatedAt := in_createdAt input\<rparr> \<and>
        m = message_record cid (expected + 1) input \<and>
        s' = s\<lparr>st_conversations := AList.update cid c' (st_conversations s),
               st_messages := AList.update cid (messages_of s cid @ [m]) (st_messages s)\<rparr>)"
  by (auto simp: appendMessage_def scoped_conversation_def Let_def list_ex_iff image_iff
      split: if_splits option.splits) metis

lemma replaceMessages_ok:
  "replaceMessages cid scope inputs updatedAt s = Inr s' \<longleftrightarrow>
   (\<exists>c ms. map_of (st_conversations s) cid = Some c \<and> conv_principalScope c = scope \<and>
        replacement_from cid [] 0 inputs = Inr ms \<and>
        s' = s\<lparr>st_messages := AList.update cid ms (st_messages s),
               st_conversations := AList.update cid
                 (c\<lparr>conv_revision := int (length ms), conv_updatedAt := updatedAt\<rparr>) (st_conversations s)\<rparr>)"
  by (auto simp: replaceMessages_def scoped_conversation_def split: sum.splits option.splits if_splits)

lemma startRun_ok:
  "startRun input s = Inr (r, s') \<longleftrightarrow>
   (\<exists>c. map_of (st_conversations s) (start_conversationId input) = Some c \<and>
        conv_principalScope c = start_principalScope input) \<and>
   map_of (st_runs s) (start_id input) = None \<and>
   r = \<lparr>run_id = start_id input, run_conversationId = start_conversationId input,
        run_principalScope = start_principalScope input, run_status = Running,
        run_agentRunId = truthy_text (start_agentRunId input),
        run_invocationId = truthy_text (start_invocationId input), run_terminalReason = None,
        run_runtimeState = None, run_startedAt = start_startedAt input,
        run_updatedAt = start_startedAt input\<rparr> \<and>
   s' = s\<lparr>st_runs := AList.update (start_id input) r (st_runs s)\<rparr>"
  by (auto simp: startRun_def Let_def scoped_conversation_def split: option.splits if_splits)

lemma transitionRun_ok:
  "transitionRun rid scope frm to updatedAt reason s = Inr (r', s') \<longleftrightarrow>
   (\<exists>r. map_of (st_runs s) rid = Some r \<and> run_principalScope r = scope \<and> run_status r = frm \<and>
        allowedRunTransition frm to \<and>
        r' = r\<lparr>run_status := to, run_terminalReason := (case truthy_text reason of
                None \<Rightarrow> run_terminalReason r | Some t \<Rightarrow> Some t), run_updatedAt := updatedAt\<rparr> \<and>
        s' = s\<lparr>st_runs := AList.update (run_id r) r' (st_runs s)\<rparr>)"
  by (auto simp: transitionRun_def scoped_run_def Let_def split: if_splits option.splits)

lemma appendRunEvent_ok:
  "appendRunEvent rid scope expected input s = Inr (e, s') \<longleftrightarrow>
   (\<exists>r. map_of (st_runs s) rid = Some r \<and> run_principalScope r = scope) \<and>
   int (length (events_of s rid)) = expected \<and> e = input\<lparr>ev_runId := rid, ev_sequence := expected + 1\<rparr> \<and>
   s' = s\<lparr>st_events := AList.update rid (events_of s rid @ [e]) (st_events s)\<rparr>"
  by (auto simp: appendRunEvent_def Let_def scoped_run_def split: option.splits if_splits)

lemma patchRun_cases:
  obtains (absent) "patchRun rid scope status updatedAt reason state s = (None, s)"
  | (patched) r r' where "map_of (st_runs s) rid = Some r" "run_principalScope r = scope"
      "patchRun rid scope status updatedAt reason state s =
         (Some r', s\<lparr>st_runs := AList.update (run_id r) r' (st_runs s)\<rparr>)"
      "run_id r' = run_id r" "run_conversationId r' = run_conversationId r"
      "run_principalScope r' = run_principalScope r"
      "run_agentRunId r' = run_agentRunId r" "run_invocationId r' = run_invocationId r"
proof (cases "scoped_run s rid scope")
  case None
  then show ?thesis by (intro absent) (simp add: patchRun_def)
next
  case (Some r)
  then have "map_of (st_runs s) rid = Some r" "run_principalScope r = scope"
    by (simp_all add: scoped_run_Some)
  with Some show ?thesis
    by (intro patched [of r "the (fst (patchRun rid scope status updatedAt reason state s))"])
       (simp_all add: patchRun_def Let_def)
qed

lemmas call_ok = createConversation_ok appendMessage_ok replaceMessages_ok startRun_ok transitionRun_ok
  appendRunEvent_ok

lemma map_sum_snd: "map_sum id snd x = Inr b \<longleftrightarrow> (\<exists>a. x = Inr (a, b))"
  by (cases x) auto

lemma perform_Inr:
  "perform (CreateConversation c) s = Inr s' \<longleftrightarrow> (\<exists>r. createConversation c s = Inr (r, s'))"
  "perform (AppendMessage cid scope n input) s = Inr s' \<longleftrightarrow> (\<exists>c m. appendMessage cid scope n input s = Inr ((c, m), s'))"
  "perform (StartRun si) s = Inr s' \<longleftrightarrow> (\<exists>r. startRun si s = Inr (r, s'))"
  "perform (TransitionRun rid scope frm to updatedAt reason) s = Inr s' \<longleftrightarrow>
     (\<exists>r. transitionRun rid scope frm to updatedAt reason s = Inr (r, s'))"
  "perform (AppendRunEvent rid scope n e) s = Inr s' \<longleftrightarrow> (\<exists>r. appendRunEvent rid scope n e s = Inr (r, s'))"
  by (simp_all add: map_sum_snd)

lemma attempt_cases [case_names fails succeeds]:
  assumes "attempt call s = s \<Longrightarrow> P" and "\<And>s'. \<lbrakk>perform call s = Inr s'; attempt call s = s'\<rbrakk> \<Longrightarrow> P"
  shows P
  using assms by (cases "perform call s") (auto simp: attempt_def)

section \<open>The store invariant\<close>

definition transcript_ok :: "string \<Rightarrow> int \<Rightarrow> ApplicationAIMessageRecord list \<Rightarrow> bool" where
  "transcript_ok cid revision ms \<longleftrightarrow>
     0 \<le> revision \<and> sorted_wrt (<) (map msg_revision ms) \<and> distinct (map msg_id ms) \<and>
     (\<forall>m \<in> set ms. msg_conversationId m = cid \<and> 0 < msg_revision m \<and> msg_revision m \<le> revision)"

definition event_log_ok :: "string \<Rightarrow> ApplicationAIRunEventRecord list \<Rightarrow> bool" where
  "event_log_ok rid es \<longleftrightarrow>
     (\<forall>i < length es. ev_runId (es ! i) = rid \<and> ev_sequence (es ! i) = int i + 1)"

definition keys_distinct :: "conversation_store \<Rightarrow> bool" where
  "keys_distinct s \<longleftrightarrow> distinct (map fst (st_conversations s)) \<and> distinct (map fst (st_runs s))"

definition conversations_ok :: "conversation_store \<Rightarrow> bool" where
  "conversations_ok s \<longleftrightarrow>
     (\<forall>cid c. map_of (st_conversations s) cid = Some c \<longrightarrow>
        conv_id c = cid \<and> transcript_ok cid (conv_revision c) (messages_of s cid)) \<and>
     (\<forall>cid. map_of (st_conversations s) cid = None \<longrightarrow> messages_of s cid = [])"

definition runs_ok :: "conversation_store \<Rightarrow> bool" where
  "runs_ok s \<longleftrightarrow>
     (\<forall>rid r. map_of (st_runs s) rid = Some r \<longrightarrow>
        run_id r = rid \<and> event_log_ok rid (events_of s rid) \<and>
        scoped_conversation s (run_conversationId r) (run_principalScope r) \<noteq> None) \<and>
     (\<forall>rid. map_of (st_runs s) rid = None \<longrightarrow> events_of s rid = [])"

definition store_ok :: "conversation_store \<Rightarrow> bool" where
  "store_ok s \<longleftrightarrow> keys_distinct s \<and> conversations_ok s \<and> runs_ok s"

lemma transcript_ok_Nil [simp]: "transcript_ok cid revision [] \<longleftrightarrow> 0 \<le> revision"
  by (simp add: transcript_ok_def)

lemma event_log_ok_Nil [simp]: "event_log_ok rid []"
  by (simp add: event_log_ok_def)

lemma transcript_ok_snoc:
  "\<lbrakk>transcript_ok cid revision ms; in_id input \<notin> msg_id ` set ms\<rbrakk> \<Longrightarrow>
   transcript_ok cid (revision + 1) (ms @ [message_record cid (revision + 1) input])"
  by (fastforce simp: transcript_ok_def sorted_wrt_append message_record_def)

lemma event_log_ok_snoc:
  "event_log_ok rid es \<Longrightarrow>
   event_log_ok rid (es @ [e\<lparr>ev_runId := rid, ev_sequence := int (length es) + 1\<rparr>])"
  by (auto simp: event_log_ok_def nth_append less_Suc_eq)

lemma replacement_from_ok:
  "replacement_from cid seen i inputs = Inr ms \<Longrightarrow>
   ms = map (\<lambda>(k, input). message_record cid (int k + 1) input) (enumerate i inputs) \<and>
   distinct (map in_id inputs) \<and> set (map in_id inputs) \<inter> set seen = {}"
  by (induction cid seen i inputs arbitrary: ms rule: replacement_from.induct)
     (auto split: if_splits sum.splits)

lemma transcript_ok_replacement:
  assumes "replacement_from cid [] 0 inputs = Inr ms"
  shows "transcript_ok cid (int (length ms)) ms"
proof -
  have ms: "ms = map (\<lambda>(k, input). message_record cid (int k + 1) input) (enumerate 0 inputs)"
    and d: "distinct (map in_id inputs)"
    using replacement_from_ok [OF assms] by auto
  have rev: "map msg_revision ms = map (\<lambda>k. int k + 1) [0..<length inputs]"
    by (simp add: ms map_equality_iff nth_enumerate_eq message_record_def)
  have ids: "map msg_id ms = map in_id inputs"
    by (simp add: ms map_equality_iff nth_enumerate_eq message_record_def)
  have "msg_conversationId m = cid \<and> 0 < msg_revision m \<and> msg_revision m \<le> int (length ms)" if "m \<in> set ms" for m
    using that by (auto simp: ms in_set_enumerate_eq message_record_def)
  moreover have "sorted_wrt (<) (map msg_revision ms)"
    unfolding rev by (auto simp: sorted_wrt_iff_nth_less)
  ultimately show ?thesis using d by (simp add: transcript_ok_def ids)
qed

lemma conversations_okD:
  "\<lbrakk>conversations_ok s; map_of (st_conversations s) cid = Some c\<rbrakk> \<Longrightarrow>
   conv_id c = cid \<and> transcript_ok cid (conv_revision c) (messages_of s cid)"
  by (simp add: conversations_ok_def)

lemma conversations_ok_absent:
  "\<lbrakk>conversations_ok s; map_of (st_conversations s) cid = None\<rbrakk> \<Longrightarrow> messages_of s cid = []"
  by (simp add: conversations_ok_def)

lemma runs_okD:
  "\<lbrakk>runs_ok s; map_of (st_runs s) rid = Some r\<rbrakk> \<Longrightarrow>
   run_id r = rid \<and> event_log_ok rid (events_of s rid) \<and>
   scoped_conversation s (run_conversationId r) (run_principalScope r) \<noteq> None"
  by (simp add: runs_ok_def)

lemma runs_ok_absent: "\<lbrakk>runs_ok s; map_of (st_runs s) rid = None\<rbrakk> \<Longrightarrow> events_of s rid = []"
  by (simp add: runs_ok_def)

lemma conversations_ok_put:
  assumes "conversations_ok s" "conv_id c = cid" "transcript_ok cid (conv_revision c) ms"
    and "st_conversations s' = AList.update cid c (st_conversations s)"
    and "\<And>k. messages_of s' k = (if k = cid then ms else messages_of s k)"
  shows "conversations_ok s'"
  using assms by (simp add: conversations_ok_def)

lemma conversations_ok_keep:
  "\<lbrakk>conversations_ok s; st_conversations s' = st_conversations s; \<And>k. messages_of s' k = messages_of s k\<rbrakk> \<Longrightarrow>
   conversations_ok s'"
  by (simp add: conversations_ok_def)

lemma runs_ok_put:
  assumes "runs_ok s" "run_id r = rid" "event_log_ok rid es"
    and "scoped_conversation s (run_conversationId r) (run_principalScope r) \<noteq> None"
    and "\<And>cid scope. scoped_conversation s' cid scope = scoped_conversation s cid scope"
    and "st_runs s' = AList.update rid r (st_runs s)"
    and "\<And>k. events_of s' k = (if k = rid then es else events_of s k)"
  shows "runs_ok s'"
  using assms by (simp add: runs_ok_def)

lemma runs_ok_keep:
  assumes "runs_ok s" "st_runs s' = st_runs s" "\<And>k. events_of s' k = events_of s k"
    and "\<And>cid scope. scoped_conversation s cid scope \<noteq> None \<Longrightarrow> scoped_conversation s' cid scope \<noteq> None"
  shows "runs_ok s'"
  using assms by (simp add: runs_ok_def)

lemma store_ok_initial: "store_ok createMemoryApplicationConversationStore"
  by (simp add: store_ok_def keys_distinct_def conversations_ok_def runs_ok_def messages_of_def events_of_def
      createMemoryApplicationConversationStore_def)

lemma keys_distinct_perform: "\<lbrakk>keys_distinct s; perform call s = Inr s'\<rbrakk> \<Longrightarrow> keys_distinct s'"
  by (cases call)
     (auto simp: keys_distinct_def perform_Inr call_ok distinct_update patchRun_def Let_def
           simp del: perform.simps(1,2,4,6,7) split: option.splits)

lemma scoped_conversation_same [simp]:
  "scoped_conversation (st\<lparr>st_runs := y\<rparr>) cid scope = scoped_conversation st cid scope"
  "scoped_conversation (st\<lparr>st_events := z\<rparr>) cid scope = scoped_conversation st cid scope"
  "scoped_conversation (st\<lparr>st_messages := x\<rparr>) cid scope = scoped_conversation st cid scope"
  by (simp_all add: scoped_conversation_def)

lemma conversations_ok_perform:
  assumes "conversations_ok s" "admissible call" "perform call s = Inr s'"
  shows "conversations_ok s'"
proof (cases call)
  case (CreateConversation c)
  with assms show ?thesis
    by (auto simp: perform_Inr call_ok conversations_ok_absent simp del: perform.simps(1)
        intro!: conversations_ok_put [where c = c and ms = "[]", OF assms(1) refl])
next
  case (AppendMessage cid scope n input)
  with assms(3) obtain c where c: "map_of (st_conversations s) cid = Some c" "conv_revision c = n"
    "in_id input \<notin> msg_id ` set (messages_of s cid)" and s': "s' = s\<lparr>
      st_conversations := AList.update cid (c\<lparr>conv_revision := n + 1, conv_updatedAt := in_createdAt input\<rparr>)
        (st_conversations s),
      st_messages := AList.update cid (messages_of s cid @ [message_record cid (n + 1) input]) (st_messages s)\<rparr>"
    by (auto simp: perform_Inr call_ok simp del: perform.simps(2))
  show ?thesis
    using conversations_okD [OF assms(1) c(1)] transcript_ok_snoc [OF _ c(3)] c(2)
    by (intro conversations_ok_put [OF assms(1), where cid = cid and
          c = "c\<lparr>conv_revision := n + 1, conv_updatedAt := in_createdAt input\<rparr>" and
          ms = "messages_of s cid @ [message_record cid (n + 1) input]"]) (auto simp: s')
next
  case (ReplaceMessages cid scope inputs updatedAt)
  with assms(3) obtain c ms where c: "map_of (st_conversations s) cid = Some c"
    "replacement_from cid [] 0 inputs = Inr ms"
    and s': "s' = s\<lparr>st_messages := AList.update cid ms (st_messages s),
      st_conversations := AList.update cid (c\<lparr>conv_revision := int (length ms), conv_updatedAt := updatedAt\<rparr>)
        (st_conversations s)\<rparr>"
    by (auto simp: call_ok)
  show ?thesis
    using conversations_okD [OF assms(1) c(1)] transcript_ok_replacement [OF c(2)]
    by (intro conversations_ok_put [OF assms(1), where cid = cid and ms = ms and
          c = "c\<lparr>conv_revision := int (length ms), conv_updatedAt := updatedAt\<rparr>"]) (auto simp: s')
next
  case (PatchRun rid scope status updatedAt reason state)
  with assms(1,3) show ?thesis
    by (cases rule: patchRun_cases [of rid scope status updatedAt reason state s])
       (auto intro: conversations_ok_keep)
qed (use assms in \<open>auto simp: perform_Inr call_ok simp del: perform.simps intro: conversations_ok_keep\<close>)

lemma scoped_conversation_kept:
  assumes "perform call s = Inr s'" "scoped_conversation s cid scope \<noteq> None"
  shows "scoped_conversation s' cid scope \<noteq> None"
  using assms by (cases call)
    (auto simp: perform_Inr call_ok scoped_conversation_def patchRun_def Let_def
      simp del: perform.simps(1,2,4,6,7) split: option.splits if_splits)

lemma runs_ok_perform:
  assumes "runs_ok s" "perform call s = Inr s'"
  shows "runs_ok s'"
proof (cases call)
  case (StartRun input)
  with assms(2) obtain r where "startRun input s = Inr (r, s')"
    by (auto simp: perform_Inr simp del: perform.simps)
  then have r: "map_of (st_runs s) (start_id input) = None" "run_id r = start_id input"
    "scoped_conversation s (run_conversationId r) (run_principalScope r) \<noteq> None"
    and s': "s' = s\<lparr>st_runs := AList.update (start_id input) r (st_runs s)\<rparr>"
    by (auto simp: startRun_ok scoped_conversation_def)
  show ?thesis
    by (rule runs_ok_put [OF assms(1) r(2), where es = "[]"])
       (use r in \<open>auto simp: s' runs_ok_absent [OF assms(1)]\<close>)
next
  case (PatchRun rid scope status updatedAt reason state)
  then show ?thesis
  proof (cases rule: patchRun_cases [of rid scope status updatedAt reason state s])
    case absent
    with PatchRun assms show ?thesis by simp
  next
    case (patched r r')
    from runs_okD [OF assms(1) patched(1)] patched PatchRun assms(2) show ?thesis
      by (intro runs_ok_put [OF assms(1), where r = r' and rid = rid and es = "events_of s rid"]) auto
  qed
next
  case (TransitionRun rid scope frm to updatedAt reason)
  with assms(2) obtain r' where "transitionRun rid scope frm to updatedAt reason s = Inr (r', s')"
    by (auto simp: perform_Inr simp del: perform.simps)
  then obtain r where r: "map_of (st_runs s) rid = Some r"
    "run_id r' = run_id r" "run_conversationId r' = run_conversationId r" "run_principalScope r' = run_principalScope r"
    and s': "s' = s\<lparr>st_runs := AList.update (run_id r) r' (st_runs s)\<rparr>"
    by (auto simp: transitionRun_ok)
  from runs_okD [OF assms(1) r(1)] r show ?thesis
    by (intro runs_ok_put [OF assms(1), where r = r' and rid = rid and es = "events_of s rid"]) (auto simp: s')
next
  case (AppendRunEvent rid scope n e)
  with assms(2) obtain r where r: "map_of (st_runs s) rid = Some r" and n: "int (length (events_of s rid)) = n"
    and s': "s' = s\<lparr>st_events := AList.update rid
      (events_of s rid @ [e\<lparr>ev_runId := rid, ev_sequence := n + 1\<rparr>]) (st_events s)\<rparr>"
    by (auto simp: perform_Inr call_ok simp del: perform.simps)
  show ?thesis
    using runs_okD [OF assms(1) r] event_log_ok_snoc [of rid "events_of s rid" e] r n assms(1)
    by (auto simp: s' runs_ok_def)
qed (use assms scoped_conversation_kept [OF assms(2)] in
      \<open>auto simp: perform_Inr call_ok simp del: perform.simps(1,2,4,6,7) intro!: runs_ok_keep [OF assms(1)]\<close>)

lemma store_ok_attempt: "\<lbrakk>store_ok s; admissible call\<rbrakk> \<Longrightarrow> store_ok (attempt call s)"
  by (rule attempt_cases [of call s])
     (auto simp: store_ok_def dest: keys_distinct_perform conversations_ok_perform runs_ok_perform)

lemma store_ok_history: "\<forall>call \<in> set calls. admissible call \<Longrightarrow> store_ok (history calls)"
  by (rule history_induct [where P = store_ok and ok = admissible])
     (auto simp: store_ok_initial store_ok_attempt)

section \<open>A sample history\<close>

definition sample_message :: ApplicationConversationMessageInput where
  "sample_message = \<lparr>in_id = ''m'', in_role = RoleUser, in_content = JString ''hi'', in_state = None,
     in_invocationId = None, in_createdAt = ''1''\<rparr>"

definition sample_event :: ApplicationAIRunEventRecord where
  "sample_event = \<lparr>ev_runId = [], ev_sequence = 0, ev_type = ''text'', ev_payload = [], ev_visibility = Browser,
     ev_createdAt = ''2''\<rparr>"

definition sample_calls :: "conversation_call list" where
  "sample_calls =
     [CreateConversation \<lparr>conv_id = ''c'', conv_principalScope = ''p'', conv_title = None, conv_revision = 0,
        conv_createdAt = ''0'', conv_updatedAt = ''0'', conv_archivedAt = None, conv_retentionUntil = None\<rparr>,
      AppendMessage ''c'' ''p'' 0 sample_message,
      StartRun \<lparr>start_id = ''r'', start_conversationId = ''c'', start_principalScope = ''p'',
        start_agentRunId = None, start_invocationId = None, start_startedAt = ''1''\<rparr>,
      AppendRunEvent ''r'' ''p'' 0 sample_event,
      TransitionRun ''r'' ''p'' Running Completed ''3'' None]"

lemma sample_admissible [simp]: "\<forall>call \<in> set sample_calls. admissible call"
  by (simp add: sample_calls_def)

lemma sample_history:
  "history sample_calls =
     \<lparr>st_conversations = [(''c'', \<lparr>conv_id = ''c'', conv_principalScope = ''p'', conv_title = None,
        conv_revision = 1, conv_createdAt = ''0'', conv_updatedAt = ''1'', conv_archivedAt = None,
        conv_retentionUntil = None\<rparr>)],
      st_messages = [(''c'', [message_record ''c'' 1 sample_message])],
      st_runs = [(''r'', \<lparr>run_id = ''r'', run_conversationId = ''c'', run_principalScope = ''p'',
        run_status = Completed, run_agentRunId = None, run_invocationId = None, run_terminalReason = None,
        run_runtimeState = None, run_startedAt = ''1'', run_updatedAt = ''3''\<rparr>)],
      st_events = [(''r'', [sample_event\<lparr>ev_runId := ''r'', ev_sequence := 1\<rparr>])]\<rparr>"
  by (simp add: history_def sample_calls_def attempt_def createMemoryApplicationConversationStore_def
      createConversation_def appendMessage_def scoped_conversation_def messages_of_def Let_def startRun_def
      appendRunEvent_def scoped_run_def events_of_def transitionRun_def truthy_text_def sample_message_def)

lemma sample_run:
  "getRun ''r'' ''p'' (history sample_calls) = Some \<lparr>run_id = ''r'', run_conversationId = ''c'',
     run_principalScope = ''p'', run_status = Completed, run_agentRunId = None, run_invocationId = None,
     run_terminalReason = None, run_runtimeState = None, run_startedAt = ''1'', run_updatedAt = ''3''\<rparr>"
  by (simp add: sample_history getRun_def scoped_run_def)

section \<open>Principal scopes\<close>

text \<open>
  Everything a principal can read of the store: its conversations with their messages, and its runs
  with their events.
\<close>

definition conversation_view :: "string \<Rightarrow> conversation_store \<Rightarrow> string \<Rightarrow>
  (ApplicationAIConversationRecord \<times> ApplicationAIMessageRecord list) option" where
  "conversation_view scope s cid = map_option (\<lambda>c. (c, messages_of s cid)) (scoped_conversation s cid scope)"

definition run_view :: "string \<Rightarrow> conversation_store \<Rightarrow> string \<Rightarrow>
  (ApplicationAIProtocolRunRecord \<times> ApplicationAIRunEventRecord list) option" where
  "run_view scope s rid = map_option (\<lambda>r. (r, events_of s rid)) (scoped_run s rid scope)"

lemma conversation_view_other:
  assumes "scoped_conversation s cid scope = None" "scoped_conversation s' cid scope = None"
    and "\<And>k. k \<noteq> cid \<Longrightarrow> map_of (st_conversations s') k = map_of (st_conversations s) k"
    and "\<And>k. k \<noteq> cid \<Longrightarrow> messages_of s' k = messages_of s k"
  shows "conversation_view scope s' = conversation_view scope s"
proof
  fix k show "conversation_view scope s' k = conversation_view scope s k"
    using assms by (cases "k = cid") (simp_all add: conversation_view_def scoped_conversation_def)
qed

lemma run_view_other:
  assumes "scoped_run s rid scope = None" "scoped_run s' rid scope = None"
    and "\<And>k. k \<noteq> rid \<Longrightarrow> map_of (st_runs s') k = map_of (st_runs s) k"
    and "\<And>k. k \<noteq> rid \<Longrightarrow> events_of s' k = events_of s k"
  shows "run_view scope s' = run_view scope s"
proof
  fix k show "run_view scope s' k = run_view scope s k"
    using assms by (cases "k = rid") (simp_all add: run_view_def scoped_run_def)
qed

text \<open>The runs of a scope, in the order of the store.\<close>

definition runs_in :: "string \<Rightarrow> conversation_store \<Rightarrow> ApplicationAIProtocolRunRecord list" where
  "runs_in scope s = filter (\<lambda>r. run_principalScope r = scope) (map snd (st_runs s))"

lemma filter_update_other:
  assumes "\<not> Q r'" and "\<forall>r. map_of m k = Some r \<longrightarrow> \<not> Q r"
  shows "filter Q (map snd (AList.update k r' m)) = filter Q (map snd m)"
  using assms by (induction m) auto

lemma runs_in_put:
  assumes "run_principalScope r' \<noteq> scope" and "\<forall>r. map_of (st_runs s) rid = Some r \<longrightarrow> run_principalScope r \<noteq> scope"
  shows "runs_in scope (s\<lparr>st_runs := AList.update rid r' (st_runs s)\<rparr>) = runs_in scope s"
  using filter_update_other [of "\<lambda>r. run_principalScope r = scope" r' "st_runs s" rid] assms by (simp add: runs_in_def)

lemma runs_in_same [simp]:
  "runs_in scope (st\<lparr>st_conversations := x\<rparr>) = runs_in scope st"
  "runs_in scope (st\<lparr>st_messages := w\<rparr>) = runs_in scope st"
  "runs_in scope (st\<lparr>st_events := z\<rparr>) = runs_in scope st"
  by (simp_all add: runs_in_def)

lemma view_same [simp]:
  "conversation_view scope (st\<lparr>st_runs := y\<rparr>) = conversation_view scope st"
  "conversation_view scope (st\<lparr>st_events := z\<rparr>) = conversation_view scope st"
  "run_view scope (st\<lparr>st_conversations := x\<rparr>) = run_view scope st"
  "run_view scope (st\<lparr>st_messages := w\<rparr>) = run_view scope st"
  by (simp_all add: conversation_view_def run_view_def scoped_conversation_def scoped_run_def fun_eq_iff)

lemma run_view_put:
  assumes "map_of (st_runs s) rid = Some r" "run_principalScope r \<noteq> scope" "run_principalScope r' \<noteq> scope"
  shows "run_view scope (s\<lparr>st_runs := AList.update rid r' (st_runs s)\<rparr>) = run_view scope s"
  using assms by (intro run_view_other [where rid = rid]) (auto simp: scoped_run_def)

lemma views_perform:
  assumes ok: "store_ok s" and p: "perform call s = Inr s'" and other: "call_scope call \<noteq> scope"
  shows "conversation_view scope s' = conversation_view scope s \<and> run_view scope s' = run_view scope s"
proof -
  have key: "run_id r = rid" if "map_of (st_runs s) rid = Some r" for rid r
    using ok runs_okD [of s rid r] that by (simp add: store_ok_def)
  show ?thesis
  proof (cases call)
    case (CreateConversation c)
    with p other show ?thesis
      by (auto simp: perform_Inr call_ok scoped_conversation_def simp del: perform.simps
          intro!: conversation_view_other [where cid = "conv_id c"])
  next
    case (AppendMessage cid sc n input)
    with p other show ?thesis
      by (auto simp: perform_Inr call_ok scoped_conversation_def simp del: perform.simps
          intro!: conversation_view_other [where cid = cid])
  next
    case (ReplaceMessages cid sc inputs updatedAt)
    with p other show ?thesis
      by (auto simp: call_ok scoped_conversation_def intro!: conversation_view_other [where cid = cid])
  next
    case (StartRun input)
    with p other show ?thesis
      by (auto simp: perform_Inr call_ok scoped_run_def simp del: perform.simps
          intro!: run_view_other [where rid = "start_id input"])
  next
    case (PatchRun rid sc status updatedAt reason state)
    with p other show ?thesis
      by (cases rule: patchRun_cases [of rid sc status updatedAt reason state s])
         (auto simp: run_view_put key)
  next
    case (TransitionRun rid sc frm to updatedAt reason)
    with p other show ?thesis
      by (auto simp: perform_Inr call_ok run_view_put key simp del: perform.simps)
  next
    case (AppendRunEvent rid sc n e)
    with p other show ?thesis
      by (auto simp: perform_Inr call_ok scoped_run_def simp del: perform.simps
          intro!: run_view_other [where rid = rid])
  qed
qed

lemma runs_in_perform:
  assumes ok: "store_ok s" and p: "perform call s = Inr s'" and other: "call_scope call \<noteq> scope"
  shows "runs_in scope s' = runs_in scope s"
proof -
  have key: "run_id r = rid" if "map_of (st_runs s) rid = Some r" for rid r
    using ok runs_okD [of s rid r] that by (simp add: store_ok_def)
  show ?thesis
  proof (cases call)
    case (PatchRun rid sc status updatedAt reason state)
    with p other show ?thesis
      by (cases rule: patchRun_cases [of rid sc status updatedAt reason state s])
         (auto simp: runs_in_put key)
  next
    case (ReplaceMessages cid sc inputs updatedAt)
    with p other show ?thesis by (auto simp: call_ok)
  qed (use p other in \<open>auto simp: perform_Inr call_ok runs_in_put key simp del: perform.simps\<close>)
qed

lemma listRuns_runs_in: "listRuns date cid scope s = js_sort (compareStarts date) (filter (\<lambda>r. run_conversationId r = cid) (runs_in scope s))"
  by (simp add: listRuns_def runs_in_def filter_filter conj_commute)

lemma reads_from_views:
  "getConversation cid scope s = map_option fst (conversation_view scope s cid)"
  "getMessage mid cid scope s =
     Option.bind (conversation_view scope s cid) (\<lambda>(_, ms). List.find (\<lambda>m. msg_id m = mid) ms)"
  "getRun rid scope s = map_option fst (run_view scope s rid)"
  "getRunEvent rid scope q s =
     Option.bind (run_view scope s rid) (\<lambda>(_, es). List.find (\<lambda>e. ev_sequence e = q) es)"
  by (auto simp: getConversation_def getMessage_def getRun_def getRunEvent_def conversation_view_def run_view_def
      option.map_comp comp_def option.map_ident split: option.splits)

text \<open>
  C24: Scope isolation. Whatever sequence of calls made under other principal scopes runs on a
  reachable store, every read of the store gives a principal what it gave before: its conversations
  with their messages, the list of its runs, each run with its events and their frontier, and every
  page of messages and of events.
\<close>

theorem scope_isolation:
  assumes "\<forall>call \<in> set calls. admissible call"
    and "\<forall>call \<in> set others. admissible call \<and> call_scope call \<noteq> scope"
  shows "getConversation cid scope (history (calls @ others)) = getConversation cid scope (history calls) \<and>
    getMessage mid cid scope (history (calls @ others)) = getMessage mid cid scope (history calls) \<and>
    listMessages cid scope after limit (history (calls @ others)) =
      listMessages cid scope after limit (history calls) \<and>
    getRun rid scope (history (calls @ others)) = getRun rid scope (history calls) \<and>
    getRunEvent rid scope q (history (calls @ others)) = getRunEvent rid scope q (history calls) \<and>
    listRunEvents rid scope after limit visibility (history (calls @ others)) =
      listRunEvents rid scope after limit visibility (history calls) \<and>
    listRuns date cid scope (history (calls @ others)) = listRuns date cid scope (history calls) \<and>
    getRunEventFrontier rid scope (history (calls @ others)) = getRunEventFrontier rid scope (history calls)"
proof -
  define s s' where "s = history calls" and "s' = history (calls @ others)"
  let ?same = "\<lambda>t. store_ok t \<and> conversation_view scope t = conversation_view scope s \<and>
    run_view scope t = run_view scope s \<and> runs_in scope t = runs_in scope s"
  have step: "?same (attempt call t)" if "?same t" "admissible call" "call_scope call \<noteq> scope" for call t
    using that views_perform [of t call _ scope] runs_in_perform [of t call _ scope] store_ok_attempt [of t call]
    by (cases rule: attempt_cases [of call t]) auto
  have "?same t \<Longrightarrow> ?same (fold attempt others t)" for t
    using assms(2) step by (induction others arbitrary: t) auto
  from this [of s] store_ok_history [OF assms(1)] have "?same s'"
    by (simp add: s_def s'_def history_def)
  then have views: "conversation_view scope s' k = conversation_view scope s k"
    "run_view scope s' k = run_view scope s k" for k by simp_all
  have "listMessages cid scope after limit s' = listMessages cid scope after limit s"
    using views(1) [of cid] by (auto simp: listMessages_def conversation_view_def split: sum.splits option.splits)
  moreover
  have "listRunEvents rid scope after limit visibility s' = listRunEvents rid scope after limit visibility s"
    using views(2) [of rid] by (auto simp: listRunEvents_def run_view_def split: sum.splits option.splits)
  moreover have "getRunEventFrontier rid scope s' = getRunEventFrontier rid scope s"
    using views(2) [of rid] by (auto simp: getRunEventFrontier_def run_view_def split: option.splits)
  moreover have "listRuns date cid scope s' = listRuns date cid scope s"
    using \<open>?same s'\<close> by (simp add: listRuns_runs_in)
  ultimately show ?thesis
    by (simp add: reads_from_views views flip: s_def s'_def)
qed

theorem scope_isolation_witness:
  "call_scope (ReplaceMessages ''c'' ''q'' [] ''9'') = ''q'' \<and>
   getMessage ''m'' ''c'' ''p'' (history (sample_calls @ [ReplaceMessages ''c'' ''q'' [] ''9''])) =
     getMessage ''m'' ''c'' ''p'' (history sample_calls) \<and>
   listRuns (\<lambda>_. None) ''c'' ''p'' (history (sample_calls @ [ReplaceMessages ''c'' ''q'' [] ''9''])) =
     listRuns (\<lambda>_. None) ''c'' ''p'' (history sample_calls)"
  using scope_isolation [of sample_calls "[ReplaceMessages ''c'' ''q'' [] ''9'']" "''p''" "''c''" "''m''" _ _ _ _ _ "\<lambda>_. None"]
  by simp

section \<open>Appending under an expected position\<close>

text \<open>
  The optimistic log: an append names the position it expects, succeeds at that position only, and
  moves the position on by one. \<open>position\<close> is \<open>None\<close> where the caller may not append at all.
\<close>

locale optimistic_log =
  fixes append :: "int \<Rightarrow> 'i \<Rightarrow> 's \<Rightarrow> 'e + 's"
    and position :: "'s \<Rightarrow> int option"
    and log :: "'s \<Rightarrow> 'r list"
    and conflict :: "'e \<Rightarrow> bool"
  assumes append_at: "append n i s = Inr s' \<Longrightarrow> position s = Some n"
    and append_moves: "append n i s = Inr s' \<Longrightarrow> position s' = Some (n + 1)"
    and append_extends: "append n i s = Inr s' \<Longrightarrow> \<exists>r. log s' = log s @ [r]"
    and append_elsewhere: "position s \<noteq> Some n \<Longrightarrow> \<exists>e. append n i s = Inl e \<and> conflict e"
begin

lemma racing_appends:
  assumes "append n i s = Inr s'"
  shows "\<exists>e. append n j s' = Inl e \<and> conflict e"
  using append_moves [OF assms] by (intro append_elsewhere) simp

lemma appends_in_order:
  assumes "append n i s = Inr s'" "append m j s' = Inr s''"
  shows "m = n + 1 \<and> (\<exists>r r'. log s'' = log s @ [r, r'])"
  using append_moves [OF assms(1)] append_at [OF assms(2)] append_extends [OF assms(1)] append_extends [OF assms(2)]
  by auto

end

lemma is_conflict_iff: "is_conflict e \<longleftrightarrow> (\<exists>message. e = ApplicationConversationConflictError message)"
  by (cases e) simp_all

interpretation message_log: optimistic_log
  "\<lambda>n i s. map_sum id snd (appendMessage cid scope n i s)"
  "\<lambda>s. map_option conv_revision (scoped_conversation s cid scope)"
  "\<lambda>s. messages_of s cid" is_conflict for cid scope
proof
  fix n i s assume "map_option conv_revision (scoped_conversation s cid scope) \<noteq> Some n"
  then show "\<exists>e. map_sum id snd (appendMessage cid scope n i s) = Inl e \<and> is_conflict e"
    by (auto simp: appendMessage_def Let_def split: option.split)
qed (auto simp: map_sum_snd appendMessage_ok scoped_conversation_def)

interpretation event_log: optimistic_log
  "\<lambda>n i s. map_sum id snd (appendRunEvent rid scope n i s)"
  "\<lambda>s. map_option (\<lambda>_. int (length (events_of s rid))) (scoped_run s rid scope)"
  "\<lambda>s. events_of s rid" is_conflict for rid scope
proof
  fix n i s assume "map_option (\<lambda>_. int (length (events_of s rid))) (scoped_run s rid scope) \<noteq> Some n"
  then show "\<exists>e. map_sum id snd (appendRunEvent rid scope n i s) = Inl e \<and> is_conflict e"
    by (auto simp: appendRunEvent_def)
qed (auto simp: map_sum_snd appendRunEvent_ok scoped_run_def)

section \<open>Reading page by page\<close>

text \<open>
  A log whose pages are the first records after a position: reading on after the last record of a
  full page reads the whole log, each record once, in order.
\<close>

locale paged_log =
  fixes ok :: "'s \<Rightarrow> bool"
    and list_after :: "'s \<Rightarrow> int option \<Rightarrow> 'e + 'a list"
    and log :: "'s \<Rightarrow> 'a list"
    and key :: "'a \<Rightarrow> int"
  assumes page: "ok s \<Longrightarrow> list_after s after =
      Inr (take 250 (filter (\<lambda>x. (case after of None \<Rightarrow> 0 | Some k \<Rightarrow> k) < key x) (log s)))"
    and increasing: "ok s \<Longrightarrow> sorted_wrt (<) (map key (log s))"
    and positive: "ok s \<Longrightarrow> \<forall>x \<in> set (log s). 0 < key x"
begin

lemma rest_after_page:
  assumes "ok s" "250 \<le> length (filter (\<lambda>x. k < key x) (log s))"
  defines "fs \<equiv> filter (\<lambda>x. k < key x) (log s)"
  shows "filter (\<lambda>x. key (last (take 250 fs)) < key x) (log s) = drop 250 fs"
proof -
  let ?p = "key (last (take 250 fs))"
  have ne: "take 250 fs \<noteq> []" using assms(2) by (auto simp: fs_def)
  have sorted: "sorted_wrt (\<lambda>x y. key x < key y) (take 250 fs @ drop 250 fs)"
    using increasing [OF assms(1)] by (simp add: fs_def sorted_wrt_map sorted_wrt_filter)
  have "last (take 250 fs) \<in> set fs" using ne by (meson in_set_takeD last_in_set)
  then have "k < ?p" by (simp add: fs_def)
  then have "filter (\<lambda>x. ?p < key x) (log s) = filter (\<lambda>x. ?p < key x) fs"
    unfolding fs_def filter_filter by (intro filter_cong) auto
  also have "\<dots> = filter (\<lambda>x. ?p < key x) (take 250 fs) @ filter (\<lambda>x. ?p < key x) (drop 250 fs)"
    by (metis append_take_drop_id filter_append)
  also have "filter (\<lambda>x. ?p < key x) (drop 250 fs) = drop 250 fs"
    using sorted_wrt_append [THEN iffD1, OF sorted] last_in_set [OF ne] by (auto intro!: filter_True)
  also have "filter (\<lambda>x. ?p < key x) (take 250 fs) = []"
  proof -
    have "key x \<le> ?p" if "x \<in> set (take 250 fs)" for x
    proof -
      have "sorted_wrt (\<lambda>x y. key x < key y) (butlast (take 250 fs) @ [last (take 250 fs)])"
        using sorted_wrt_append [THEN iffD1, OF sorted] ne by simp
      moreover have "x \<in> set (butlast (take 250 fs)) \<or> x = last (take 250 fs)"
        using that ne by (metis append_butlast_last_id in_set_conv_decomp rotate1.simps(2) set_ConsD set_rotate1)
      ultimately show ?thesis by (auto simp: sorted_wrt_append intro: less_imp_le)
    qed
    then show ?thesis by (auto simp: filter_empty_conv not_less)
  qed
  finally show ?thesis by simp
qed

lemma load_pages_rest:
  assumes "ok s"
  defines "rest \<equiv> \<lambda>after. filter (\<lambda>x. (case after of None \<Rightarrow> 0 | Some k \<Rightarrow> k) < key x) (log s)"
  shows "load_pages (list_after s) key after vs = Some (Inr (vs @ rest after))"
proof (induction "length (rest after)" arbitrary: after vs rule: less_induct)
  case less
  show ?case
  proof (cases "length (rest after) < 250")
    case True
    then show ?thesis
      by (simp add: load_pages.simps page [OF assms(1)] rest_def)
  next
    case False
    let ?page = "take 250 (rest after)"
    have next_rest: "rest (Some (key (last ?page))) = drop 250 (rest after)"
      using rest_after_page [OF assms(1)] False by (simp add: rest_def)
    have "load_pages (list_after s) key after vs =
        load_pages (list_after s) key (Some (key (last ?page))) (vs @ ?page)"
      using False by (subst load_pages.simps) (simp add: page [OF assms(1)] rest_def)
    also have "\<dots> = Some (Inr ((vs @ ?page) @ rest (Some (key (last ?page)))))"
      using False by (intro less) (simp add: next_rest)
    finally show ?thesis by (simp add: next_rest)
  qed
qed

lemma load_pages_all: "ok s \<Longrightarrow> load_pages (list_after s) key None [] = Some (Inr (log s))"
  using positive [of s] by (simp add: load_pages_rest filter_id_conv)

end

lemma limit_250 [simp]: "assertLimit (NInt 250) = Inr 250"
  by (simp add: assertLimit_def MAX_SAFE_INTEGER_def)

interpretation message_pages: paged_log
  "\<lambda>s. store_ok s \<and> scoped_conversation s cid scope \<noteq> None"
  "\<lambda>s after. listMessages cid scope after (NInt 250) s"
  "\<lambda>s. messages_of s cid" msg_revision for cid scope
proof unfold_locales
  fix s after
  assume s: "store_ok s \<and> scoped_conversation s cid scope \<noteq> None"
  then obtain c where c: "map_of (st_conversations s) cid = Some c"
    by (auto simp: scoped_conversation_def split: option.splits)
  with s have "transcript_ok cid (conv_revision c) (messages_of s cid)"
    using conversations_okD by (auto simp: store_ok_def)
  then show "sorted_wrt (<) (map msg_revision (messages_of s cid))"
    and "\<forall>m \<in> set (messages_of s cid). 0 < msg_revision m"
    by (auto simp: transcript_ok_def)
  show "listMessages cid scope after (NInt 250) s = Inr (take 250 (filter
      (\<lambda>m. (case after of None \<Rightarrow> 0 | Some k \<Rightarrow> k) < msg_revision m) (messages_of s cid)))"
    using s by (auto simp: listMessages_def)
qed

definition shown :: "event_visibility option \<Rightarrow> ApplicationAIRunEventRecord \<Rightarrow> bool" where
  "shown visibility e = (case visibility of None \<Rightarrow> True | Some v \<Rightarrow> ev_visibility e = v)"

lemma event_log_okD:
  "event_log_ok rid es \<Longrightarrow> map ev_sequence es = map (\<lambda>i. int i + 1) [0..<length es]"
  by (simp add: event_log_ok_def map_equality_iff)

lemma events_increasing:
  assumes "event_log_ok rid es"
  shows "sorted_wrt (<) (map ev_sequence es)" "\<forall>e \<in> set es. 0 < ev_sequence e"
proof -
  show "sorted_wrt (<) (map ev_sequence es)"
    unfolding event_log_okD [OF assms] by (auto simp: sorted_wrt_iff_nth_less)
  have "0 < n" if "n \<in> set (map ev_sequence es)" for n
    using that unfolding event_log_okD [OF assms] by auto
  then show "\<forall>e \<in> set es. 0 < ev_sequence e" by auto
qed

interpretation event_pages: paged_log
  "\<lambda>s. store_ok s \<and> scoped_run s rid scope \<noteq> None"
  "\<lambda>s after. listRunEvents rid scope after (NInt 250) visibility s"
  "\<lambda>s. filter (shown visibility) (events_of s rid)" ev_sequence for rid scope visibility
proof unfold_locales
  fix s after
  assume s: "store_ok s \<and> scoped_run s rid scope \<noteq> None"
  then obtain r where "map_of (st_runs s) rid = Some r"
    by (auto simp: scoped_run_def split: option.splits)
  with s have "event_log_ok rid (events_of s rid)"
    using runs_okD by (auto simp: store_ok_def)
  from events_increasing [OF this]
  show "sorted_wrt (<) (map ev_sequence (filter (shown visibility) (events_of s rid)))"
    and "\<forall>e \<in> set (filter (shown visibility) (events_of s rid)). 0 < ev_sequence e"
    by (auto simp: sorted_wrt_map sorted_wrt_filter)
  show "listRunEvents rid scope after (NInt 250) visibility s = Inr (take 250 (filter
      (\<lambda>e. (case after of None \<Rightarrow> 0 | Some k \<Rightarrow> k) < ev_sequence e) (filter (shown visibility) (events_of s rid))))"
    using s by (auto simp: listRunEvents_def shown_def conj_commute)
qed

section \<open>Properties\<close>

text \<open>
  C23: The store invariant. After any sequence of calls, failed ones included, every conversation and
  run is stored under its own identifier, a conversation's message identifiers are distinct, its
  message revisions are positive, strictly increasing and at most its own revision, the events of a
  run are numbered 1, 2, 3, and so on, and every run belongs to a conversation of its own scope.
\<close>

theorem conversation_store_invariant:
  assumes "\<forall>call \<in> set calls. admissible call"
  shows "store_ok (history calls)"
  by (rule store_ok_history [OF assms])

theorem conversation_store_invariant_witness:
  "list_all admissible sample_calls \<and> store_ok (history sample_calls)"
  using conversation_store_invariant [of sample_calls] by (simp add: list_all_iff)

text \<open>
  C25: No lost update. Of two appends that expect the same revision of a conversation only the first
  to run succeeds: the other gets an \<open>ApplicationConversationConflictError\<close>, whatever its message. The same holds for two appends
  of run events that expect the same sequence.
\<close>

theorem no_lost_update:
  "(appendMessage cid scope expected input s = Inr (r, s') \<longrightarrow>
      (\<exists>message. appendMessage cid scope expected other s' = Inl (ApplicationConversationConflictError message))) \<and>
   (appendRunEvent rid scope sequence event s = Inr (q, s'') \<longrightarrow>
      (\<exists>message. appendRunEvent rid scope sequence event' s'' = Inl (ApplicationConversationConflictError message)))"
proof (intro conjI impI)
  assume "appendMessage cid scope expected input s = Inr (r, s')"
  then have "map_sum id snd (appendMessage cid scope expected input s) = Inr s'"
    by simp
  from message_log.racing_appends [OF this, of other]
  show "\<exists>message. appendMessage cid scope expected other s' = Inl (ApplicationConversationConflictError message)"
    by (cases "appendMessage cid scope expected other s'") (auto simp: is_conflict_iff)
next
  assume "appendRunEvent rid scope sequence event s = Inr (q, s'')"
  then have "map_sum id snd (appendRunEvent rid scope sequence event s) = Inr s''"
    by simp
  from event_log.racing_appends [OF this, of event']
  show "\<exists>message. appendRunEvent rid scope sequence event' s'' = Inl (ApplicationConversationConflictError message)"
    by (cases "appendRunEvent rid scope sequence event' s''") (auto simp: is_conflict_iff)
qed

theorem no_lost_update_witness:
  "\<exists>r s'. appendMessage ''c'' ''p'' 1 (sample_message\<lparr>in_id := ''n''\<rparr>) (history sample_calls) = Inr (r, s') \<and>
     (\<exists>message. appendMessage ''c'' ''p'' 1 (sample_message\<lparr>in_id := ''o''\<rparr>) s' =
        Inl (ApplicationConversationConflictError message))"
proof -
  obtain r s' where ok: "appendMessage ''c'' ''p'' 1 (sample_message\<lparr>in_id := ''n''\<rparr>) (history sample_calls) = Inr (r, s')"
    by (simp add: sample_history appendMessage_def scoped_conversation_def messages_of_def Let_def
        message_record_def sample_message_def)
  then show ?thesis
    using no_lost_update [of "''c''" "''p''" 1 "sample_message\<lparr>in_id := ''n''\<rparr>" "history sample_calls" r s'
        "sample_message\<lparr>in_id := ''o''\<rparr>"] by blast
qed

text \<open>
  C26: On every reachable store the paging loop of \<open>loadAllMessages\<close> returns, and it returns the whole
  transcript of the conversation: every message once, in order, however many pages that takes.
\<close>

theorem whole_transcript_loaded:
  assumes "\<forall>call \<in> set calls. admissible call" "getConversation cid scope (history calls) = Some c"
  shows "loadAllMessages cid scope (history calls) = Some (Inr (messages_of (history calls) cid))"
  using assms store_ok_history [of calls]
  by (simp add: loadAllMessages_def getConversation_def message_pages.load_pages_all)

theorem whole_transcript_loaded_witness:
  "loadAllMessages ''c'' ''p'' (history sample_calls) = Some (Inr [message_record ''c'' 1 sample_message])"
  using whole_transcript_loaded [of sample_calls "''c''" "''p''"]
  by (simp add: getConversation_def scoped_conversation_def messages_of_def sample_history)

lemma frontier_length:
  assumes "store_ok s" "scoped_run s rid scope = Some r"
  shows "getRunEventFrontier rid scope s = int (length (events_of s rid))"
proof -
  have "event_log_ok rid (events_of s rid)"
    using assms runs_okD [of s rid r] by (simp add: store_ok_def scoped_run_Some)
  then show ?thesis
    using assms(2) by (auto simp: getRunEventFrontier_def event_log_ok_def last_conv_nth of_nat_diff Suc_leI)
qed

lemma find_snoc: "List.find P (xs @ [x]) = (case List.find P xs of None \<Rightarrow> (if P x then Some x else None) | Some y \<Rightarrow> Some y)"
  by (induction xs) auto

lemma appended_event_found:
  assumes "store_ok s" "appendRunEvent rid scope n event s = Inr (e, s')"
  shows "getRunEvent rid scope (n + 1) s' = Some e"
proof -
  from assms(2) obtain r where r: "map_of (st_runs s) rid = Some r" "run_principalScope r = scope"
    and n: "n = int (length (events_of s rid))" and e: "ev_sequence e = n + 1"
    and s': "s' = s\<lparr>st_events := AList.update rid (events_of s rid @ [e]) (st_events s)\<rparr>"
    by (auto simp: appendRunEvent_ok)
  have "event_log_ok rid (events_of s rid)"
    using assms(1) runs_okD [OF _ r(1)] by (simp add: store_ok_def)
  then have "List.find (\<lambda>c. ev_sequence c = n + 1) (events_of s rid) = None"
    by (auto simp: n find_None_iff event_log_ok_def in_set_conv_nth)
  then show ?thesis
    using r by (simp add: getRunEvent_def s' scoped_run_def find_snoc e)
qed

text \<open>
  The run event log. On every reachable store an append at the frontier of a run in scope
  succeeds, the event gets the next sequence, is read back under it and becomes the frontier, and
  what is read under every other sequence is unchanged.
\<close>

theorem event_append_round_trip:
  assumes "\<forall>call \<in> set calls. admissible call" "getRun rid scope (history calls) = Some r"
  shows "\<exists>e s'. appendRunEvent rid scope (getRunEventFrontier rid scope (history calls)) event (history calls) =
      Inr (e, s') \<and>
    e = event\<lparr>ev_runId := rid, ev_sequence := getRunEventFrontier rid scope (history calls) + 1\<rparr> \<and>
    getRunEvent rid scope (ev_sequence e) s' = Some e \<and> getRunEventFrontier rid scope s' = ev_sequence e \<and>
    (\<forall>q. q \<noteq> ev_sequence e \<longrightarrow> getRunEvent rid scope q s' = getRunEvent rid scope q (history calls))"
proof -
  let ?s = "history calls"
  let ?es = "events_of ?s rid"
  have r: "scoped_run ?s rid scope = Some r" using assms(2) by (simp add: getRun_def)
  have frontier: "getRunEventFrontier rid scope ?s = int (length ?es)"
    using frontier_length [OF store_ok_history [OF assms(1)] r] .
  let ?e = "event\<lparr>ev_runId := rid, ev_sequence := int (length ?es) + 1\<rparr>"
  let ?s' = "?s\<lparr>st_events := AList.update rid (?es @ [?e]) (st_events ?s)\<rparr>"
  have r': "scoped_run ?s' rid scope = Some r" using r by (simp add: scoped_run_def)
  have append: "appendRunEvent rid scope (int (length ?es)) event ?s = Inr (?e, ?s')"
    using r by (simp add: appendRunEvent_ok scoped_run_Some)
  moreover have "getRunEvent rid scope (int (length ?es) + 1) ?s' = Some ?e"
    by (rule appended_event_found [OF store_ok_history [OF assms(1)] append])
  moreover have "getRunEventFrontier rid scope ?s' = int (length ?es) + 1"
    by (simp add: getRunEventFrontier_def r')
  moreover have "getRunEvent rid scope q ?s' = getRunEvent rid scope q ?s" if "q \<noteq> int (length ?es) + 1" for q
    using that by (auto simp: getRunEvent_def r r' find_snoc split: option.splits)
  ultimately show ?thesis unfolding frontier by (intro exI [of _ ?e] exI [of _ ?s']) simp
qed

theorem event_append_round_trip_witness:
  "\<exists>e s'. appendRunEvent ''r'' ''p'' 1 sample_event (history sample_calls) = Inr (e, s') \<and>
     getRunEvent ''r'' ''p'' 2 s' = Some e \<and> getRunEventFrontier ''r'' ''p'' s' = 2"
proof -
  have "getRunEventFrontier ''r'' ''p'' (history sample_calls) = 1"
    by (simp add: getRunEventFrontier_def scoped_run_def events_of_def sample_history)
  then show ?thesis
    using event_append_round_trip [OF sample_admissible sample_run, of sample_event] by auto
qed

definition terminal :: "run_status \<Rightarrow> bool" where
  "terminal status \<longleftrightarrow> status \<in> {Completed, Failed, Cancelled}"

lemma terminal_step:
  assumes "store_ok s" "map_of (st_runs s) rid = Some r" "terminal (run_status r)"
    and "\<forall>sc status updatedAt reason state. call \<noteq> PatchRun rid sc status updatedAt reason state"
  shows "map_of (st_runs (attempt call s)) rid = Some r"
proof (cases rule: attempt_cases [of call s])
  case (succeeds s')
  have key: "run_id r' = k" if "map_of (st_runs s) k = Some r'" for k r'
    using assms(1) runs_okD [of s k r'] that by (simp add: store_ok_def)
  show ?thesis
  proof (cases call)
    case (PatchRun k sc status updatedAt reason state)
    with succeeds assms show ?thesis
      by (cases rule: patchRun_cases [of k sc status updatedAt reason state s]) (auto simp: key)
  next
    case (TransitionRun k sc frm to updatedAt reason)
    with succeeds assms(2,3) show ?thesis
      by (auto simp: perform_Inr call_ok key terminal_def simp del: perform.simps)
  qed (use succeeds assms(2) in \<open>auto simp: perform_Inr call_ok simp del: perform.simps(1,2,4,6,7)\<close>)
qed (use assms(2) in simp)

text \<open>
  C29: Terminal runs are final. A run that is completed, failed or cancelled keeps its whole record,
  whatever calls follow, as long as none of them is a \<open>patchRun\<close> of that run: \<open>transitionRun\<close> has no way
  out of a terminal status.
\<close>

theorem terminal_runs_are_final:
  assumes "\<forall>call \<in> set (calls @ later). admissible call"
    and "getRun rid scope (history calls) = Some r" "terminal (run_status r)"
    and "\<forall>call \<in> set later. \<forall>sc status updatedAt reason state. call \<noteq> PatchRun rid sc status updatedAt reason state"
  shows "getRun rid scope (history (calls @ later)) = Some r"
proof -
  have r: "map_of (st_runs (history calls)) rid = Some r" "run_principalScope r = scope"
    using assms(2) by (simp_all add: getRun_def scoped_run_Some)
  have "store_ok s \<and> map_of (st_runs s) rid = Some r \<Longrightarrow>
      store_ok (fold attempt later s) \<and> map_of (st_runs (fold attempt later s)) rid = Some r" for s
    using assms(1,4) store_ok_attempt terminal_step [OF _ _ assms(3)]
    by (induction later arbitrary: s) auto
  from this [of "history calls"] r store_ok_history [of calls] assms(1)
  show ?thesis by (simp add: getRun_def scoped_run_Some history_def)
qed

theorem terminal_runs_are_final_witness:
  "getRun ''r'' ''p'' (history (sample_calls @ [TransitionRun ''r'' ''p'' Completed Running ''4'' None])) =
   getRun ''r'' ''p'' (history sample_calls)"
  using terminal_runs_are_final [of sample_calls "[TransitionRun ''r'' ''p'' Completed Running ''4'' None]", OF _ sample_run]
  by (simp add: terminal_def sample_run ball_Un)

end
