(* ===== verification/Stable_Json.thy ===== *)
theory Stable_Json
  imports Canonical_Json
begin

text \<open>
  \<open>JSON.stringify\<close> of the language, the \<open>sortJson\<close> that the agent persistence and the authority
  service share in form, and the \<open>canonicalJson\<close> of
  \<^verbatim>\<open>packages/core/src/application-operation-authority.ts\<close>. \<open>cmp\<close> is \<open>localeCompare\<close>. For any
  \<open>cmp\<close> two plain values with the same text are the same up to the order of object members. The
  identity reference of the authority contracts stands here for the components that share it.
\<close>

section \<open>Definitions\<close>

definition fromEntries :: "jsobject \<Rightarrow> jsobject" where
  "fromEntries kvs = fold (\<lambda>(k, v) ob. AList.update k v ob) kvs []"

function sortJson :: "(string \<Rightarrow> string \<Rightarrow> int) \<Rightarrow> jsval \<Rightarrow> jsval" where
  "sortJson cmp (JArray vs) = JArray (map (sortJson cmp) vs)"
| "sortJson cmp (JObject ob) =
     JObject (fromEntries (map (\<lambda>(key, nested). (key, sortJson cmp nested))
       (js_sort (\<lambda>l r. cmp (fst l) (fst r)) (Object_entries ob))))"
| "sortJson cmp JUndefined = JUndefined"
| "sortJson cmp JNull = JNull"
| "sortJson cmp (JBool b) = JBool b"
| "sortJson cmp (JNumber x) = JNumber x"
| "sortJson cmp (JString s) = JString s"
  by pat_completeness auto
termination
  by (relation "measure (size \<circ> snd)") (auto dest: size_entry simp: less_Suc_eq_le size_list_estimation')

function JSON_stringify :: "(js_number \<Rightarrow> string) \<Rightarrow> jsval \<Rightarrow> string" where
  "JSON_stringify fmt JUndefined = ''null''"
| "JSON_stringify fmt JNull = ''null''"
| "JSON_stringify fmt (JBool b) = (if b then ''true'' else ''false'')"
| "JSON_stringify fmt (JNumber x) = number_text fmt x"
| "JSON_stringify fmt (JString s) = json_quote s"
| "JSON_stringify fmt (JArray vs) = ''['' @ js_join '','' (map (JSON_stringify fmt) vs) @ '']''"
| "JSON_stringify fmt (JObject ob) =
     ''{'' @
     js_join '','' (map (\<lambda>(key, entry). json_quote key @ '':'' @ JSON_stringify fmt entry)
       (filter (\<lambda>(key, entry). entry \<noteq> JUndefined) (Object_entries ob))) @
     ''}''"
  by pat_completeness auto
termination
  by (relation "measure (size \<circ> snd)") (auto dest: size_entry simp: less_Suc_eq_le size_list_estimation')

text \<open>
  \<open>undefined\<close> is interpolated as text in a member and is empty in the \<open>join\<close> of an array.
\<close>

function canonicalJson_core :: "(string \<Rightarrow> string \<Rightarrow> int) \<Rightarrow> (js_number \<Rightarrow> string) \<Rightarrow> jsval \<Rightarrow> string" where
  "canonicalJson_core cmp fmt JUndefined = ''undefined''"
| "canonicalJson_core cmp fmt JNull = ''null''"
| "canonicalJson_core cmp fmt (JBool b) = (if b then ''true'' else ''false'')"
| "canonicalJson_core cmp fmt (JNumber x) = number_text fmt x"
| "canonicalJson_core cmp fmt (JString s) = json_quote s"
| "canonicalJson_core cmp fmt (JArray vs) =
     ''['' @ js_join '','' (map (\<lambda>v. if v = JUndefined then [] else canonicalJson_core cmp fmt v) vs) @ '']''"
| "canonicalJson_core cmp fmt (JObject ob) =
     ''{'' @
     js_join '','' (map (\<lambda>(key, entry). json_quote key @ '':'' @ canonicalJson_core cmp fmt entry)
       (js_sort (\<lambda>l r. cmp (fst l) (fst r)) (Object_entries ob))) @
     ''}''"
  by pat_completeness auto
termination
  by (relation "measure (size \<circ> snd \<circ> snd)") (auto dest: size_entry simp: less_Suc_eq_le size_list_estimation')

declare sortJson.simps(2) [simp del] JSON_stringify.simps(7) [simp del] canonicalJson_core.simps(6,7) [simp del]

section \<open>Identities\<close>

record ApplicationIdentityReference =
  ref_id :: string
  ref_kind :: string
  ref_issuer :: string
  ref_subject :: string

section \<open>Sorting the members\<close>

definition entries_by :: "(string \<Rightarrow> string \<Rightarrow> int) \<Rightarrow> jsobject \<Rightarrow> jsobject" where
  "entries_by cmp ob = js_sort (\<lambda>l r. cmp (fst l) (fst r)) (Object_entries ob)"

lemma mset_entries_by [simp]: "mset (entries_by cmp ob) = mset ob"
  by (simp add: entries_by_def)

lemma set_entries_by [simp]: "set (entries_by cmp ob) = set ob"
  by (simp add: entries_by_def)

lemma distinct_entries_by [simp]: "distinct (map fst (entries_by cmp ob)) = distinct (map fst ob)"
proof -
  have "mset (map fst (entries_by cmp ob)) = mset (map fst ob)" by simp
  then show ?thesis by (metis mset_eq_imp_distinct_iff)
qed

lemma entries_in_order: "entries_by (\<lambda>_ _. 0) ob = Object_entries ob"
proof -
  have "js_sort (\<lambda>(l :: string \<times> jsval) r. 0) es = es" for es
  proof (induction es)
    case (Cons e es)
    then show ?case by (cases es) simp_all
  qed simp
  then show ?thesis by (simp add: entries_by_def)
qed

lemma fold_update_new:
  "distinct (map fst (ob @ kvs)) \<Longrightarrow> fold (\<lambda>(k, v) ob. AList.update k v ob) kvs ob = ob @ kvs"
  by (induction kvs arbitrary: ob) (auto simp: update_new image_iff)

lemma fromEntries_distinct: "distinct (map fst kvs) \<Longrightarrow> fromEntries kvs = kvs"
  using fold_update_new [of "[]" kvs] by (simp add: fromEntries_def)

lemma sortJson_object:
  assumes "distinct (map fst ob)"
  shows "sortJson cmp (JObject ob) = JObject (map (apsnd (sortJson cmp)) (entries_by cmp ob))"
proof -
  have eq: "map (\<lambda>(key, nested). (key, sortJson cmp nested)) es = map (apsnd (sortJson cmp)) es" for es
    by (simp add: apsnd_def map_prod_def)
  have "fromEntries (map (apsnd (sortJson cmp)) (entries_by cmp ob)) = map (apsnd (sortJson cmp)) (entries_by cmp ob)"
    using assms by (intro fromEntries_distinct) (simp add: comp_def)
  then show ?thesis by (simp add: sortJson.simps(2) eq entries_by_def)
qed

lemma plain_sortJson: "plain_json P v \<Longrightarrow> plain_json P (sortJson cmp v)"
proof (induction v)
  case (JObject ob)
  then have "distinct (map fst ob)" by simp
  moreover have "plain_json P (sortJson cmp e)" if "(k, e) \<in> set ob" for k e
    using JObject.IH [of "(k, e)" e] plain_member [OF JObject.prems that] that by simp
  ultimately show ?case
    using JObject.prems by (auto simp: sortJson_object comp_def image_image)
qed auto

lemma normalizeJson_sortJson:
  assumes "plain_json P v"
  shows "normalizeJson (sortJson cmp v) = normalizeJson v"
  using assms
proof (induction v)
  case (JObject ob)
  let ?es = "map (apsnd (sortJson cmp)) (entries_by cmp ob)"
  have dist: "distinct (map fst ob)" using JObject.prems by simp
  have sorted: "sortJson cmp (JObject ob) = JObject ?es" by (rule sortJson_object [OF dist])
  have plain: "plain_json P (JObject ?es)" using plain_sortJson [OF JObject.prems] sorted by metis
  have member: "normalizeJson (sortJson cmp (snd p)) = normalizeJson (snd p)" if "p \<in> set (sorted_entries ob)" for p
  proof -
    have "(fst p, snd p) \<in> set ob" using that by (simp add: sorted_entries_def)
    with JObject.IH [of p "snd p"] plain_member [OF JObject.prems, of "fst p" "snd p"] show ?thesis
      by (simp add: snds.simps)
  qed
  have "sorted_entries ?es = map (apsnd (sortJson cmp)) (sorted_entries (entries_by cmp ob))"
    using dist by (intro sorted_entries_apsnd) simp
  also have "sorted_entries (entries_by cmp ob) = sorted_entries ob"
    using dist by (intro sorted_entries_perm) simp_all
  finally have "sorted_entries ?es = map (apsnd (sortJson cmp)) (sorted_entries ob)" .
  with member show ?case
    unfolding sorted normalizeJson_plain_object [OF plain] normalizeJson_plain_object [OF JObject.prems]
    by (simp add: prod_eq_iff)
qed simp_all

section \<open>The texts determine the values\<close>

lemma stringify_members:
  "JSON_stringify fmt (JObject ob) =
     ''{'' @ js_join '','' (map (json_member (JSON_stringify fmt)) (filter (\<lambda>p. snd p \<noteq> JUndefined) (Object_entries ob))) @ ''}''"
  by (simp add: JSON_stringify.simps(7) json_member_def [abs_def] case_prod_beta')

interpretation ordered: json_printer fmt rd "JSON_stringify fmt" "sortJson (\<lambda>_ _. 0)" Object_entries for fmt rd
proof
  fix ob
  assume plain: "plain_json (prints_back fmt rd) (JObject ob)"
  have "filter (\<lambda>p. snd p \<noteq> JUndefined) (Object_entries ob) = Object_entries ob"
    using plain_member [OF plain] by (auto simp: filter_id_conv)
  then show "JSON_stringify fmt (JObject ob) =
      ''{'' @ js_join '','' (map (json_member (JSON_stringify fmt)) (Object_entries ob)) @ ''}''"
    by (simp only: stringify_members)
  show "sortJson (\<lambda>_ _. 0) (JObject ob) = JObject (map (apsnd (sortJson (\<lambda>_ _. 0))) (Object_entries ob))"
    using plain sortJson_object [of ob "\<lambda>_ _. 0"] by (simp add: entries_in_order)
qed simp_all

interpretation core: json_printer fmt rd "canonicalJson_core cmp fmt" "sortJson cmp" "entries_by cmp" for fmt rd cmp
proof
  fix vs
  assume "plain_json (prints_back fmt rd) (JArray vs)"
  then have "v \<noteq> JUndefined" if "v \<in> set vs" for v using that by auto
  then show "canonicalJson_core cmp fmt (JArray vs) = ''['' @ js_join '','' (map (canonicalJson_core cmp fmt) vs) @ '']''"
    by (simp add: canonicalJson_core.simps(6) cong: map_cong)
next
  fix ob
  assume plain: "plain_json (prints_back fmt rd) (JObject ob)"
  show "canonicalJson_core cmp fmt (JObject ob) =
      ''{'' @ js_join '','' (map (json_member (canonicalJson_core cmp fmt)) (entries_by cmp ob)) @ ''}''"
    by (simp add: canonicalJson_core.simps(7) entries_by_def json_member_def [abs_def] case_prod_beta')
  show "sortJson cmp (JObject ob) = JObject (map (apsnd (sortJson cmp)) (entries_by cmp ob))"
    using plain by (intro sortJson_object) simp
qed simp_all

lemma stable_text_determines:
  assumes "plain_json (prints_back fmt rd) v" and "plain_json (prints_back fmt rd) w"
    and "JSON_stringify fmt (sortJson cmp v) = JSON_stringify fmt (sortJson cmp w)"
  shows "normalizeJson v = normalizeJson w"
proof -
  have "sortJson (\<lambda>_ _. 0) (sortJson cmp v) = sortJson (\<lambda>_ _. 0) (sortJson cmp w)"
    using assms(3) by (rule ordered.text_determines [OF plain_sortJson [OF assms(1)] plain_sortJson [OF assms(2)]])
  then show ?thesis
    using normalizeJson_sortJson [OF plain_sortJson [OF assms(1)], of "\<lambda>_ _. 0" cmp]
      normalizeJson_sortJson [OF plain_sortJson [OF assms(2)], of "\<lambda>_ _. 0" cmp]
      normalizeJson_sortJson [OF assms(1), of cmp] normalizeJson_sortJson [OF assms(2), of cmp] by simp
qed

lemma canonicalJson_core_determines:
  assumes "plain_json (prints_back fmt rd) v" and "plain_json (prints_back fmt rd) w"
    and "canonicalJson_core cmp fmt v = canonicalJson_core cmp fmt w"
  shows "normalizeJson v = normalizeJson w"
  using core.text_determines [OF assms] normalizeJson_sortJson [OF assms(1), of cmp]
    normalizeJson_sortJson [OF assms(2), of cmp] by simp

end
