(* ===== verification/Agent_Persistence.thy ===== *)
theory Agent_Persistence
  imports Conversation_Laws Stable_Json Sha256 "HOL-Library.State_Monad"
begin

text \<open>
  The agent persistence seam, \<^verbatim>\<open>packages/conversations/src/agent-persistence.ts\<close>, on the conversation
  store. Every \<open>await\<close> of a store operation is a point where other clients of the store may run: the
  world is the store together with, for each await still to come, the calls other clients make just
  before it. Each function is a state monad over the world that returns the thrown error or its
  result. \<open>localeCompare\<close>, the printing of numbers that are not safe integers and \<open>conversationTitle\<close>
  (Unicode text) are the members of \<open>agent_runtime\<close>; \<open>cloneJson\<close> is the identity on JSON values.
\<close>

section \<open>Canonical JSON\<close>

record agent_runtime =
  rt_localeCompare :: "string \<Rightarrow> string \<Rightarrow> int"
  rt_number :: "js_number \<Rightarrow> string"
  rt_title :: "jsval list \<Rightarrow> string option"

definition canonicalJson :: "agent_runtime \<Rightarrow> jsval \<Rightarrow> string" where
  "canonicalJson rt value = JSON_stringify (rt_number rt) (sortJson (rt_localeCompare rt) value)"

section \<open>Principals and scopes\<close>

text \<open>What the scope reads of a principal: its identity and, for an execution, the causal principal.\<close>

record agent_principal =
  pr_identity :: ApplicationIdentityReference
  pr_causalPrincipal :: "ApplicationIdentityReference option"

definition identityScope :: "ApplicationIdentityReference \<Rightarrow> jsval" where
  "identityScope identity =
     JObject [(''id'', JString (ref_id identity)), (''kind'', JString (ref_kind identity)),
       (''issuer'', JString (ref_issuer identity)), (''subject'', JString (ref_subject identity))]"

definition applicationAIConversationPrincipalScope :: "agent_runtime \<Rightarrow> agent_principal \<Rightarrow> jsobject \<Rightarrow> string" where
  "applicationAIConversationPrincipalScope rt pr trustedContext =
     (let actor = (case pr_causalPrincipal pr of None \<Rightarrow> pr_identity pr | Some causal \<Rightarrow> causal)
      in ''principal_'' @ sha256Hex (canonicalJson rt
           (JObject [(''actor'', identityScope actor), (''trustedContext'', JObject trustedContext)])))"

record ApplicationAIAgentPersistenceInput =
  ai_principal :: agent_principal
  ai_trustedContext :: jsobject
  ai_conversationId :: string
  ai_protocolRunId :: string
  ai_agentRunId :: string
  ai_invocationId :: string
  ai_messages :: "jsval list"
  ai_startedAt :: string

section \<open>Awaiting the store\<close>

record agent_world =
  aw_store :: conversation_store
  aw_others :: "conversation_call list list"

definition interfere :: "agent_world \<Rightarrow> agent_world" where
  "interfere w =
     (case aw_others w of
        [] \<Rightarrow> w
      | calls # rest \<Rightarrow> \<lparr>aw_store = fold attempt calls (aw_store w), aw_others = rest\<rparr>)"

definition await_read :: "(conversation_store \<Rightarrow> 'a) \<Rightarrow> (agent_world, 'a) state" where
  "await_read f = State (\<lambda>w. (f (aw_store (interfere w)), interfere w))"

definition await_call ::
  "(conversation_store \<Rightarrow> conversation_error + 'a \<times> conversation_store) \<Rightarrow>
   (agent_world, conversation_error + 'a) state" where
  "await_call f = State (\<lambda>w. let w' = interfere w in
     case f (aw_store w') of
       Inl e \<Rightarrow> (Inl e, w')
     | Inr (r, s) \<Rightarrow> (Inr r, w'\<lparr>aw_store := s\<rparr>))"

definition requiredString :: "string \<Rightarrow> string \<Rightarrow> conversation_error + string" where
  "requiredString value field =
     (if trim value = [] then Inl (PlainError (''Application AI conversation persistence requires '' @ field @ ''.''))
      else Inr value)"

section \<open>Messages\<close>

fun jsonObjectOrUndefined :: "jsval \<Rightarrow> jsobject option" where
  "jsonObjectOrUndefined (JObject ob) = Some ob"
| "jsonObjectOrUndefined _ = None"

definition optional_member :: "jsobject option \<Rightarrow> string \<Rightarrow> jsval" where
  "optional_member ob k = (case ob of None \<Rightarrow> JUndefined | Some m \<Rightarrow> obj_get m k)"

definition messageRole :: "jsval \<Rightarrow> message_role" where
  "messageRole value =
     (if value = JString ''system'' then RoleSystem
      else if value = JString ''user'' then RoleUser
      else if value = JString ''assistant'' then RoleAssistant
      else if value = JString ''tool'' then RoleTool
      else RoleUser)"

definition normalizedInputMessage ::
  "agent_runtime \<Rightarrow> ApplicationAIAgentPersistenceInput \<Rightarrow> nat \<Rightarrow> jsval \<Rightarrow> ApplicationConversationMessageInput" where
  "normalizedInputMessage rt input index value =
     (let record = jsonObjectOrUndefined value;
          derived = ''input_'' @ sha256Hex (ai_conversationId input @ [CHR 0x00] @ nat_to_string index @ [CHR 0x00] @
            canonicalJson rt value)
      in \<lparr>in_id = (case optional_member record ''id'' of
                     JString t \<Rightarrow> if trim t = [] then derived else t
                   | _ \<Rightarrow> derived),
          in_role = messageRole (optional_member record ''role''), in_content = value, in_state = None,
          in_invocationId = Some (ai_invocationId input), in_createdAt = ai_startedAt input\<rparr>)"

definition assertSameMessage ::
  "agent_runtime \<Rightarrow> ApplicationAIMessageRecord \<Rightarrow> ApplicationConversationMessageInput \<Rightarrow> conversation_error option" where
  "assertSameMessage rt existing expected =
     (if msg_id existing \<noteq> in_id expected \<or> msg_role existing \<noteq> in_role expected \<or>
         canonicalJson rt (msg_content existing) \<noteq> canonicalJson rt (in_content expected)
      then Some (ApplicationConversationConflictError
             (''Message '' @ in_id expected @ '' was reused with different durable content.''))
      else None)"

definition assertSameRun ::
  "ApplicationAIProtocolRunRecord \<Rightarrow> ApplicationAIAgentPersistenceInput \<Rightarrow> conversation_error option" where
  "assertSameRun run input =
     (if run_conversationId run \<noteq> ai_conversationId input \<or> run_agentRunId run \<noteq> Some (ai_agentRunId input) \<or>
         run_invocationId run \<noteq> Some (ai_invocationId input)
      then Some (ApplicationConversationConflictError
             (''Run '' @ ai_protocolRunId input @ '' was reused for another conversation or invocation.''))
      else None)"

section \<open>Ensuring records\<close>

definition ensureConversation ::
  "agent_runtime \<Rightarrow> ApplicationAIAgentPersistenceInput \<Rightarrow> string \<Rightarrow>
   (agent_world, conversation_error + ApplicationAIConversationRecord) state" where
  "ensureConversation rt input principalScope = do {
     existing \<leftarrow> await_read (getConversation (ai_conversationId input) principalScope);
     case existing of
       Some conversation \<Rightarrow> State_Monad.return (Inr conversation)
     | None \<Rightarrow>
         (case requiredString (ai_conversationId input) ''conversationId'' of
            Inl e \<Rightarrow> State_Monad.return (Inl e)
          | Inr cid \<Rightarrow> do {
              created \<leftarrow> await_call (createConversation
                \<lparr>conv_id = cid, conv_principalScope = principalScope,
                 conv_title = truthy_text (rt_title rt (ai_messages input)), conv_revision = 0,
                 conv_createdAt = ai_startedAt input, conv_updatedAt = ai_startedAt input,
                 conv_archivedAt = None, conv_retentionUntil = None\<rparr>);
              case created of
                Inr conversation \<Rightarrow> State_Monad.return (Inr conversation)
              | Inl e \<Rightarrow>
                  (if \<not> is_conflict e then State_Monad.return (Inl e)
                   else do {
                     raced \<leftarrow> await_read (getConversation (ai_conversationId input) principalScope);
                     State_Monad.return (case raced of
                       Some conversation \<Rightarrow> Inr conversation
                     | None \<Rightarrow> Inl (ApplicationConversationConflictError
                         (''Conversation '' @ ai_conversationId input @
                          '' already belongs to another admitted principal scope.'')))
                   })
            })
   }"

text \<open>The body of the loop of \<open>ensureInputMessages\<close> for one normalized message: the next revision.\<close>

definition ensure_input_message ::
  "agent_runtime \<Rightarrow> string \<Rightarrow> string \<Rightarrow> ApplicationConversationMessageInput \<Rightarrow> int \<Rightarrow>
   (agent_world, conversation_error + int) state" where
  "ensure_input_message rt cid principalScope normalized revision = do {
     existing \<leftarrow> await_read (getMessage (in_id normalized) cid principalScope);
     case existing of
       Some m \<Rightarrow> State_Monad.return (case assertSameMessage rt m normalized of
           Some e \<Rightarrow> Inl e
         | None \<Rightarrow> Inr (max revision (msg_revision m)))
     | None \<Rightarrow> do {
         appended \<leftarrow> await_call (appendMessage cid principalScope revision normalized);
         case appended of
           Inr (conversation, _) \<Rightarrow> State_Monad.return (Inr (conv_revision conversation))
         | Inl e \<Rightarrow>
             (if \<not> is_conflict e then State_Monad.return (Inl e)
              else do {
                raced \<leftarrow> await_read (getMessage (in_id normalized) cid principalScope);
                case raced of
                  Some m \<Rightarrow> State_Monad.return (case assertSameMessage rt m normalized of
                      Some e \<Rightarrow> Inl e
                    | None \<Rightarrow> Inr (max revision (msg_revision m)))
                | None \<Rightarrow> do {
                    current \<leftarrow> await_read (getConversation cid principalScope);
                    case current of
                      None \<Rightarrow> State_Monad.return (Inl e)
                    | Some conversation \<Rightarrow> do {
                        again \<leftarrow> await_call (appendMessage cid principalScope (conv_revision conversation) normalized);
                        State_Monad.return (map_sum id (\<lambda>(c, m). conv_revision c) again)
                      }
                  }
              })
       }
   }"

fun ensure_input_messages_from ::
  "agent_runtime \<Rightarrow> ApplicationAIAgentPersistenceInput \<Rightarrow> string \<Rightarrow> nat \<Rightarrow> jsval list \<Rightarrow> int \<Rightarrow>
   (agent_world, conversation_error + unit) state" where
  "ensure_input_messages_from rt input principalScope index [] revision = State_Monad.return (Inr ())"
| "ensure_input_messages_from rt input principalScope index (value # rest) revision = do {
     next \<leftarrow> ensure_input_message rt (ai_conversationId input) principalScope
       (normalizedInputMessage rt input index value) revision;
     case next of
       Inl e \<Rightarrow> State_Monad.return (Inl e)
     | Inr revision' \<Rightarrow> ensure_input_messages_from rt input principalScope (index + 1) rest revision'
   }"

definition ensureInputMessages ::
  "agent_runtime \<Rightarrow> ApplicationAIAgentPersistenceInput \<Rightarrow> string \<Rightarrow> int \<Rightarrow>
   (agent_world, conversation_error + unit) state" where
  "ensureInputMessages rt input principalScope initialRevision =
     ensure_input_messages_from rt input principalScope 0 (ai_messages input) initialRevision"

definition ensureRun ::
  "ApplicationAIAgentPersistenceInput \<Rightarrow> string \<Rightarrow>
   (agent_world, conversation_error + ApplicationAIProtocolRunRecord) state" where
  "ensureRun input principalScope = do {
     existing \<leftarrow> await_read (getRun (ai_protocolRunId input) principalScope);
     case existing of
       Some run \<Rightarrow> State_Monad.return (case assertSameRun run input of Some e \<Rightarrow> Inl e | None \<Rightarrow> Inr run)
     | None \<Rightarrow> do {
         started \<leftarrow> await_call (startRun
           \<lparr>start_id = ai_protocolRunId input, start_conversationId = ai_conversationId input,
            start_principalScope = principalScope, start_agentRunId = Some (ai_agentRunId input),
            start_invocationId = Some (ai_invocationId input), start_startedAt = ai_startedAt input\<rparr>);
         case started of
           Inr run \<Rightarrow> State_Monad.return (Inr run)
         | Inl e \<Rightarrow>
             (if \<not> is_conflict e then State_Monad.return (Inl e)
              else do {
                raced \<leftarrow> await_read (getRun (ai_protocolRunId input) principalScope);
                State_Monad.return (case raced of
                    None \<Rightarrow> Inl e
                  | Some run \<Rightarrow> (case assertSameRun run input of Some e' \<Rightarrow> Inl e' | None \<Rightarrow> Inr run))
              })
       }
   }"

definition ensureMessage ::
  "agent_runtime \<Rightarrow> string \<Rightarrow> string \<Rightarrow> ApplicationConversationMessageInput \<Rightarrow>
   (agent_world, conversation_error + unit) state" where
  "ensureMessage rt cid principalScope input = do {
     existing \<leftarrow> await_read (getMessage (in_id input) cid principalScope);
     case existing of
       Some m \<Rightarrow> State_Monad.return (case assertSameMessage rt m input of Some e \<Rightarrow> Inl e | None \<Rightarrow> Inr ())
     | None \<Rightarrow> do {
         current \<leftarrow> await_read (getConversation cid principalScope);
         case current of
           None \<Rightarrow> State_Monad.return (Inl (ApplicationConversationConflictError
             (''Conversation '' @ cid @ '' disappeared before message '' @ in_id input @ '' could be committed.'')))
         | Some conversation \<Rightarrow> do {
             appended \<leftarrow> await_call (appendMessage cid principalScope (conv_revision conversation) input);
             case appended of
               Inr _ \<Rightarrow> State_Monad.return (Inr ())
             | Inl e \<Rightarrow>
                 (if \<not> is_conflict e then State_Monad.return (Inl e)
                  else do {
                    raced \<leftarrow> await_read (getMessage (in_id input) cid principalScope);
                    State_Monad.return (case raced of
                        None \<Rightarrow> Inl e
                      | Some m \<Rightarrow> (case assertSameMessage rt m input of Some e' \<Rightarrow> Inl e' | None \<Rightarrow> Inr ()))
                  })
           }
       }
   }"

definition ensureRunStatus ::
  "string \<Rightarrow> string \<Rightarrow> run_status \<Rightarrow> string \<Rightarrow> string option \<Rightarrow>
   (agent_world, conversation_error + unit) state" where
  "ensureRunStatus rid principalScope status updatedAt terminalReason = do {
     found \<leftarrow> await_read (getRun rid principalScope);
     case found of
       None \<Rightarrow> State_Monad.return (Inl (ApplicationConversationConflictError
         (''Run '' @ rid @ '' disappeared before terminal persistence.'')))
     | Some run \<Rightarrow>
         (if run_status run = status then State_Monad.return (Inr ())
          else if run_status run \<noteq> Running then State_Monad.return (Inl (ApplicationConversationConflictError
            (''Run '' @ rid @ '' is already '' @ status_literal (run_status run) @ ''; it cannot become '' @
             status_literal status @ ''.'')))
          else do {
            moved \<leftarrow> await_call (transitionRun rid principalScope Running status updatedAt (truthy_text terminalReason));
            State_Monad.return (map_sum id (\<lambda>_. ()) moved)
          })
   }"

section \<open>The persistence of one agent run\<close>

text \<open>
  The object \<open>begin\<close> returns: its three identifiers and the variable \<open>frontier\<close> its methods close over.
\<close>

record ApplicationAIAgentPersistenceRun =
  ar_conversationId :: string
  ar_protocolRunId :: string
  ar_principalScope :: string
  ar_invocationId :: string
  ar_frontier :: int

definition agent_scope ::
  "agent_runtime \<Rightarrow> (agent_principal \<Rightarrow> jsobject \<Rightarrow> string) option \<Rightarrow> ApplicationAIAgentPersistenceInput \<Rightarrow> string" where
  "agent_scope rt scope input =
     (case scope of
        Some f \<Rightarrow> f (ai_principal input) (ai_trustedContext input)
      | None \<Rightarrow> applicationAIConversationPrincipalScope rt (ai_principal input) (ai_trustedContext input))"

definition agent_begin ::
  "agent_runtime \<Rightarrow> (agent_principal \<Rightarrow> jsobject \<Rightarrow> string) option \<Rightarrow> ApplicationAIAgentPersistenceInput \<Rightarrow>
   (agent_world, conversation_error + ApplicationAIAgentPersistenceRun) state" where
  "agent_begin rt scope input =
     (let principalScope = agent_scope rt scope input
      in if trim principalScope = []
         then State_Monad.return (Inl (PlainError ''Agent conversation persistence resolved an empty durable scope.''))
         else do {
           ensured \<leftarrow> ensureConversation rt input principalScope;
           case ensured of
             Inl e \<Rightarrow> State_Monad.return (Inl e)
           | Inr conversation \<Rightarrow> do {
               promoted \<leftarrow> ensureInputMessages rt input principalScope (conv_revision conversation);
               case promoted of
                 Inl e \<Rightarrow> State_Monad.return (Inl e)
               | Inr _ \<Rightarrow> do {
                   started \<leftarrow> ensureRun input principalScope;
                   case started of
                     Inl e \<Rightarrow> State_Monad.return (Inl e)
                   | Inr _ \<Rightarrow> do {
                       frontier \<leftarrow> await_read (getRunEventFrontier (ai_protocolRunId input) principalScope);
                       State_Monad.return (Inr \<lparr>ar_conversationId = ai_conversationId input,
                         ar_protocolRunId = ai_protocolRunId input, ar_principalScope = principalScope,
                         ar_invocationId = ai_invocationId input, ar_frontier = frontier\<rparr>)
                     }
                 }
             }
         })"

text \<open>\<open>append\<close> returns the run with its next frontier; a failed append keeps the old one.\<close>

definition agent_append ::
  "agent_runtime \<Rightarrow> ApplicationAIAgentPersistenceRun \<Rightarrow> jsobject \<Rightarrow> string \<Rightarrow>
   (agent_world, conversation_error + ApplicationAIAgentPersistenceRun) state" where
  "agent_append rt run event createdAt =
     (case (case obj_get event ''type'' of JString t \<Rightarrow> requiredString t ''agent stream event.type''
            | _ \<Rightarrow> Inl (PlainError ''Application AI conversation persistence requires agent stream event.type.'')) of
        Inl e \<Rightarrow> State_Monad.return (Inl e)
      | Inr event_type \<Rightarrow> do {
          stored \<leftarrow> await_call (appendRunEvent (ar_protocolRunId run) (ar_principalScope run) (ar_frontier run)
            \<lparr>ev_runId = [], ev_sequence = 0, ev_type = event_type, ev_payload = event, ev_visibility = Browser,
             ev_createdAt = createdAt\<rparr>);
          case stored of
            Inr e \<Rightarrow> State_Monad.return (Inr (run\<lparr>ar_frontier := ev_sequence e\<rparr>))
          | Inl err \<Rightarrow>
              (if \<not> is_conflict err then State_Monad.return (Inl err)
               else do {
                 existing \<leftarrow> await_read (getRunEvent (ar_protocolRunId run) (ar_principalScope run) (ar_frontier run + 1));
                 State_Monad.return (case existing of
                     None \<Rightarrow> Inl err
                   | Some e \<Rightarrow>
                       (if ev_type e \<noteq> event_type \<or>
                           canonicalJson rt (JObject (ev_payload e)) \<noteq> canonicalJson rt (JObject event)
                        then Inl err
                        else Inr (run\<lparr>ar_frontier := ev_sequence e\<rparr>)))
               })
        })"

definition agent_complete ::
  "agent_runtime \<Rightarrow> ApplicationAIAgentPersistenceRun \<Rightarrow> string \<Rightarrow> jsval \<Rightarrow> string \<Rightarrow>
   (agent_world, conversation_error + unit) state" where
  "agent_complete rt run messageId content completedAt = do {
     ensured \<leftarrow> ensureMessage rt (ar_conversationId run) (ar_principalScope run)
       \<lparr>in_id = messageId, in_role = RoleAssistant, in_content = content, in_state = None,
        in_invocationId = Some (ar_invocationId run), in_createdAt = completedAt\<rparr>;
     case ensured of
       Inl e \<Rightarrow> State_Monad.return (Inl e)
     | Inr _ \<Rightarrow> ensureRunStatus (ar_protocolRunId run) (ar_principalScope run) Completed completedAt None
   }"

definition agent_terminate ::
  "ApplicationAIAgentPersistenceRun \<Rightarrow> run_status \<Rightarrow> string \<Rightarrow> string \<Rightarrow>
   (agent_world, conversation_error + unit) state" where
  "agent_terminate run status reason terminatedAt =
     ensureRunStatus (ar_protocolRunId run) (ar_principalScope run) status terminatedAt (Some reason)"

end
