(* ===== verification/Agent_Laws.thy ===== *)
theory Agent_Laws
  imports Agent_Persistence
begin

text \<open>
  Laws of the agent persistence seam under interference. Functions over the world are specified by
  triples; an assertion on the store that every call other clients may make preserves survives each
  await, which is the contract of the locale \<open>stable_assertion\<close>. The facts that an admitted run rests
  on (its conversation, its promoted input messages and its run record) form such an assertion.
\<close>

section \<open>Weakest preconditions and stable assertions\<close>

definition wp :: "('w, 'a) state \<Rightarrow> ('a \<Rightarrow> 'w \<Rightarrow> bool) \<Rightarrow> 'w \<Rightarrow> bool" where
  "wp m Q w = (case run_state m w of (r, w') \<Rightarrow> Q r w')"

lemma wp_return [simp]: "wp (State_Monad.return x) Q = Q x"
  by (simp add: wp_def fun_eq_iff)

lemma wp_bind [simp]: "wp (State_Monad.bind m f) Q = wp m (\<lambda>r. wp (f r) Q)"
  by (simp add: wp_def State_Monad.bind_def fun_eq_iff split: prod.splits)

lemma wp_mono: "\<lbrakk>wp m Q w; \<And>r w'. Q r w' \<Longrightarrow> Q' r w'\<rbrakk> \<Longrightarrow> wp m Q' w"
  by (auto simp: wp_def split: prod.splits)

lemma wp_run: "\<lbrakk>wp m Q w; run_state m w = (r, w')\<rbrakk> \<Longrightarrow> Q r w'"
  by (simp add: wp_def)

definition calm :: "(conversation_call \<Rightarrow> bool) \<Rightarrow> agent_world \<Rightarrow> bool" where
  "calm ok w \<longleftrightarrow> (\<forall>calls \<in> set (aw_others w). \<forall>call \<in> set calls. ok call)"

definition holds :: "(conversation_call \<Rightarrow> bool) \<Rightarrow> (conversation_store \<Rightarrow> bool) \<Rightarrow> agent_world \<Rightarrow> bool" where
  "holds ok A w \<longleftrightarrow> calm ok w \<and> A (aw_store w)"

locale stable_assertion =
  fixes ok :: "conversation_call \<Rightarrow> bool" and A :: "conversation_store \<Rightarrow> bool"
  assumes stable: "\<lbrakk>ok call; A s\<rbrakk> \<Longrightarrow> A (attempt call s)"
begin

lemma stable_calls: "\<lbrakk>\<forall>call \<in> set calls. ok call; A s\<rbrakk> \<Longrightarrow> A (fold attempt calls s)"
  by (induction calls arbitrary: s) (auto simp: stable)

lemma interfere_holds: "holds ok A w \<Longrightarrow> holds ok A (interfere w)"
  by (cases "aw_others w") (auto simp: holds_def calm_def interfere_def stable_calls)

lemma wp_read:
  "\<lbrakk>holds ok A w; \<And>w'. holds ok A w' \<Longrightarrow> Q (f (aw_store w')) w'\<rbrakk> \<Longrightarrow> wp (await_read f) Q w"
  by (simp add: wp_def await_read_def interfere_holds)

lemma wp_own_call:
  assumes "holds ok A w" and call: "\<And>s r s'. f s = Inr (r, s') \<Longrightarrow> perform call s = Inr s'" "ok call"
    and "\<And>w' e. holds ok A w' \<Longrightarrow> Q (Inl e) w'"
    and "\<And>w' s r. \<lbrakk>holds ok A w'; A s; f s = Inr (r, aw_store w')\<rbrakk> \<Longrightarrow> Q (Inr r) w'"
  shows "wp (await_call f) Q w"
proof -
  let ?w = "interfere w"
  have w: "holds ok A ?w" by (rule interfere_holds [OF assms(1)])
  show ?thesis
  proof (cases "f (aw_store ?w)")
    case (Inl e)
    then show ?thesis using assms(4) [OF w] by (simp add: wp_def await_call_def Let_def)
  next
    case (Inr p)
    then obtain r s' where f: "f (aw_store ?w) = Inr (r, s')" by (cases p) auto
    have "A s'"
      using stable [OF call(2), of "aw_store ?w"] w call(1) [OF f] by (simp add: attempt_def holds_def)
    then have "holds ok A (?w\<lparr>aw_store := s'\<rparr>)"
      using w by (simp add: holds_def calm_def)
    from assms(5) [OF this, of "aw_store ?w" r] w f show ?thesis
      by (simp add: wp_def await_call_def Let_def holds_def)
  qed
qed

end

section \<open>What an admitted run rests on\<close>

definition keeps_transcript :: "string \<Rightarrow> conversation_call \<Rightarrow> bool" where
  "keeps_transcript cid call \<longleftrightarrow>
     admissible call \<and> (case call of ReplaceMessages k _ _ _ \<Rightarrow> k \<noteq> cid | _ \<Rightarrow> True)"

definition stored ::
  "agent_runtime \<Rightarrow> string \<Rightarrow> string \<Rightarrow> ApplicationConversationMessageInput \<Rightarrow> conversation_store \<Rightarrow> bool" where
  "stored rt cid scope n s \<longleftrightarrow>
     (\<exists>m. getMessage (in_id n) cid scope s = Some m \<and> assertSameMessage rt m n = None)"

definition admitted :: "string \<Rightarrow> ApplicationAIAgentPersistenceInput \<Rightarrow> conversation_store \<Rightarrow> bool" where
  "admitted scope input s \<longleftrightarrow>
     (\<exists>r. getRun (ai_protocolRunId input) scope s = Some r \<and> assertSameRun r input = None)"

definition agreed ::
  "agent_runtime \<Rightarrow> string \<Rightarrow> string \<Rightarrow> ApplicationConversationMessageInput set \<Rightarrow>
   ApplicationAIAgentPersistenceInput set \<Rightarrow> conversation_store \<Rightarrow> bool" where
  "agreed rt cid scope ns runs s \<longleftrightarrow>
     store_ok s \<and> (\<forall>n \<in> ns. stored rt cid scope n s) \<and> (\<forall>i \<in> runs. admitted scope i s)"

lemma find_append_Some: "List.find P xs = Some x \<Longrightarrow> List.find P (xs @ ys) = Some x"
  by (induction xs) (auto split: if_splits)

lemma transcript_extends:
  assumes "perform call s = Inr s'" "keeps_transcript cid call"
  shows "\<exists>ms. messages_of s' cid = messages_of s cid @ ms"
  using assms by (cases call)
    (auto simp: perform_Inr call_ok keeps_transcript_def patchRun_def Let_def
      simp del: perform.simps(1,2,4,6,7) split: option.splits)

lemma stored_step:
  assumes "stored rt cid scope n s" "keeps_transcript cid call"
  shows "stored rt cid scope n (attempt call s)"
proof (cases rule: attempt_cases [of call s])
  case (succeeds s')
  from assms(1) obtain m where m: "scoped_conversation s cid scope \<noteq> None"
    "List.find (\<lambda>c. msg_id c = in_id n) (messages_of s cid) = Some m" "assertSameMessage rt m n = None"
    by (auto simp: stored_def getMessage_def split: option.splits)
  moreover obtain ms where "messages_of s' cid = messages_of s cid @ ms"
    using transcript_extends [OF succeeds(1) assms(2)] by blast
  ultimately show ?thesis
    using scoped_conversation_kept [OF succeeds(1) m(1)] succeeds(2)
    by (auto simp: stored_def getMessage_def find_append_Some)
qed (use assms in simp)

lemma run_kept:
  assumes "store_ok s" "perform call s = Inr s'" "map_of (st_runs s) rid = Some r"
  shows "\<exists>r'. map_of (st_runs s') rid = Some r' \<and> run_principalScope r' = run_principalScope r \<and>
    run_conversationId r' = run_conversationId r \<and> run_agentRunId r' = run_agentRunId r \<and>
    run_invocationId r' = run_invocationId r"
proof -
  have key: "run_id q = k" if "map_of (st_runs s) k = Some q" for k q
    using assms(1) runs_okD [of s k q] that by (simp add: store_ok_def)
  show ?thesis
  proof (cases call)
    case (PatchRun k sc status updatedAt reason state)
    with assms(2,3) show ?thesis
      by (cases rule: patchRun_cases [of k sc status updatedAt reason state s]) (auto simp: key)
  qed (use assms(2,3) in \<open>auto simp: perform_Inr call_ok key simp del: perform.simps(1,2,4,6,7)\<close>)
qed

lemma admitted_step:
  assumes "store_ok s" "admitted scope input s"
  shows "admitted scope input (attempt call s)"
proof (cases rule: attempt_cases [of call s])
  case (succeeds s')
  from assms(2) obtain r where r: "map_of (st_runs s) (ai_protocolRunId input) = Some r"
    "run_principalScope r = scope" "assertSameRun r input = None"
    by (auto simp: admitted_def getRun_def scoped_run_Some)
  from run_kept [OF assms(1) succeeds(1) r(1)] r(2,3) succeeds(2) show ?thesis
    by (auto simp: admitted_def getRun_def scoped_run_Some assertSameRun_def split: if_splits)
qed (use assms in simp)

interpretation agent: stable_assertion "keeps_transcript cid" "agreed rt cid scope ns runs" for rt cid scope ns runs
proof
  fix call s assume call: "keeps_transcript cid call" and s: "agreed rt cid scope ns runs s"
  then have "store_ok (attempt call s)"
    using store_ok_attempt by (simp add: agreed_def keeps_transcript_def)
  then show "agreed rt cid scope ns runs (attempt call s)"
    using s stored_step [OF _ call] admitted_step by (simp add: agreed_def)
qed

section \<open>The functions under interference\<close>

abbreviation admits ::
  "agent_runtime \<Rightarrow> string \<Rightarrow> string \<Rightarrow> ApplicationConversationMessageInput set \<Rightarrow>
   ApplicationAIAgentPersistenceInput set \<Rightarrow> agent_world \<Rightarrow> bool" where
  "admits rt cid scope ns runs \<equiv> holds (keeps_transcript cid) (agreed rt cid scope ns runs)"

lemma wp_create:
  assumes "admits rt cid scope ns runs w" "0 \<le> conv_revision c"
    and "\<And>r w'. admits rt cid scope ns runs w' \<Longrightarrow> Q r w'"
  shows "wp (await_call (createConversation c)) Q w"
  using assms(2,3) by (intro agent.wp_own_call [OF assms(1), where call = "CreateConversation c"])
    (simp_all add: keeps_transcript_def)

lemma stored_appended:
  assumes "appendMessage cid scope n i s = Inr (r, s')"
  shows "stored rt cid scope i s'"
proof -
  obtain c m where "r = (c, m)" by fastforce
  with assms have s': "scoped_conversation s' cid scope = Some c" "messages_of s' cid = messages_of s cid @ [m]"
    and m: "m = message_record cid (n + 1) i" and fresh: "in_id i \<notin> msg_id ` set (messages_of s cid)"
    by (auto simp: appendMessage_ok scoped_conversation_def)
  from fresh have "List.find (\<lambda>x. msg_id x = in_id i) (messages_of s cid) = None"
    by (auto simp: find_None_iff) (metis imageI)
  then show ?thesis
    by (simp add: stored_def getMessage_def s' find_snoc m message_record_def assertSameMessage_def)
qed

lemma wp_append:
  assumes "admits rt cid scope ns runs w" "\<And>e w'. admits rt cid scope ns runs w' \<Longrightarrow> Q (Inl e) w'"
    and "\<And>r w'. \<lbrakk>admits rt cid scope ns runs w'; stored rt cid scope i (aw_store w')\<rbrakk> \<Longrightarrow> Q (Inr r) w'"
  shows "wp (await_call (appendMessage cid scope n i)) Q w"
  using assms(2,3) stored_appended
  by (intro agent.wp_own_call [OF assms(1), where call = "AppendMessage cid scope n i"])
     (simp_all add: keeps_transcript_def)

lemma admitted_started:
  assumes "startRun j s = Inr (r, s')" "start_id j = ai_protocolRunId input"
    and "start_conversationId j = ai_conversationId input" "start_principalScope j = scope"
    and "start_agentRunId j = Some (ai_agentRunId input)" "start_invocationId j = Some (ai_invocationId input)"
    and "ai_agentRunId input \<noteq> []" "ai_invocationId input \<noteq> []"
  shows "admitted scope input s'"
  using assms by (auto simp: startRun_ok admitted_def getRun_def scoped_run_def assertSameRun_def truthy_text_def)

lemma wp_start:
  assumes "admits rt cid scope ns runs w" "\<And>e w'. admits rt cid scope ns runs w' \<Longrightarrow> Q (Inl e) w'"
    and "\<And>r s w'. \<lbrakk>admits rt cid scope ns runs w'; startRun j s = Inr (r, aw_store w')\<rbrakk> \<Longrightarrow> Q (Inr r) w'"
  shows "wp (await_call (startRun j)) Q w"
  using assms(2,3) by (intro agent.wp_own_call [OF assms(1), where call = "StartRun j"])
    (auto simp add: keeps_transcript_def)

lemma ensureConversation_admits:
  assumes "admits rt (ai_conversationId input) scope ns runs w"
    and "\<And>r w'. admits rt (ai_conversationId input) scope ns runs w' \<Longrightarrow> Q r w'"
  shows "wp (ensureConversation rt input scope) Q w"
  unfolding ensureConversation_def
  by (auto intro!: agent.wp_read [OF assms(1)] agent.wp_read wp_create assms(2)
      simp: keeps_transcript_def split: option.split sum.split)

lemma stored_found: "\<lbrakk>getMessage (in_id n) cid scope s = Some m; assertSameMessage rt m n = None\<rbrakk> \<Longrightarrow> stored rt cid scope n s"
  by (auto simp: stored_def)

lemma admitted_found:
  "\<lbrakk>getRun (ai_protocolRunId input) scope s = Some r; assertSameRun r input = None\<rbrakk> \<Longrightarrow> admitted scope input s"
  by (auto simp: admitted_def)

lemma ensure_input_message_admits:
  assumes "admits rt cid scope ns runs w"
    and "\<And>e w'. admits rt cid scope ns runs w' \<Longrightarrow> Q (Inl e) w'"
    and "\<And>v w'. \<lbrakk>admits rt cid scope ns runs w'; stored rt cid scope n (aw_store w')\<rbrakk> \<Longrightarrow> Q (Inr v) w'"
  shows "wp (ensure_input_message rt cid scope n revision) Q w"
  unfolding ensure_input_message_def
  by (auto intro!: agent.wp_read [OF assms(1)] agent.wp_read wp_append assms(2,3) split: option.split sum.split)
     (blast intro: stored_found)+

lemma admits_insert:
  "\<lbrakk>admits rt cid scope ns runs w; stored rt cid scope n (aw_store w)\<rbrakk> \<Longrightarrow> admits rt cid scope (insert n ns) runs w"
  "\<lbrakk>admits rt cid scope ns runs w; admitted scope i (aw_store w)\<rbrakk> \<Longrightarrow> admits rt cid scope ns (insert i runs) w"
  by (auto simp: holds_def agreed_def)

definition input_messages ::
  "agent_runtime \<Rightarrow> ApplicationAIAgentPersistenceInput \<Rightarrow> nat \<Rightarrow> jsval list \<Rightarrow> ApplicationConversationMessageInput list" where
  "input_messages rt input index vs = map (\<lambda>(i, v). normalizedInputMessage rt input i v) (enumerate index vs)"

lemma input_messages_simps [simp]:
  "input_messages rt input index [] = []"
  "input_messages rt input index (v # vs) =
     normalizedInputMessage rt input index v # input_messages rt input (index + 1) vs"
  by (simp_all add: input_messages_def)

lemma ensure_input_messages_admits:
  assumes "admits rt (ai_conversationId input) scope ns runs w"
    and "\<And>e ns' w'. admits rt (ai_conversationId input) scope ns' runs w' \<Longrightarrow> Q (Inl e) w'"
    and "\<And>w'. admits rt (ai_conversationId input) scope (set (input_messages rt input index vs) \<union> ns) runs w' \<Longrightarrow> Q (Inr ()) w'"
  shows "wp (ensure_input_messages_from rt input scope index vs revision) Q w"
  using assms(1,3)
proof (induction vs arbitrary: index revision ns w)
  case (Cons v vs)
  show ?case
    using Cons.prems
    by (auto intro!: ensure_input_message_admits [OF Cons.prems(1)] Cons.IH admits_insert assms(2) Cons.prems(2)
        split: sum.split)
qed simp

lemma ensureRun_admits:
  assumes "admits rt cid scope ns runs w" "ai_agentRunId input \<noteq> []" "ai_invocationId input \<noteq> []"
    and "\<And>e w'. admits rt cid scope ns runs w' \<Longrightarrow> Q (Inl e) w'"
    and "\<And>v w'. admits rt cid scope ns (insert input runs) w' \<Longrightarrow> Q (Inr v) w'"
  shows "wp (ensureRun input scope) Q w"
proof -
  have started: "admitted scope input s'"
    if "startRun \<lparr>start_id = ai_protocolRunId input, start_conversationId = ai_conversationId input,
        start_principalScope = scope, start_agentRunId = Some (ai_agentRunId input),
        start_invocationId = Some (ai_invocationId input), start_startedAt = ai_startedAt input\<rparr> s = Inr (r, s')" for r s s'
    using assms(2,3) by (intro admitted_started [OF that]) simp_all
  show ?thesis
    unfolding ensureRun_def
    by (auto intro!: agent.wp_read [OF assms(1)] agent.wp_read wp_start assms(4,5) admits_insert split: option.split sum.split)
       (blast intro: admitted_found started)+
qed

lemma agent_begin_admits:
  assumes "admits rt (ai_conversationId input) (agent_scope rt scope input) ns runs w"
    and "ai_agentRunId input \<noteq> []" "ai_invocationId input \<noteq> []"
  shows "wp (agent_begin rt scope input)
    (\<lambda>r w'. \<forall>run. r = Inr run \<longrightarrow> admits rt (ai_conversationId input) (agent_scope rt scope input)
       (set (input_messages rt input 0 (ai_messages input)) \<union> ns) (insert input runs) w' \<and>
       trim (agent_scope rt scope input) \<noteq> []) w"
  unfolding agent_begin_def Let_def ensureInputMessages_def
  by (auto intro!: ensureConversation_admits [OF assms(1)] ensure_input_messages_admits
        ensureRun_admits [OF _ assms(2,3)] agent.wp_read split: sum.split)

section \<open>Running alone\<close>

abbreviation alone :: "conversation_store \<Rightarrow> agent_world" where
  "alone s \<equiv> \<lparr>aw_store = s, aw_others = []\<rparr>"

lemma run_state_bind: "run_state (State_Monad.bind m f) w = (case run_state m w of (r, w') \<Rightarrow> run_state (f r) w')"
  by (simp add: State_Monad.bind_def)

lemma run_read_alone [simp]: "run_state (await_read f) (alone s) = (f s, alone s)"
  by (simp add: await_read_def interfere_def)

lemma run_call_alone [simp]:
  "run_state (await_call f) (alone s) = (case f s of Inl e \<Rightarrow> (Inl e, alone s) | Inr (r, s') \<Rightarrow> (Inr r, alone s'))"
  by (simp add: await_call_def interfere_def Let_def split: sum.splits prod.splits)

lemma ensure_input_messages_again:
  "(\<forall>n \<in> set (input_messages rt input index vs). stored rt (ai_conversationId input) scope n s) \<Longrightarrow>
   run_state (ensure_input_messages_from rt input scope index vs revision) (alone s) = (Inr (), alone s)"
  by (induction vs arbitrary: index revision)
     (auto simp: run_state_bind ensure_input_message_def stored_def)

lemma admitted_conversation:
  assumes "store_ok s" "admitted scope input s"
  shows "\<exists>c. getConversation (ai_conversationId input) scope s = Some c"
proof -
  from assms(2) obtain r where r: "map_of (st_runs s) (ai_protocolRunId input) = Some r"
    "run_principalScope r = scope" "run_conversationId r = ai_conversationId input"
    by (auto simp: admitted_def getRun_def scoped_run_Some assertSameRun_def split: if_splits)
  have "scoped_conversation s (run_conversationId r) (run_principalScope r) \<noteq> None"
    using assms(1) runs_okD [OF _ r(1)] by (simp add: store_ok_def)
  then show ?thesis by (auto simp: r getConversation_def)
qed

lemma agent_begin_again:
  assumes "agreed rt (ai_conversationId input) (agent_scope rt scope input)
      (set (input_messages rt input 0 (ai_messages input))) {input} s"
    and "trim (agent_scope rt scope input) \<noteq> []"
  shows "run_state (agent_begin rt scope input) (alone s) =
    (Inr \<lparr>ar_conversationId = ai_conversationId input, ar_protocolRunId = ai_protocolRunId input,
       ar_principalScope = agent_scope rt scope input, ar_invocationId = ai_invocationId input,
       ar_frontier = getRunEventFrontier (ai_protocolRunId input) (agent_scope rt scope input) s\<rparr>, alone s)"
proof -
  have ok: "store_ok s" and run: "admitted (agent_scope rt scope input) input s"
    and msgs: "\<forall>n \<in> set (input_messages rt input 0 (ai_messages input)).
      stored rt (ai_conversationId input) (agent_scope rt scope input) n s"
    using assms(1) by (auto simp: agreed_def)
  obtain c where c: "getConversation (ai_conversationId input) (agent_scope rt scope input) s = Some c"
    using admitted_conversation [OF ok run] by blast
  obtain r where r: "getRun (ai_protocolRunId input) (agent_scope rt scope input) s = Some r" "assertSameRun r input = None"
    using run by (auto simp: admitted_def)
  have "run_state (ensureConversation rt input (agent_scope rt scope input)) (alone s) = (Inr c, alone s)"
    by (simp add: ensureConversation_def run_state_bind c)
  moreover have "run_state (ensureRun input (agent_scope rt scope input)) (alone s) = (Inr r, alone s)"
    by (simp add: ensureRun_def run_state_bind r)
  ultimately show ?thesis
    using assms(2) ensure_input_messages_again [OF msgs]
    by (simp add: agent_begin_def Let_def run_state_bind ensureInputMessages_def)
qed

section \<open>A sample run\<close>

definition sample_runtime :: agent_runtime where
  "sample_runtime = \<lparr>rt_localeCompare = compareStrings, rt_number = (\<lambda>_. ''0''), rt_title = (\<lambda>_. None)\<rparr>"

definition sample_scope :: "(agent_principal \<Rightarrow> jsobject \<Rightarrow> string) option" where
  "sample_scope = Some (\<lambda>_ _. ''p'')"

definition sample_input :: ApplicationAIAgentPersistenceInput where
  "sample_input = \<lparr>ai_principal = \<lparr>pr_identity = \<lparr>ref_id = ''u'', ref_kind = ''user'', ref_issuer = ''i'', ref_subject = ''s''\<rparr>,
       pr_causalPrincipal = None\<rparr>, ai_trustedContext = [], ai_conversationId = ''d'', ai_protocolRunId = ''t'',
     ai_agentRunId = ''a'', ai_invocationId = ''v'', ai_messages = [JObject [(''id'', JString ''x'')]], ai_startedAt = ''5''\<rparr>"

definition sample_agent_run :: ApplicationAIAgentPersistenceRun where
  "sample_agent_run = \<lparr>ar_conversationId = ''d'', ar_protocolRunId = ''t'', ar_principalScope = ''p'', ar_invocationId = ''v'',
     ar_frontier = 0\<rparr>"

lemma sample_input_messages:
  "input_messages sample_runtime sample_input 0 (ai_messages sample_input) =
   [\<lparr>in_id = ''x'', in_role = RoleUser, in_content = JObject [(''id'', JString ''x'')], in_state = None,
     in_invocationId = Some ''v'', in_createdAt = ''5''\<rparr>]"
  by (simp add: sample_input_def normalizedInputMessage_def optional_member_def messageRole_def trim_def is_ws_def Let_def)

lemma sample_input_simps [simp]:
  "ai_agentRunId sample_input = ''a''" "ai_invocationId sample_input = ''v''" "ai_conversationId sample_input = ''d''"
  "ai_protocolRunId sample_input = ''t''" "agent_scope rt sample_scope sample_input = ''p''"
  by (simp_all add: sample_input_def agent_scope_def sample_scope_def)

text \<open>The first \<open>begin\<close> of the sample, while another client creates the same conversation.\<close>

definition sample_others :: "conversation_call list list" where
  "sample_others = [[], [CreateConversation \<lparr>conv_id = ''d'', conv_principalScope = ''p'', conv_title = None,
     conv_revision = 0, conv_createdAt = ''4'', conv_updatedAt = ''4'', conv_archivedAt = None, conv_retentionUntil = None\<rparr>]]"

lemma sample_begin:
  "\<exists>run w. run_state (agent_begin sample_runtime sample_scope sample_input)
     \<lparr>aw_store = history sample_calls, aw_others = sample_others\<rparr> = (Inr run, w)"
  by (simp add: agent_begin_def Let_def run_state_bind ensureConversation_def await_read_def interfere_def sample_others_def
      getConversation_def scoped_conversation_def sample_history trim_def is_ws_def requiredString_def await_call_def
      createConversation_def attempt_def ensureInputMessages_def ensure_input_message_def getMessage_def messages_of_def
      appendMessage_def normalizedInputMessage_def optional_member_def ensureRun_def getRun_def scoped_run_def startRun_def
      sample_input_def agent_scope_def sample_scope_def)

section \<open>Properties\<close>

lemma stored_message:
  "stored rt cid scope n s \<Longrightarrow> \<exists>m \<in> set (messages_of s cid). msg_id m = in_id n \<and> msg_role m = in_role n \<and>
     canonicalJson rt (msg_content m) = canonicalJson rt (in_content n)"
  by (fastforce simp: stored_def getMessage_def assertSameMessage_def split: option.splits if_splits dest: find_SomeD)

lemma find_distinct_once:
  "\<lbrakk>distinct (map f xs); List.find (\<lambda>x. f x = k) xs = Some y\<rbrakk> \<Longrightarrow> length (filter (\<lambda>x. f x = k) xs) = 1"
  by (induction xs) (auto simp: filter_empty_conv image_iff split: if_splits)

lemma stored_once:
  assumes "store_ok s" "stored rt cid scope n s"
  shows "length (filter (\<lambda>m. msg_id m = in_id n) (messages_of s cid)) = 1"
proof -
  from assms(2) obtain m where find: "List.find (\<lambda>c. msg_id c = in_id n) (messages_of s cid) = Some m"
    and c: "scoped_conversation s cid scope \<noteq> None"
    by (auto simp: stored_def getMessage_def split: option.splits)
  have "distinct (map msg_id (messages_of s cid))"
    using assms(1) c by (auto simp: store_ok_def scoped_conversation_Some transcript_ok_def dest!: conversations_okD)
  from find_distinct_once [OF this find] show ?thesis .
qed

text \<open>
  C22: Repair without duplication. Let \<open>begin\<close> of an agent run succeed on a reachable store, whatever
  admissible calls other clients make at its awaits, and let any calls follow, a process restart
  included; only a \<open>replaceMessages\<close> of this conversation is excluded. Then \<open>begin\<close> with the same input
  succeeds again, changes nothing in the store, continues at the current event frontier, and each
  input message stands in the transcript exactly once with the same role and content.
\<close>

theorem begin_repairs_without_duplication:
  assumes "\<forall>call \<in> set calls. admissible call"
    and "\<forall>batch \<in> set others. \<forall>call \<in> set batch. keeps_transcript (ai_conversationId input) call"
    and "\<forall>call \<in> set later. keeps_transcript (ai_conversationId input) call"
    and "ai_agentRunId input \<noteq> []" "ai_invocationId input \<noteq> []"
    and "run_state (agent_begin rt scope input) \<lparr>aw_store = history calls, aw_others = others\<rparr> = (Inr run, w)"
    and "s = fold attempt later (aw_store w)"
  shows "run_state (agent_begin rt scope input) (alone s) =
      (Inr (run\<lparr>ar_frontier := getRunEventFrontier (ai_protocolRunId input) (agent_scope rt scope input) s\<rparr>), alone s) \<and>
    (\<forall>n \<in> set (input_messages rt input 0 (ai_messages input)).
      (\<exists>m \<in> set (messages_of s (ai_conversationId input)). msg_id m = in_id n \<and> msg_role m = in_role n \<and>
         canonicalJson rt (msg_content m) = canonicalJson rt (in_content n)) \<and>
      length (filter (\<lambda>m. msg_id m = in_id n) (messages_of s (ai_conversationId input))) = 1)"
proof -
  let ?scope = "agent_scope rt scope input" and ?cid = "ai_conversationId input"
  let ?ns = "set (input_messages rt input 0 (ai_messages input))"
  have "admits rt ?cid ?scope {} {} \<lparr>aw_store = history calls, aw_others = others\<rparr>"
    using assms(1,2) store_ok_history by (simp add: holds_def calm_def agreed_def)
  from wp_run [OF agent_begin_admits [OF this assms(4,5)] assms(6)]
  have "agreed rt ?cid ?scope ?ns {input} (aw_store w)" and scope: "trim ?scope \<noteq> []"
    by (auto simp: holds_def)
  then have agreed: "agreed rt ?cid ?scope ?ns {input} s"
    using agent.stable_calls [OF assms(3)] by (simp add: assms(7))
  have ids: "ar_conversationId run = ?cid \<and> ar_protocolRunId run = ai_protocolRunId input \<and>
      ar_principalScope run = ?scope \<and> ar_invocationId run = ai_invocationId input"
    using assms(6) by (auto simp: agent_begin_def Let_def run_state_bind split: if_splits prod.splits sum.splits)
  have "run_state (agent_begin rt scope input) (alone s) =
      (Inr (run\<lparr>ar_frontier := getRunEventFrontier (ai_protocolRunId input) ?scope s\<rparr>), alone s)"
    unfolding agent_begin_again [OF agreed scope] using ids by (cases run) simp
  moreover have "\<exists>m \<in> set (messages_of s ?cid). msg_id m = in_id n \<and> msg_role m = in_role n \<and>
      canonicalJson rt (msg_content m) = canonicalJson rt (in_content n)" if "n \<in> ?ns" for n
    using agreed that stored_message by (auto simp: agreed_def)
  ultimately show ?thesis
    using agreed stored_once by (auto simp: agreed_def)
qed

theorem begin_repairs_without_duplication_witness:
  "\<exists>run w. run_state (agent_begin sample_runtime sample_scope sample_input)
     \<lparr>aw_store = history sample_calls, aw_others = sample_others\<rparr> = (Inr run, w) \<and>
     snd (run_state (agent_begin sample_runtime sample_scope sample_input) (alone (aw_store w))) = alone (aw_store w) \<and>
     length (filter (\<lambda>m. msg_id m = ''x'') (messages_of (aw_store w) ''d'')) = 1"
proof -
  obtain run w where run: "run_state (agent_begin sample_runtime sample_scope sample_input)
     \<lparr>aw_store = history sample_calls, aw_others = sample_others\<rparr> = (Inr run, w)"
    using sample_begin by blast
  have others: "\<forall>batch \<in> set sample_others. \<forall>call \<in> set batch. keeps_transcript (ai_conversationId sample_input) call"
    by (simp add: sample_others_def keeps_transcript_def)
  from begin_repairs_without_duplication [OF sample_admissible others, of "[]", OF _ _ _ run refl]
  show ?thesis using run by (auto simp: sample_input_messages)
qed

definition fresh_transcript :: "string \<Rightarrow> int \<Rightarrow> ApplicationConversationMessageInput list \<Rightarrow> ApplicationAIMessageRecord list" where
  "fresh_transcript cid start ns = map (\<lambda>(i, n). message_record cid (start + int i + 1) n) (enumerate 0 ns)"

lemma fresh_transcript_Cons [simp]:
  "fresh_transcript cid start (n # ns) = message_record cid (start + 1) n # fresh_transcript cid (start + 1) ns"
  by (auto simp: fresh_transcript_def enumerate_Suc_eq ac_simps)

lemma fresh_transcript_Nil [simp]: "fresh_transcript cid start [] = []"
  by (simp add: fresh_transcript_def)

lemma ensure_input_messages_fresh:
  assumes "scoped_conversation s (ai_conversationId input) scope = Some c" "conv_revision c = revision"
    and "distinct (map msg_id (messages_of s (ai_conversationId input)) @ map in_id (input_messages rt input index vs))"
  shows "\<exists>s' c'. run_state (ensure_input_messages_from rt input scope index vs revision) (alone s) = (Inr (), alone s') \<and>
    scoped_conversation s' (ai_conversationId input) scope = Some c' \<and>
    messages_of s' (ai_conversationId input) =
      messages_of s (ai_conversationId input) @ fresh_transcript (ai_conversationId input) revision (input_messages rt input index vs) \<and>
    st_runs s' = st_runs s \<and> st_events s' = st_events s"
  using assms
proof (induction vs arbitrary: index revision s c)
  case (Cons v vs)
  let ?cid = "ai_conversationId input" and ?n = "normalizedInputMessage rt input index v"
  let ?c = "c\<lparr>conv_revision := revision + 1, conv_updatedAt := in_createdAt ?n\<rparr>"
  let ?s = "s\<lparr>st_conversations := AList.update ?cid ?c (st_conversations s),
    st_messages := AList.update ?cid (messages_of s ?cid @ [message_record ?cid (revision + 1) ?n]) (st_messages s)\<rparr>"
  have "appendMessage ?cid scope revision ?n s = Inr ((?c, message_record ?cid (revision + 1) ?n), ?s)"
    using Cons.prems by (auto simp: appendMessage_ok scoped_conversation_Some)
  moreover have "getMessage (in_id ?n) ?cid scope s = None"
    using Cons.prems by (auto simp: getMessage_def find_None_iff image_iff)
  ultimately have "run_state (ensure_input_messages_from rt input scope index (v # vs) revision) (alone s) =
      run_state (ensure_input_messages_from rt input scope (index + 1) vs (revision + 1)) (alone ?s)"
    by (simp add: run_state_bind ensure_input_message_def)
  moreover have "scoped_conversation ?s ?cid scope = Some ?c"
    using Cons.prems by (simp add: scoped_conversation_def split: option.splits if_splits)
  moreover have "distinct (map msg_id (messages_of ?s ?cid) @ map in_id (input_messages rt input (index + 1) vs))"
    using Cons.prems(3) by (auto simp: message_record_def)
  ultimately show ?case
    using Cons.IH [of ?s ?c "revision + 1" "index + 1"] by simp
qed auto

text \<open>
  C27: A first \<open>begin\<close> succeeds. On a reachable store that has neither the conversation nor the run,
  with distinct message identifiers and no interference, \<open>begin\<close> returns a run at frontier 0; the
  transcript is then exactly the input messages, numbered from 1, and the run is running.
\<close>

theorem begin_promotes_input:
  assumes "\<forall>call \<in> set calls. admissible call"
    and "map_of (st_conversations (history calls)) (ai_conversationId input) = None"
    and "map_of (st_runs (history calls)) (ai_protocolRunId input) = None"
    and "distinct (map in_id (input_messages rt input 0 (ai_messages input)))"
    and "trim (ai_conversationId input) \<noteq> []" "trim (agent_scope rt scope input) \<noteq> []"
  shows "\<exists>run s r. run_state (agent_begin rt scope input) (alone (history calls)) = (Inr run, alone s) \<and>
    ar_frontier run = 0 \<and>
    messages_of s (ai_conversationId input) =
      fresh_transcript (ai_conversationId input) 0 (input_messages rt input 0 (ai_messages input)) \<and>
    getRun (ai_protocolRunId input) (agent_scope rt scope input) s = Some r \<and> run_status r = Running \<and>
    run_conversationId r = ai_conversationId input"
proof -
  let ?s = "history calls" and ?cid = "ai_conversationId input" and ?rid = "ai_protocolRunId input"
  let ?scope = "agent_scope rt scope input"
  have ok: "store_ok ?s" by (rule store_ok_history [OF assms(1)])
  have no_messages: "messages_of ?s ?cid = []" and no_events: "events_of ?s ?rid = []"
    using ok assms(2,3) conversations_ok_absent runs_ok_absent by (auto simp: store_ok_def)
  obtain c s1 where created: "run_state (ensureConversation rt input ?scope) (alone ?s) = (Inr c, alone s1)"
    and s1: "scoped_conversation s1 ?cid ?scope = Some c" "conv_revision c = 0" "messages_of s1 ?cid = []"
      "st_runs s1 = st_runs ?s" "st_events s1 = st_events ?s"
    using assms(2,5) no_messages
    by (auto simp: ensureConversation_def run_state_bind getConversation_def scoped_conversation_def requiredString_def
        createConversation_def)
  obtain s2 c2 where promoted: "run_state (ensureInputMessages rt input ?scope 0) (alone s1) = (Inr (), alone s2)"
    and s2: "scoped_conversation s2 ?cid ?scope = Some c2"
      "messages_of s2 ?cid = fresh_transcript ?cid 0 (input_messages rt input 0 (ai_messages input))"
      "st_runs s2 = st_runs ?s" "st_events s2 = st_events ?s"
    using ensure_input_messages_fresh [OF s1(1,2), of rt 0 "ai_messages input"] assms(4) s1(3-5)
    by (auto simp: ensureInputMessages_def)
  obtain r s3 where started: "run_state (ensureRun input ?scope) (alone s2) = (Inr r, alone s3)"
    and s3: "getRun ?rid ?scope s3 = Some r" "run_status r = Running" "run_conversationId r = ?cid"
      "messages_of s3 ?cid = messages_of s2 ?cid" "events_of s3 ?rid = []"
    using s2 assms(3) no_events
    by (auto simp: ensureRun_def run_state_bind getRun_def scoped_run_def startRun_def Let_def events_of_def)
  have "getRunEventFrontier ?rid ?scope s3 = 0"
    using s3(1,5) by (simp add: getRunEventFrontier_def getRun_def)
  then show ?thesis
    using assms(6) created promoted started s1(2) s2(2) s3
    by (simp add: agent_begin_def Let_def run_state_bind)
qed

theorem begin_promotes_input_witness:
  "\<exists>run s. run_state (agent_begin sample_runtime sample_scope sample_input) (alone (history sample_calls)) = (Inr run, alone s) \<and>
     map msg_id (messages_of s ''d'') = [''x'']"
  using begin_promotes_input [OF sample_admissible, of sample_input sample_runtime sample_scope]
  by (auto simp: sample_history sample_input_messages trim_def is_ws_def message_record_def)

lemma transition_reaches:
  assumes "store_ok s" "transitionRun rid scope frm status updatedAt reason s = Inr (r, s')"
  shows "\<exists>run. getRun rid scope s' = Some run \<and> run_status run = status"
proof -
  from assms(2) obtain q where q: "map_of (st_runs s) rid = Some q" "run_principalScope q = scope"
    and s': "s' = s\<lparr>st_runs := AList.update (run_id q) r (st_runs s)\<rparr>"
    and r: "run_status r = status" "run_principalScope r = scope"
    by (auto simp: transitionRun_ok)
  have "run_id q = rid" using assms(1) runs_okD [OF _ q(1)] by (simp add: store_ok_def)
  then show ?thesis by (simp add: getRun_def scoped_run_def s' r)
qed

lemma ensureRunStatus_admits:
  assumes "admits rt cid sc ns runs w" "\<And>e w'. admits rt cid sc ns runs w' \<Longrightarrow> Q (Inl e) w'"
    and "\<And>w' run. \<lbrakk>admits rt cid sc ns runs w'; getRun rid scope (aw_store w') = Some run; run_status run = status\<rbrakk> \<Longrightarrow>
      Q (Inr ()) w'"
  shows "wp (ensureRunStatus rid scope status updatedAt reason) Q w"
proof -
  have call: "wp (await_call (transitionRun rid scope Running status updatedAt rs))
      (\<lambda>r. Q (map_sum id (\<lambda>_. ()) r)) w'" if "admits rt cid sc ns runs w'" for w' rs
    using assms(2,3) transition_reaches
    by (intro agent.wp_own_call [OF that, where call = "TransitionRun rid scope Running status updatedAt rs"])
       (fastforce simp: keeps_transcript_def agreed_def)+
  show ?thesis
    unfolding ensureRunStatus_def
    by (auto intro!: agent.wp_read [OF assms(1)] call assms(2) split: option.split)
       (rule assms(3), assumption, assumption, simp)+
qed

lemma ensureMessage_admits:
  assumes "admits rt cid scope ns runs w"
    and "\<And>e w'. admits rt cid scope ns runs w' \<Longrightarrow> Q (Inl e) w'"
    and "\<And>w'. admits rt cid scope (insert n ns) runs w' \<Longrightarrow> Q (Inr ()) w'"
  shows "wp (ensureMessage rt cid scope n) Q w"
  unfolding ensureMessage_def
  by (auto intro!: agent.wp_read [OF assms(1)] agent.wp_read wp_append assms(2,3) admits_insert split: option.split sum.split)
     (blast intro: stored_found)+

lemma reachable_admits:
  "\<lbrakk>\<forall>call \<in> set calls. admissible call; \<forall>batch \<in> set others. \<forall>call \<in> set batch. keeps_transcript cid call\<rbrakk> \<Longrightarrow>
   admits rt cid scope {} {} \<lparr>aw_store = history calls, aw_others = others\<rparr>"
  by (simp add: holds_def calm_def agreed_def store_ok_history)

text \<open>
  C28: Terminal persistence. When \<open>complete\<close> returns without an error, under any interference that
  keeps the transcript, the run is completed and the assistant message stands in the transcript
  exactly once with its content; when \<open>terminate\<close> returns, the run stands at the requested status.
\<close>

theorem terminal_outcome_persisted:
  assumes "\<forall>call \<in> set calls. admissible call"
    and "\<forall>batch \<in> set others. \<forall>call \<in> set batch. keeps_transcript (ar_conversationId run) call"
  shows "(run_state (agent_complete rt run messageId content completedAt)
        \<lparr>aw_store = history calls, aw_others = others\<rparr> = (Inr (), w) \<longrightarrow>
      (\<exists>r. getRun (ar_protocolRunId run) (ar_principalScope run) (aw_store w) = Some r \<and> run_status r = Completed) \<and>
      (\<exists>m. filter (\<lambda>m. msg_id m = messageId) (messages_of (aw_store w) (ar_conversationId run)) = [m] \<and>
         msg_role m = RoleAssistant \<and> canonicalJson rt (msg_content m) = canonicalJson rt content)) \<and>
    (run_state (agent_terminate run status reason terminatedAt)
        \<lparr>aw_store = history calls, aw_others = others\<rparr> = (Inr (), w) \<longrightarrow>
      (\<exists>r. getRun (ar_protocolRunId run) (ar_principalScope run) (aw_store w) = Some r \<and> run_status r = status))"
proof (intro conjI impI)
  let ?w = "\<lparr>aw_store = history calls, aw_others = others\<rparr>" and ?cid = "ar_conversationId run"
  let ?rid = "ar_protocolRunId run" and ?scope = "ar_principalScope run"
  let ?n = "\<lparr>in_id = messageId, in_role = RoleAssistant, in_content = content, in_state = None,
    in_invocationId = Some (ar_invocationId run), in_createdAt = completedAt\<rparr>"
  have w: "admits rt ?cid ?scope {} {} ?w" by (rule reachable_admits [OF assms])
  {
    assume run: "run_state (agent_complete rt run messageId content completedAt) ?w = (Inr (), w)"
    have "wp (agent_complete rt run messageId content completedAt)
      (\<lambda>r w'. r = Inr () \<longrightarrow> admits rt ?cid ?scope {?n} {} w' \<and>
         (\<exists>r. getRun ?rid ?scope (aw_store w') = Some r \<and> run_status r = Completed)) ?w"
      unfolding agent_complete_def
      by (auto intro!: ensureMessage_admits [OF w] ensureRunStatus_admits split: sum.split)
    from wp_run [OF this run]
    have s: "store_ok (aw_store w)" "stored rt ?cid ?scope ?n (aw_store w)"
      and "\<exists>r. getRun ?rid ?scope (aw_store w) = Some r \<and> run_status r = Completed"
      by (auto simp: holds_def agreed_def)
    then show "\<exists>r. getRun ?rid ?scope (aw_store w) = Some r \<and> run_status r = Completed" by simp
    obtain m where "filter (\<lambda>m. msg_id m = messageId) (messages_of (aw_store w) ?cid) = [m]"
      using stored_once [OF s] by (auto simp: length_Suc_conv)
    moreover from stored_message [OF s(2)] obtain m' where m': "m' \<in> set (messages_of (aw_store w) ?cid)"
      "msg_id m' = messageId" "msg_role m' = RoleAssistant" "canonicalJson rt (msg_content m') = canonicalJson rt content"
      by auto
    moreover from m'(1,2) have "m' \<in> set (filter (\<lambda>m. msg_id m = messageId) (messages_of (aw_store w) ?cid))"
      by simp
    ultimately show "\<exists>m. filter (\<lambda>m. msg_id m = messageId) (messages_of (aw_store w) ?cid) = [m] \<and>
        msg_role m = RoleAssistant \<and> canonicalJson rt (msg_content m) = canonicalJson rt content"
      by auto
  }
  assume run: "run_state (agent_terminate run status reason terminatedAt) ?w = (Inr (), w)"
  have "wp (agent_terminate run status reason terminatedAt)
      (\<lambda>r w'. r = Inr () \<longrightarrow> (\<exists>r. getRun ?rid ?scope (aw_store w') = Some r \<and> run_status r = status)) ?w"
    unfolding agent_terminate_def by (auto intro!: ensureRunStatus_admits [OF w])
  from wp_run [OF this run] show "\<exists>r. getRun ?rid ?scope (aw_store w) = Some r \<and> run_status r = status"
    by simp
qed

definition running_calls :: "conversation_call list" where
  "running_calls = take 4 sample_calls"

definition running_run :: ApplicationAIAgentPersistenceRun where
  "running_run = \<lparr>ar_conversationId = ''c'', ar_protocolRunId = ''r'', ar_principalScope = ''p'', ar_invocationId = ''v'',
     ar_frontier = 1\<rparr>"

lemma running_outcomes:
  "fst (run_state (agent_complete sample_runtime running_run ''z'' (JString ''hi'') ''6'') (alone (history running_calls))) = Inr ()"
  "fst (run_state (agent_terminate running_run Cancelled ''stop'' ''6'') (alone (history running_calls))) = Inr ()"
  by code_simp+

theorem terminal_outcome_persisted_witness:
  "\<exists>w w'. run_state (agent_complete sample_runtime running_run ''z'' (JString ''hi'') ''6'')
       \<lparr>aw_store = history running_calls, aw_others = []\<rparr> = (Inr (), w) \<and>
     (\<exists>r. getRun ''r'' ''p'' (aw_store w) = Some r \<and> run_status r = Completed) \<and>
     (\<exists>m. filter (\<lambda>m. msg_id m = ''z'') (messages_of (aw_store w) ''c'') = [m] \<and> msg_role m = RoleAssistant) \<and>
     run_state (agent_terminate running_run Cancelled ''stop'' ''6'')
       \<lparr>aw_store = history running_calls, aw_others = []\<rparr> = (Inr (), w') \<and>
     (\<exists>r. getRun ''r'' ''p'' (aw_store w') = Some r \<and> run_status r = Cancelled)"
proof -
  obtain w w' where w: "run_state (agent_complete sample_runtime running_run ''z'' (JString ''hi'') ''6'') (alone (history running_calls)) = (Inr (), w)"
      "run_state (agent_terminate running_run Cancelled ''stop'' ''6'') (alone (history running_calls)) = (Inr (), w')"
    using running_outcomes by (metis prod.collapse)
  have calls: "\<forall>call \<in> set running_calls. admissible call"
    using sample_admissible unfolding running_calls_def by (meson in_set_takeD)
  note outcome = terminal_outcome_persisted [OF calls, of "[]" running_run sample_runtime "''z''" "JString ''hi''" "''6''"]
  have "(\<exists>r. getRun ''r'' ''p'' (aw_store w) = Some r \<and> run_status r = Completed) \<and>
      (\<exists>m. filter (\<lambda>m. msg_id m = ''z'') (messages_of (aw_store w) ''c'') = [m] \<and> msg_role m = RoleAssistant)"
    using outcome [of w Cancelled "''stop''" "''6''"] w(1) by (auto simp: running_run_def)
  moreover have "\<exists>r. getRun ''r'' ''p'' (aw_store w') = Some r \<and> run_status r = Cancelled"
    using outcome [of w' Cancelled "''stop''" "''6''"] w(2) by (auto simp: running_run_def)
  ultimately show ?thesis using w by blast
qed

interpretation store: stable_assertion admissible store_ok
  by unfold_locales (rule store_ok_attempt)

lemma agent_append_wp:
  assumes "holds admissible store_ok w"
  shows "wp (agent_append rt run event createdAt)
    (\<lambda>r w'. \<forall>run'. r = Inr run' \<longrightarrow> run' = run\<lparr>ar_frontier := ar_frontier run + 1\<rparr> \<and>
       (\<exists>e. getRunEvent (ar_protocolRunId run) (ar_principalScope run) (ar_frontier run + 1) (aw_store w') = Some e \<and>
          obj_get event ''type'' = JString (ev_type e) \<and>
          canonicalJson rt (JObject (ev_payload e)) = canonicalJson rt (JObject event))) w"
proof (cases "\<exists>t. obj_get event ''type'' = JString t \<and> trim t \<noteq> []")
  case True
  then obtain t where t: "obj_get event ''type'' = JString t" "requiredString t ''agent stream event.type'' = Inr t"
    by (auto simp: requiredString_def)
  let ?rid = "ar_protocolRunId run" and ?scope = "ar_principalScope run" and ?n = "ar_frontier run"
  let ?e = "\<lparr>ev_runId = [], ev_sequence = 0, ev_type = t, ev_payload = event, ev_visibility = Browser, ev_createdAt = createdAt\<rparr>"
  have appended: "getRunEvent ?rid ?scope (?n + 1) s' = Some e \<and> ev_type e = t \<and> ev_payload e = event \<and> ev_sequence e = ?n + 1"
    if "appendRunEvent ?rid ?scope ?n ?e s = Inr (e, s')" "store_ok s" for s e s'
    using appended_event_found [OF that(2,1)] that(1) by (auto simp: appendRunEvent_ok)
  have found: "ev_sequence e = ?n + 1" if "getRunEvent ?rid ?scope (?n + 1) s = Some e" for s e
    using that by (auto simp: getRunEvent_def split: option.splits dest: find_SomeD)
  show ?thesis
    unfolding agent_append_def
    by (auto simp: t intro!: store.wp_read store.wp_own_call [OF assms, where call = "AppendRunEvent ?rid ?scope ?n ?e"]
        dest: appended split: sum.split option.splits if_splits)
       (drule found, simp)
next
  case False
  then show ?thesis
    unfolding agent_append_def by (auto simp: requiredString_def split: jsval.split)
qed

text \<open>
  Recorded events. When \<open>append\<close> returns without an error, under any interference, the frontier
  moved on by exactly one and the event stored there has the type and the canonical payload of the
  appended event, whether this call stored it or found it stored by an earlier attempt.
\<close>

theorem appended_event_is_recorded:
  assumes "\<forall>call \<in> set calls. admissible call" "\<forall>batch \<in> set others. \<forall>call \<in> set batch. admissible call"
    and "run_state (agent_append rt run event createdAt) \<lparr>aw_store = history calls, aw_others = others\<rparr> = (Inr run', w)"
  shows "run' = run\<lparr>ar_frontier := ar_frontier run + 1\<rparr> \<and>
    (\<exists>e. getRunEvent (ar_protocolRunId run) (ar_principalScope run) (ar_frontier run + 1) (aw_store w) = Some e \<and>
       obj_get event ''type'' = JString (ev_type e) \<and>
       canonicalJson rt (JObject (ev_payload e)) = canonicalJson rt (JObject event))"
proof -
  have "holds admissible store_ok \<lparr>aw_store = history calls, aw_others = others\<rparr>"
    using assms(1,2) by (simp add: holds_def calm_def store_ok_history)
  from wp_run [OF agent_append_wp [OF this] assms(3)] show ?thesis by simp
qed

theorem appended_event_is_recorded_witness:
  "\<exists>run' w. run_state (agent_append sample_runtime (sample_agent_run\<lparr>ar_protocolRunId := ''r'', ar_frontier := 1\<rparr>)
       [(''type'', JString ''text'')] ''7'') \<lparr>aw_store = history sample_calls, aw_others = []\<rparr> = (Inr run', w) \<and>
     ar_frontier run' = 2"
proof -
  let ?run = "sample_agent_run\<lparr>ar_protocolRunId := ''r'', ar_frontier := 1\<rparr>" and ?event = "[(''type'', JString ''text'')]"
  obtain run' w where "run_state (agent_append sample_runtime ?run ?event ''7'') (alone (history sample_calls)) = (Inr run', w)"
    by (simp add: agent_append_def run_state_bind sample_agent_run_def requiredString_def trim_def is_ws_def
        appendRunEvent_def scoped_run_def events_of_def sample_history Let_def)
  with appended_event_is_recorded [OF sample_admissible, of "[]" sample_runtime ?run ?event "''7''" run' w]
  show ?thesis by auto
qed

end
