(* ===== verification/Signal_Runtime.thy ===== *)
theory Signal_Runtime
  imports Js_Json
begin

text \<open>
  One-shot workflow signals, \<^verbatim>\<open>packages/applik8s/src/signal-runtime.ts\<close>: the in-memory signal store,
  the emitting runtime, the hydrated actions and the outbox relay. The operations that change signals run one after another (the
  store queues them), so each is one step on the store; the relay's reads and acknowledgements run
  between them. An operation returns the thrown error or its result, together with the next store.
  Parameters: \<open>digest\<close> is the hex SHA-256 of \<open>node:crypto\<close>, \<open>cmp\<close> is \<open>localeCompare\<close>, and the
  authorizers, finalizers, validators and publishers are the callbacks the options pass in.
\<close>

section \<open>Records\<close>

record ApplicationSignalActor =
  actor_id :: string
  actor_roles :: "string list option"
  actor_attributes :: "jsobject option"

record ApplicationSignalAuthorizationReceiptReference =
  receipt_id :: string

record signal_contract =
  sc_id :: string
  sc_name :: string
  sc_version :: string

datatype signal_access = Authorize "jsval list" | Grant jsval

record ApplicationSignalDefinition =
  def_contract :: signal_contract
  def_actions :: "string list"

record ApplicationSignalIssueRequest =
  iss_occurrenceKey :: string
  iss_definition :: ApplicationSignalDefinition
  iss_input :: jsval
  iss_issuedAt :: string
  iss_expiresAt :: string
  iss_target :: jsobject
  iss_access :: signal_access
  iss_issueReceipt :: ApplicationSignalAuthorizationReceiptReference

datatype signal_terminal =
    Resolved (res_action: string) (res_input: jsval) (res_actor: ApplicationSignalActor)
      (res_receipt: ApplicationSignalAuthorizationReceiptReference) (res_decidedAt: string)
  | Expired string

record ApplicationSignalStoredInstance =
  sig_id :: string
  sig_occurrenceKey :: string
  sig_contract :: signal_contract
  sig_input :: jsval
  sig_actions :: "string list"
  sig_issuedAt :: string
  sig_expiresAt :: string
  sig_target :: jsobject
  sig_access :: signal_access
  sig_issueReceipt :: ApplicationSignalAuthorizationReceiptReference
  sig_terminal :: "signal_terminal option"

record ApplicationSignalResolutionRequest =
  rq_id :: string
  rq_action :: string
  rq_input :: jsval
  rq_actor :: ApplicationSignalActor
  rq_receipt :: "ApplicationSignalAuthorizationReceiptReference option"
  rq_decidedAt :: string
  rq_idempotencyKey :: string

datatype signal_fact_kind = FactIssued | FactResolved | FactExpired

record ApplicationSignalOutboxFact =
  fact_id :: string
  fact_kind :: signal_fact_kind
  fact_signalId :: string
  fact_contractId :: string
  fact_payload :: jsval
  fact_recordedAt :: string

datatype signal_error =
    SignalError string
  | ApplicationSignalInputValidationError string
  | ApplicationSignalAuthorizationDeniedError

text \<open>What a finalizer is told: the terminal state without the action's input.\<close>

datatype terminal_notice =
    NoticeResolved string ApplicationSignalActor ApplicationSignalAuthorizationReceiptReference string
  | NoticeExpired string

type_synonym signal_issue_authorizer =
  "(ApplicationSignalIssueRequest \<Rightarrow> string \<Rightarrow>
     signal_error + ApplicationSignalAuthorizationReceiptReference option) option"
type_synonym signal_resolution_authorizer =
  "(ApplicationSignalResolutionRequest \<Rightarrow> ApplicationSignalStoredInstance \<Rightarrow>
     signal_error + ApplicationSignalAuthorizationReceiptReference) option"
type_synonym signal_finalizer =
  "(ApplicationSignalStoredInstance \<Rightarrow> terminal_notice \<Rightarrow> signal_error option) option"

section \<open>Access and liveness of a signal\<close>

definition applicationSignalSelectorAllows :: "jsval \<Rightarrow> ApplicationSignalActor \<Rightarrow> bool" where
  "applicationSignalSelectorAllows selector actor =
     (case selector of
        JObject value \<Rightarrow>
          (case obj_get value ''id'' of
             JString k \<Rightarrow> k = actor_id actor
           | _ \<Rightarrow>
               (case (case obj_get value ''identity'' of JObject identity \<Rightarrow> obj_get identity ''id'' | _ \<Rightarrow> JUndefined) of
                  JString k \<Rightarrow> k = actor_id actor
                | _ \<Rightarrow>
                    (case obj_get value ''role'' of
                       JString role \<Rightarrow> (case actor_roles actor of None \<Rightarrow> False | Some roles \<Rightarrow> role \<in> set roles)
                     | _ \<Rightarrow> False)))
      | _ \<Rightarrow> False)"

definition applicationSignalAccessAllows :: "ApplicationSignalStoredInstance \<Rightarrow> ApplicationSignalActor \<Rightarrow> bool" where
  "applicationSignalAccessAllows signal actor =
     (case sig_access signal of
        Grant _ \<Rightarrow> True
      | Authorize selectors \<Rightarrow> list_ex (\<lambda>selector. applicationSignalSelectorAllows selector actor) selectors)"

definition applicationSignalIsActionable :: "(string \<Rightarrow> int option) \<Rightarrow> ApplicationSignalStoredInstance \<Rightarrow> int \<Rightarrow> bool" where
  "applicationSignalIsActionable date signal now =
     (sig_terminal signal = None \<and>
      (case date (sig_expiresAt signal) of None \<Rightarrow> False | Some expiresAt \<Rightarrow> now < expiresAt))"

section \<open>Identifiers, durations and sizes\<close>

definition stableSignalId :: "(string \<Rightarrow> string) \<Rightarrow> string list \<Rightarrow> string" where
  "stableSignalId digest parts = digest (js_join [CHR 0x00] parts)"

definition duration_units :: "(string \<times> int) list" where
  "duration_units = [(''ms'', 1), (''s'', 1000), (''m'', 60000), (''h'', 3600000), (''d'', 86400000)]"

text \<open>The match of \<open>/^([1-9][0-9]*)(ms|s|m|h|d)$/\<close>.\<close>

definition match_duration :: "string \<Rightarrow> (string \<times> string) option" where
  "match_duration s =
     (let digits = takeWhile is_digit s; unit_text = dropWhile is_digit s
      in if digits = [] \<or> hd digits = CHR ''0'' \<or> unit_text \<notin> fst ` set duration_units then None
         else Some (digits, unit_text))"

definition applicationSignalDurationMs :: "string \<Rightarrow> signal_error + int" where
  "applicationSignalDurationMs value =
     (case match_duration (trim value) of
        None \<Rightarrow> Inl (SignalError (''Signal expiresIn '' @ json_quote value @
          '' must be a positive bounded duration such as 10m or 24h.''))
      | Some (digits, unit_text) \<Rightarrow>
          (let duration = int (nat_of_digits digits) * the (map_of duration_units unit_text)
           in if \<bar>duration\<bar> > MAX_SAFE_INTEGER \<or> duration > 365 * 86400000
              then Inl (SignalError ''Signal expiresIn must not exceed 365 days.'')
              else Inr duration))"

definition assertSignalBatchSize :: "js_number \<Rightarrow> signal_error + nat" where
  "assertSignalBatchSize limit =
     (case limit of
        NInt i \<Rightarrow>
          (if \<not> isSafeInteger limit \<or> i < 1 \<or> 1000 < i
           then Inl (SignalError ''Signal batch size must be between 1 and 1000.'')
           else Inr (nat i))
      | _ \<Rightarrow> Inl (SignalError ''Signal batch size must be between 1 and 1000.''))"

section \<open>The store\<close>

record signal_store =
  sg_byId :: "(string \<times> ApplicationSignalStoredInstance) list"
  sg_byOccurrence :: "(string \<times> string) list"
  sg_resolutionKeys :: "(string \<times> string) list"
  sg_outbox :: "(string \<times> ApplicationSignalOutboxFact) list"

definition createMemoryApplicationSignalStore :: signal_store where
  "createMemoryApplicationSignalStore =
     \<lparr>sg_byId = [], sg_byOccurrence = [], sg_resolutionKeys = [], sg_outbox = []\<rparr>"

definition contract_value :: "signal_contract \<Rightarrow> jsval" where
  "contract_value c =
     JObject [(''id'', JString (sc_id c)), (''name'', JString (sc_name c)), (''version'', JString (sc_version c))]"

definition signalIssuancePayload :: "ApplicationSignalStoredInstance \<Rightarrow> jsval" where
  "signalIssuancePayload signal =
     JObject [(''id'', JString (sig_id signal)), (''input'', sig_input signal),
       (''signal'', JObject [(''$type'', JString ''applik8s.signal/v1''),
          (''contract'', contract_value (sig_contract signal)),
          (''issuance'', JObject [(''id'', JString (sig_id signal))]),
          (''expiresAt'', JString (sig_expiresAt signal))]),
       (''issuedAt'', JString (sig_issuedAt signal)), (''expiresAt'', JString (sig_expiresAt signal))]"

definition put_fact :: "ApplicationSignalOutboxFact \<Rightarrow> signal_store \<Rightarrow> signal_store" where
  "put_fact fct s = s\<lparr>sg_outbox := AList.update (fact_id fct) fct (sg_outbox s)\<rparr>"

definition put_signal :: "string \<Rightarrow> ApplicationSignalStoredInstance \<Rightarrow> signal_store \<Rightarrow> signal_store" where
  "put_signal k signal s = s\<lparr>sg_byId := AList.update k signal (sg_byId s)\<rparr>"

definition expired_fact :: "(string \<Rightarrow> string) \<Rightarrow> string \<Rightarrow> signal_contract \<Rightarrow> string \<Rightarrow> ApplicationSignalOutboxFact" where
  "expired_fact digest k contract expiredAt =
     \<lparr>fact_id = stableSignalId digest [k, ''expired''], fact_kind = FactExpired, fact_signalId = k,
      fact_contractId = sc_id contract,
      fact_payload = JObject [(''signalId'', JString k), (''expiredAt'', JString expiredAt)],
      fact_recordedAt = expiredAt\<rparr>"

definition expire_signal ::
  "(string \<Rightarrow> string) \<Rightarrow> signal_finalizer \<Rightarrow> string \<Rightarrow> string \<Rightarrow> signal_store \<Rightarrow>
   (signal_error + ApplicationSignalStoredInstance \<times> bool) \<times> signal_store" where
  "expire_signal digest finalize k expiredAt s =
     (case map_of (sg_byId s) k of
        None \<Rightarrow> (Inl (SignalError (''Signal '' @ k @ '' does not exist.'')), s)
      | Some current \<Rightarrow>
          (if sig_terminal current \<noteq> None then (Inr (current, True), s)
           else (case Option.bind finalize (\<lambda>f. f current (NoticeExpired expiredAt)) of
                   Some e \<Rightarrow> (Inl e, s)
                 | None \<Rightarrow>
                     (let next = current\<lparr>sig_terminal := Some (Expired expiredAt)\<rparr>
                      in (Inr (next, False),
                          put_fact (expired_fact digest k (sig_contract current) expiredAt) (put_signal k next s))))))"

definition issued_instance ::
  "ApplicationSignalIssueRequest \<Rightarrow> string \<Rightarrow> ApplicationSignalAuthorizationReceiptReference \<Rightarrow>
   ApplicationSignalStoredInstance" where
  "issued_instance request k receipt =
     \<lparr>sig_id = k, sig_occurrenceKey = iss_occurrenceKey request, sig_contract = def_contract (iss_definition request),
      sig_input = iss_input request, sig_actions = js_sort compareStrings (def_actions (iss_definition request)),
      sig_issuedAt = iss_issuedAt request, sig_expiresAt = iss_expiresAt request, sig_target = iss_target request,
      sig_access = iss_access request, sig_issueReceipt = receipt, sig_terminal = None\<rparr>"

definition issued_fact :: "(string \<Rightarrow> string) \<Rightarrow> ApplicationSignalStoredInstance \<Rightarrow> ApplicationSignalOutboxFact" where
  "issued_fact digest signal =
     \<lparr>fact_id = stableSignalId digest [sig_id signal, ''issued''], fact_kind = FactIssued, fact_signalId = sig_id signal,
      fact_contractId = sc_id (sig_contract signal), fact_payload = signalIssuancePayload signal,
      fact_recordedAt = sig_issuedAt signal\<rparr>"

definition issue ::
  "(string \<Rightarrow> string) \<Rightarrow> signal_issue_authorizer \<Rightarrow> ApplicationSignalIssueRequest \<Rightarrow> signal_store \<Rightarrow>
   (signal_error + ApplicationSignalStoredInstance \<times> bool) \<times> signal_store" where
  "issue digest authorize request s =
     (case truthy_text (map_of (sg_byOccurrence s) (iss_occurrenceKey request)) of
        Some previousId \<Rightarrow>
          (case map_of (sg_byId s) previousId of
             None \<Rightarrow> (Inl (SignalError (''Signal occurrence '' @ iss_occurrenceKey request @ '' is corrupt.'')), s)
           | Some previous \<Rightarrow> (Inr (previous, True), s))
      | None \<Rightarrow>
          (let k = stableSignalId digest [''signal'', iss_occurrenceKey request]
           in case (case authorize of None \<Rightarrow> Inr None | Some f \<Rightarrow> f request k) of
                Inl e \<Rightarrow> (Inl e, s)
              | Inr authorizedReceipt \<Rightarrow>
                  (let signal = issued_instance request k
                         (case authorizedReceipt of None \<Rightarrow> iss_issueReceipt request | Some receipt \<Rightarrow> receipt);
                       s' = s\<lparr>sg_byOccurrence := AList.update (iss_occurrenceKey request) k (sg_byOccurrence s)\<rparr>
                   in (Inr (signal, False), put_fact (issued_fact digest signal) (put_signal k signal s')))))"

definition read_signal :: "string \<Rightarrow> signal_store \<Rightarrow> ApplicationSignalStoredInstance option" where
  "read_signal k s = map_of (sg_byId s) k"

datatype signal_replay = ReplayNone | ReplayIdempotent | ReplayTerminal

definition resolution_key :: "string \<Rightarrow> string \<Rightarrow> string" where
  "resolution_key k idempotencyKey = k @ [CHR 0x00] @ idempotencyKey"

definition resolved_fact ::
  "(string \<Rightarrow> string) \<Rightarrow> string \<Rightarrow> signal_contract \<Rightarrow> string \<Rightarrow> string \<Rightarrow> ApplicationSignalOutboxFact" where
  "resolved_fact digest k contract action decidedAt =
     \<lparr>fact_id = stableSignalId digest [k, ''resolved''], fact_kind = FactResolved, fact_signalId = k,
      fact_contractId = sc_id contract,
      fact_payload = JObject [(''signalId'', JString k), (''action'', JString action), (''decidedAt'', JString decidedAt)],
      fact_recordedAt = decidedAt\<rparr>"

definition resolve ::
  "(string \<Rightarrow> string) \<Rightarrow> signal_resolution_authorizer \<Rightarrow> signal_finalizer \<Rightarrow> ApplicationSignalResolutionRequest \<Rightarrow>
   signal_store \<Rightarrow> (signal_error + ApplicationSignalStoredInstance \<times> signal_replay) \<times> signal_store" where
  "resolve digest authorize finalize request s =
     (case map_of (sg_byId s) (rq_id request) of
        None \<Rightarrow> (Inl (SignalError (''Signal '' @ rq_id request @ '' does not exist.'')), s)
      | Some current \<Rightarrow>
          (case truthy_text (map_of (sg_resolutionKeys s) (resolution_key (rq_id request) (rq_idempotencyKey request))) of
             Some previousResolution \<Rightarrow>
               (Inr (current, if previousResolution = rq_action request then ReplayIdempotent else ReplayTerminal), s)
           | None \<Rightarrow>
               (if sig_terminal current \<noteq> None then (Inr (current, ReplayTerminal), s)
                else if rq_action request \<notin> set (sig_actions current)
                then (Inl (SignalError (''Signal '' @ rq_id request @ '' does not declare action '' @
                   rq_action request @ ''.'')), s)
                else (case (case authorize of Some f \<Rightarrow> map_sum id Some (f request current)
                            | None \<Rightarrow> Inr (rq_receipt request)) of
                        Inl e \<Rightarrow> (Inl e, s)
                      | Inr None \<Rightarrow> (Inl (SignalError (''Signal '' @ rq_id request @
                          '' resolution requires an authorization receipt.'')), s)
                      | Inr (Some receipt) \<Rightarrow>
                          (case Option.bind finalize (\<lambda>f. f current
                             (NoticeResolved (rq_action request) (rq_actor request) receipt (rq_decidedAt request))) of
                             Some e \<Rightarrow> (Inl e, s)
                           | None \<Rightarrow>
                               (let next = current\<lparr>sig_terminal := Some (Resolved (rq_action request)
                                      (rq_input request) (rq_actor request) receipt (rq_decidedAt request))\<rparr>;
                                    s' = put_signal (rq_id request) next s;
                                    s'' = s'\<lparr>sg_resolutionKeys := AList.update
                                      (resolution_key (rq_id request) (rq_idempotencyKey request)) (rq_action request)
                                      (sg_resolutionKeys s')\<rparr>
                                in (Inr (next, ReplayNone), put_fact (resolved_fact digest (rq_id request) (sig_contract current)
                                       (rq_action request) (rq_decidedAt request)) s'')))))))"

text \<open>The signals \<open>expireDue\<close> picks: pending, past their expiry, oldest first, at most \<open>limit\<close>.\<close>

definition compareDue ::
  "(string \<Rightarrow> string \<Rightarrow> int) \<Rightarrow> ApplicationSignalStoredInstance \<Rightarrow> ApplicationSignalStoredInstance \<Rightarrow> int" where
  "compareDue cmp left right =
     cmp_or (cmp (sig_expiresAt left) (sig_expiresAt right)) (cmp (sig_id left) (sig_id right))"

definition due_signals ::
  "(string \<Rightarrow> string \<Rightarrow> int) \<Rightarrow> string \<Rightarrow> nat \<Rightarrow> signal_store \<Rightarrow> ApplicationSignalStoredInstance list" where
  "due_signals cmp now limit s =
     take limit (js_sort (compareDue cmp)
       (filter (\<lambda>signal. sig_terminal signal = None \<and> compareStrings (sig_expiresAt signal) now \<le> 0)
         (map snd (sg_byId s))))"

fun expire_each ::
  "(string \<Rightarrow> string) \<Rightarrow> signal_finalizer \<Rightarrow> string \<Rightarrow> string list \<Rightarrow> signal_store \<Rightarrow> signal_error option \<times> signal_store" where
  "expire_each digest finalize now [] s = (None, s)"
| "expire_each digest finalize now (k # ks) s =
     (case expire_signal digest finalize k now s of
        (Inl e, s') \<Rightarrow> (Some e, s')
      | (Inr _, s') \<Rightarrow> expire_each digest finalize now ks s')"

definition expireDue ::
  "(string \<Rightarrow> string) \<Rightarrow> (string \<Rightarrow> string \<Rightarrow> int) \<Rightarrow> signal_finalizer \<Rightarrow> string \<Rightarrow> js_number \<Rightarrow> signal_store \<Rightarrow>
   (signal_error + string list) \<times> signal_store" where
  "expireDue digest cmp finalize now limit s =
     (case assertSignalBatchSize limit of
        Inl e \<Rightarrow> (Inl e, s)
      | Inr n \<Rightarrow>
          (let due = map sig_id (due_signals cmp now n s)
           in case expire_each digest finalize now due s of
                (Some e, s') \<Rightarrow> (Inl e, s')
              | (None, s') \<Rightarrow> (Inr due, s')))"

definition pendingOutbox :: "js_number \<Rightarrow> signal_store \<Rightarrow> signal_error + ApplicationSignalOutboxFact list" where
  "pendingOutbox limit s =
     (case limit of
        NInt i \<Rightarrow>
          (if \<not> isSafeInteger limit \<or> i < 1
           then Inl (SignalError ''Signal outbox limit must be a positive safe integer.'')
           else Inr (take (nat i) (map snd (sg_outbox s))))
      | _ \<Rightarrow> Inl (SignalError ''Signal outbox limit must be a positive safe integer.''))"

definition acknowledgeOutbox :: "string list \<Rightarrow> signal_store \<Rightarrow> signal_store" where
  "acknowledgeOutbox ids s = s\<lparr>sg_outbox := fold (\<lambda>k. AList.delete k) ids (sg_outbox s)\<rparr>"

section \<open>Outcomes and references\<close>

record ApplicationSignalReference =
  rf_contract :: signal_contract
  rf_issuance :: string
  rf_expiresAt :: string

definition signalReference ::
  "ApplicationSignalDefinition \<Rightarrow> ApplicationSignalStoredInstance \<Rightarrow> ApplicationSignalReference" where
  "signalReference definition signal =
     \<lparr>rf_contract = def_contract definition, rf_issuance = sig_id signal, rf_expiresAt = sig_expiresAt signal\<rparr>"

datatype ApplicationSignalOutcome =
    OutcomeExpired ApplicationSignalReference string
  | OutcomeResolved string jsval ApplicationSignalActor ApplicationSignalAuthorizationReceiptReference string
      ApplicationSignalReference

definition signalOutcome ::
  "ApplicationSignalReference \<Rightarrow> ApplicationSignalStoredInstance \<Rightarrow> signal_error + ApplicationSignalOutcome" where
  "signalOutcome reference signal =
     (case sig_terminal signal of
        None \<Rightarrow> Inl (SignalError (''Signal '' @ sig_id signal @ '' is not terminal.''))
      | Some (Expired expiredAt) \<Rightarrow> Inr (OutcomeExpired reference expiredAt)
      | Some (Resolved action input actor receipt decidedAt) \<Rightarrow>
          Inr (OutcomeResolved action input actor receipt decidedAt reference))"

datatype terminal_class = ClassResolved | ClassExpired

datatype ApplicationSignalActionResult =
    ResultResolved ApplicationSignalOutcome ApplicationSignalAuthorizationReceiptReference
  | AlreadyResolved terminal_class string

definition signalActionResult ::
  "ApplicationSignalReference \<Rightarrow> string \<Rightarrow> ApplicationSignalStoredInstance \<Rightarrow> signal_replay \<Rightarrow>
   signal_error + ApplicationSignalActionResult" where
  "signalActionResult reference action signal replay =
     (case sig_terminal signal of
        Some (Resolved act input actor receipt decidedAt) \<Rightarrow>
          (if replay \<noteq> ReplayTerminal \<and> act = action
           then map_sum id (\<lambda>outcome. ResultResolved outcome receipt) (signalOutcome reference signal)
           else Inr (AlreadyResolved ClassResolved decidedAt))
      | Some (Expired expiredAt) \<Rightarrow> Inr (AlreadyResolved ClassExpired expiredAt)
      | None \<Rightarrow> Inl (SignalError (''Signal '' @ sig_id signal @ '' has no terminal outcome.'')))"

text \<open>The decision a workflow awaits, after the engine's wait returned.\<close>

definition signalDecision ::
  "ApplicationSignalDefinition \<Rightarrow> ApplicationSignalStoredInstance \<Rightarrow> signal_store \<Rightarrow>
   signal_error + ApplicationSignalOutcome" where
  "signalDecision definition signal s =
     (case read_signal (sig_id signal) s of
        None \<Rightarrow> Inl (SignalError (''Signal '' @ sig_id signal @ '' no longer exists.''))
      | Some current \<Rightarrow>
          (if sig_terminal current = None
           then Inl (SignalError (''Signal '' @ sig_id signal @ '' resumed without a canonical terminal state.''))
           else signalOutcome (signalReference definition signal) current))"

section \<open>Emitting and acting\<close>

record ApplicationSignalEmitOptions =
  em_input :: jsval
  em_expiresIn :: string
  em_target :: jsobject
  em_authorize :: "jsval list option"
  em_grantAccessTo :: "jsval option"

definition assertApplicationSignalAccessMode :: "string \<Rightarrow> ApplicationSignalEmitOptions \<Rightarrow> signal_error option" where
  "assertApplicationSignalAccessMode k options =
     (if (em_authorize options \<noteq> None) = (em_grantAccessTo options \<noteq> None)
      then Some (SignalError (''Signal '' @ k @ '' issuance must declare exactly one of authorize or grantAccessTo.''))
      else None)"

text \<open>
  \<open>emit\<close> at the instant \<open>now\<close>: \<open>toISOString\<close> prints an instant, \<open>validate\<close> is the schema check of the input,
  \<open>occurrence\<close> the text of the call occurrence (the history-backed one or the local counter).
\<close>

definition emit_request ::
  "(string \<Rightarrow> string) \<Rightarrow> (int \<Rightarrow> string) \<Rightarrow> (jsval \<Rightarrow> signal_error + jsval) \<Rightarrow> string \<Rightarrow> string \<Rightarrow> string \<Rightarrow> int \<Rightarrow>
   ApplicationSignalDefinition \<Rightarrow> ApplicationSignalEmitOptions \<Rightarrow> signal_error + ApplicationSignalIssueRequest" where
  "emit_request digest toISOString validate invocation revision occurrence now definition options =
     (let contract = sc_id (def_contract definition)
      in case assertApplicationSignalAccessMode contract options of
           Some e \<Rightarrow> Inl e
         | None \<Rightarrow>
             (case applicationSignalDurationMs (em_expiresIn options) of
                Inl e \<Rightarrow> Inl e
              | Inr duration \<Rightarrow>
                  (case validate (em_input options) of
                     Inl e \<Rightarrow> Inl e
                   | Inr input \<Rightarrow>
                       (let occurrenceKey = stableSignalId digest [invocation, revision, contract, occurrence]
                        in Inr \<lparr>iss_occurrenceKey = occurrenceKey, iss_definition = definition, iss_input = input,
                             iss_issuedAt = toISOString now, iss_expiresAt = toISOString (now + duration), iss_target = em_target options,
                             iss_access = (case em_grantAccessTo options of
                                Some subject \<Rightarrow> Grant subject
                              | None \<Rightarrow> Authorize (case em_authorize options of None \<Rightarrow> [] | Some selectors \<Rightarrow> selectors)),
                             iss_issueReceipt = \<lparr>receipt_id = ''signal-issue:'' @ occurrenceKey\<rparr>\<rparr>))))"

definition emit ::
  "(string \<Rightarrow> string) \<Rightarrow> (int \<Rightarrow> string) \<Rightarrow> (jsval \<Rightarrow> signal_error + jsval) \<Rightarrow> signal_issue_authorizer \<Rightarrow>
   string \<Rightarrow> string \<Rightarrow> string \<Rightarrow> int \<Rightarrow> ApplicationSignalDefinition \<Rightarrow> ApplicationSignalEmitOptions \<Rightarrow> signal_store \<Rightarrow>
   (signal_error + ApplicationSignalStoredInstance) \<times> signal_store" where
  "emit digest toISOString validate authorize invocation revision occurrence now definition options s =
     (case emit_request digest toISOString validate invocation revision occurrence now definition options of
        Inl e \<Rightarrow> (Inl e, s)
      | Inr request \<Rightarrow> apfst (map_sum id fst) (issue digest authorize request s))"

text \<open>
  A hydrated action: \<open>validate\<close> is the schema of the action (\<open>None\<close> where the definition lacks it),
  \<open>print\<close> is \<open>JSON.stringify\<close>. \<open>aborted\<close> is \<open>None\<close> while the caller's abort signal is not set, else
  the reason of the abort, if it has one.
\<close>

definition hydrated_action ::
  "signal_error option option \<Rightarrow> (string \<Rightarrow> string) \<Rightarrow> (jsval \<Rightarrow> string) \<Rightarrow> (string \<Rightarrow> (jsval \<Rightarrow> string + jsval) option) \<Rightarrow>
   signal_resolution_authorizer \<Rightarrow> signal_finalizer \<Rightarrow> ApplicationSignalDefinition \<Rightarrow> ApplicationSignalReference \<Rightarrow>
   ApplicationSignalActor \<Rightarrow> string \<Rightarrow> string \<Rightarrow> jsval \<Rightarrow> string option \<Rightarrow> signal_store \<Rightarrow>
   (signal_error + ApplicationSignalActionResult) \<times> signal_store" where
  "hydrated_action aborted digest print validate authorize finalize definition reference actor decidedAt action input
      idempotencyKey s =
     (case aborted of
        Some reason \<Rightarrow> (Inl (case reason of Some e \<Rightarrow> e | None \<Rightarrow> SignalError ''Signal action aborted.''), s)
      | None \<Rightarrow>
     (case read_signal (rf_issuance reference) s of
        None \<Rightarrow> (Inl (SignalError (''Signal '' @ rf_issuance reference @ '' no longer exists.'')), s)
      | Some signal \<Rightarrow>
          (case validate action of
             None \<Rightarrow> (Inl (SignalError (''Signal '' @ sc_id (def_contract definition) @ '' no longer declares action '' @
               action @ ''.'')), s)
           | Some schema \<Rightarrow>
               (case schema input of
                  Inl message \<Rightarrow> (Inl (ApplicationSignalInputValidationError message), s)
                | Inr validated \<Rightarrow>
                    (case resolve digest authorize finalize
                        \<lparr>rq_id = sig_id signal, rq_action = action, rq_input = validated, rq_actor = actor,
                         rq_receipt = None, rq_decidedAt = decidedAt,
                         rq_idempotencyKey = (case idempotencyKey of Some key \<Rightarrow> key
                           | None \<Rightarrow> stableSignalId digest [sig_id signal, action, actor_id actor, print validated])\<rparr> s of
                       (Inl e, s') \<Rightarrow> (Inl e, s')
                     | (Inr (instance, replay), s') \<Rightarrow> (signalActionResult reference action instance replay, s'))))))"

section \<open>The outbox relay\<close>

text \<open>
  The facts published in one round, and whether the loop ran to its end (no \<open>publish\<close> threw).
  \<open>aborted\<close> is the state of the abort signal when the loop reaches the fact.
\<close>

fun publish_facts ::
  "(ApplicationSignalOutboxFact \<Rightarrow> signal_error option) \<Rightarrow> (ApplicationSignalOutboxFact \<Rightarrow> bool) \<Rightarrow>
   ApplicationSignalOutboxFact list \<Rightarrow> ApplicationSignalOutboxFact list \<times> signal_error option" where
  "publish_facts publish aborted [] = ([], None)"
| "publish_facts publish aborted (f # fs) =
     (if aborted f then ([], None)
      else case publish f of
             Some e \<Rightarrow> ([], Some e)
           | None \<Rightarrow> apfst (\<lambda>published. f # published) (publish_facts publish aborted fs))"

text \<open>One round of the \<open>while\<close> loop: what was published, the caught error, and the next store.\<close>

definition relay_round ::
  "(string \<Rightarrow> string) \<Rightarrow> (string \<Rightarrow> string \<Rightarrow> int) \<Rightarrow> signal_finalizer \<Rightarrow>
   (ApplicationSignalOutboxFact \<Rightarrow> signal_error option) \<Rightarrow> (ApplicationSignalOutboxFact \<Rightarrow> bool) \<Rightarrow> string \<Rightarrow> js_number \<Rightarrow>
   signal_store \<Rightarrow> ApplicationSignalOutboxFact list \<times> signal_error option \<times> signal_store" where
  "relay_round digest cmp finalize publish aborted now batchSize s =
     (case expireDue digest cmp finalize now batchSize s of
        (Inl e, s') \<Rightarrow> ([], Some e, s')
      | (Inr _, s') \<Rightarrow>
          (case pendingOutbox batchSize s' of
             Inl e \<Rightarrow> ([], Some e, s')
           | Inr facts \<Rightarrow>
               (case publish_facts publish aborted facts of
                  (published, Some e) \<Rightarrow> (published, Some e, s')
                | (published, None) \<Rightarrow> (published, None, acknowledgeOutbox (map fact_id published) s'))))"

end
