(* ===== verification/Signal_Laws.thy ===== *)
theory Signal_Laws
  imports Signal_Runtime
begin

text \<open>
  Laws of the signal store. The abstract specification is a step relation with one rule per effect:
  a signal is issued, resolved, expired, or facts are published and acknowledged. Every operation of
  the store, and every round of the relay, is a sequence of these steps; the invariant is proved by
  rule induction on the steps. SHA-256 is assumed free of collisions only on the texts a history
  actually hashes.
\<close>

section \<open>Identifiers and facts\<close>

abbreviation signal_id_of :: "(string \<Rightarrow> string) \<Rightarrow> string \<Rightarrow> string" where
  "signal_id_of digest occ \<equiv> stableSignalId digest [''signal'', occ]"

fun kind_text :: "signal_fact_kind \<Rightarrow> string" where
  "kind_text FactIssued = ''issued''"
| "kind_text FactResolved = ''resolved''"
| "kind_text FactExpired = ''expired''"

text \<open>The texts hashed for the signals of the occurrence keys \<open>occs\<close> and for their facts.\<close>

definition hashed_texts :: "(string \<Rightarrow> string) \<Rightarrow> string set \<Rightarrow> string set" where
  "hashed_texts digest occs =
     (\<lambda>occ. js_join [CHR 0x00] [''signal'', occ]) ` occs \<union>
     (\<lambda>(occ, kind). js_join [CHR 0x00] [signal_id_of digest occ, kind_text kind]) ` (occs \<times> UNIV)"

definition collision_free :: "(string \<Rightarrow> string) \<Rightarrow> string set \<Rightarrow> bool" where
  "collision_free digest occs \<longleftrightarrow>
     inj_on digest (hashed_texts digest occs) \<and>
     (\<forall>t \<in> hashed_texts digest occs. digest t \<noteq> [] \<and> CHR 0x00 \<notin> set (digest t))"

lemma signal_id_inj:
  "\<lbrakk>collision_free digest occs; o1 \<in> occs; o2 \<in> occs\<rbrakk> \<Longrightarrow> signal_id_of digest o1 = signal_id_of digest o2 \<longleftrightarrow> o1 = o2"
  unfolding collision_free_def stableSignalId_def hashed_texts_def
  by (auto dest: inj_onD)

lemma signal_id_text:
  "\<lbrakk>collision_free digest occs; occ \<in> occs\<rbrakk> \<Longrightarrow>
   signal_id_of digest occ \<noteq> [] \<and> CHR 0x00 \<notin> set (signal_id_of digest occ)"
  unfolding collision_free_def stableSignalId_def hashed_texts_def by auto

lemma split_at_nul: "\<lbrakk>a @ c # b = a' @ c # b'; c \<notin> set a; c \<notin> set a'\<rbrakk> \<Longrightarrow> a = a' \<and> b = b'"
  by (induction a arbitrary: a') (auto simp: Cons_eq_append_conv append_eq_Cons_conv)

lemma kind_text_inj: "kind_text a = kind_text b \<longleftrightarrow> a = b"
  by (cases a; cases b) auto

lemma fact_id_inj:
  assumes "collision_free digest occs" "o1 \<in> occs" "o2 \<in> occs"
    and "stableSignalId digest [signal_id_of digest o1, kind_text k1] = stableSignalId digest [signal_id_of digest o2, kind_text k2]"
  shows "o1 = o2 \<and> k1 = k2"
proof -
  let ?text = "\<lambda>occ kind. js_join [CHR 0x00] [signal_id_of digest occ, kind_text kind]"
  have hashed: "?text occ kind \<in> hashed_texts digest occs" if "occ \<in> occs" for occ kind
    unfolding hashed_texts_def using that by (intro UnI2 image_eqI [where x = "(occ, kind)"]) simp_all
  have inj: "inj_on digest (hashed_texts digest occs)" using assms(1) by (simp add: collision_free_def)
  have "digest (?text o1 k1) = digest (?text o2 k2)"
    using assms(4) by (simp only: stableSignalId_def)
  from inj_onD [OF inj this hashed [OF assms(2)] hashed [OF assms(3)]]
  have "signal_id_of digest o1 @ CHR 0x00 # kind_text k1 = signal_id_of digest o2 @ CHR 0x00 # kind_text k2"
    by simp
  from split_at_nul [OF this] have "signal_id_of digest o1 = signal_id_of digest o2 \<and> kind_text k1 = kind_text k2"
    using signal_id_text [OF assms(1,2)] signal_id_text [OF assms(1,3)] by simp
  then show ?thesis using signal_id_inj [OF assms(1-3)] by (simp add: kind_text_inj)
qed

definition facts_of :: "(string \<Rightarrow> string) \<Rightarrow> ApplicationSignalStoredInstance \<Rightarrow> ApplicationSignalOutboxFact list" where
  "facts_of digest signal =
     issued_fact digest signal #
     (case sig_terminal signal of
        None \<Rightarrow> []
      | Some (Resolved action input actor receipt decidedAt) \<Rightarrow>
          [resolved_fact digest (sig_id signal) (sig_contract signal) action decidedAt]
      | Some (Expired expiredAt) \<Rightarrow> [expired_fact digest (sig_id signal) (sig_contract signal) expiredAt])"

lemma facts_of_member:
  "f \<in> set (facts_of digest signal) \<Longrightarrow>
   fact_signalId f = sig_id signal \<and> fact_id f = stableSignalId digest [sig_id signal, kind_text (fact_kind f)]"
  by (cases "sig_terminal signal"; cases "the (sig_terminal signal)")
     (auto simp: facts_of_def issued_fact_def resolved_fact_def expired_fact_def)

lemma facts_of_kind:
  "\<lbrakk>f \<in> set (facts_of digest signal); g \<in> set (facts_of digest signal); fact_kind f = fact_kind g\<rbrakk> \<Longrightarrow> f = g"
  by (cases "sig_terminal signal"; cases "the (sig_terminal signal)")
     (auto simp: facts_of_def issued_fact_def resolved_fact_def expired_fact_def)

lemma facts_of_terminal:
  assumes "sig_terminal signal = None"
  shows "facts_of digest signal = [issued_fact digest signal]"
    and "set (facts_of digest signal) \<subseteq> set (facts_of digest (signal\<lparr>sig_terminal := t\<rparr>))"
  using assms by (auto simp: facts_of_def issued_fact_def signalIssuancePayload_def)

section \<open>Steps\<close>

type_synonym signal_world = "signal_store \<times> ApplicationSignalOutboxFact list"

inductive signal_step :: "(string \<Rightarrow> string) \<Rightarrow> string set \<Rightarrow> signal_world \<Rightarrow> signal_world \<Rightarrow> bool"
  for digest :: "string \<Rightarrow> string" and occs :: "string set" where
  issued: "\<lbrakk>iss_occurrenceKey request \<in> occs; truthy_text (map_of (sg_byOccurrence s) (iss_occurrenceKey request)) = None;
      k = signal_id_of digest (iss_occurrenceKey request); signal = issued_instance request k receipt\<rbrakk> \<Longrightarrow>
    signal_step digest occs (s, ps)
      (put_fact (issued_fact digest signal) (put_signal k signal
        (s\<lparr>sg_byOccurrence := AList.update (iss_occurrenceKey request) k (sg_byOccurrence s)\<rparr>)), ps)"
| resolved: "\<lbrakk>map_of (sg_byId s) k = Some current; sig_terminal current = None; action \<in> set (sig_actions current);
      next = current\<lparr>sig_terminal := Some (Resolved action input actor receipt decidedAt)\<rparr>\<rbrakk> \<Longrightarrow>
    signal_step digest occs (s, ps)
      (put_fact (resolved_fact digest k (sig_contract current) action decidedAt) ((put_signal k next s)
        \<lparr>sg_resolutionKeys := AList.update (resolution_key k key) action (sg_resolutionKeys (put_signal k next s))\<rparr>), ps)"
| expired: "\<lbrakk>map_of (sg_byId s) k = Some current; sig_terminal current = None;
      next = current\<lparr>sig_terminal := Some (Expired expiredAt)\<rparr>\<rbrakk> \<Longrightarrow>
    signal_step digest occs (s, ps)
      (put_fact (expired_fact digest k (sig_contract current) expiredAt) (put_signal k next s), ps)"
| published: "set fs \<subseteq> snd ` set (sg_outbox s) \<Longrightarrow> signal_step digest occs (s, ps) (s, ps @ fs)"
| acknowledged: "set fs \<subseteq> snd ` set (sg_outbox s) \<Longrightarrow>
    signal_step digest occs (s, ps) (acknowledgeOutbox (map fact_id fs) s, ps @ fs)"

section \<open>Operations refine steps\<close>

abbreviation steps :: "(string \<Rightarrow> string) \<Rightarrow> string set \<Rightarrow> signal_world \<Rightarrow> signal_world \<Rightarrow> bool" where
  "steps digest occs \<equiv> (signal_step digest occs)\<^sup>*\<^sup>*"

lemma issue_steps:
  "iss_occurrenceKey request \<in> occs \<Longrightarrow> steps digest occs (s, ps) (snd (issue digest authorize request s), ps)"
  by (auto simp: issue_def Let_def intro!: r_into_rtranclp issued split: option.split sum.split)

lemma resolve_steps: "steps digest occs (s, ps) (snd (resolve digest authorize finalize request s), ps)"
  by (auto simp: resolve_def Let_def intro!: r_into_rtranclp resolved split: option.split sum.split)

lemma expire_signal_steps: "steps digest occs (s, ps) (snd (expire_signal digest finalize k expiredAt s), ps)"
  by (auto simp: expire_signal_def Let_def intro!: r_into_rtranclp expired split: option.split sum.split)

lemma expire_each_steps: "steps digest occs (s, ps) (snd (expire_each digest finalize now ks s), ps)"
proof (induction ks arbitrary: s)
  case (Cons k ks)
  show ?case
    using expire_signal_steps [of digest occs s ps finalize k now] Cons.IH
    by (auto split: prod.split sum.split intro: rtranclp_trans)
qed simp

lemma expireDue_steps: "steps digest occs (s, ps) (snd (expireDue digest cmp finalize now limit s), ps)"
  using expire_each_steps
  by (auto simp: expireDue_def Let_def split: sum.split prod.split option.split) (metis snd_conv)+

lemma publish_facts_subset: "set (fst (publish_facts publish aborted fs)) \<subseteq> set fs"
  by (induction fs) (auto split: option.splits)

lemma pendingOutbox_subset: "pendingOutbox limit s = Inr fs \<Longrightarrow> set fs \<subseteq> snd ` set (sg_outbox s)"
  by (auto simp: pendingOutbox_def split: js_number.splits if_splits dest: in_set_takeD)

lemma relay_round_steps:
  "case relay_round digest cmp finalize publish aborted now batch s of
     (published, err, s') \<Rightarrow> steps digest occs (s, ps) (s', ps @ published)"
proof -
  obtain r s1 where due: "expireDue digest cmp finalize now batch s = (r, s1)" by fastforce
  have first: "steps digest occs (s, ps) (s1, ps)"
    using expireDue_steps [of digest occs s ps cmp finalize now batch] by (simp add: due)
  show ?thesis
  proof (cases r)
    case (Inr ids)
    show ?thesis
    proof (cases "pendingOutbox batch s1")
      case (Inr fs)
      have "set (fst (publish_facts publish aborted fs)) \<subseteq> snd ` set (sg_outbox s1)"
        using publish_facts_subset pendingOutbox_subset [OF Inr] by blast
      then show ?thesis
        using Inr \<open>r = _\<close>
        by (auto simp: relay_round_def due split: prod.splits option.splits
            intro!: rtranclp.rtrancl_into_rtrancl [OF first] published acknowledged)
    qed (use first Inr in \<open>simp add: relay_round_def due\<close>)
  qed (use first in \<open>simp add: relay_round_def due\<close>)
qed

section \<open>The invariant\<close>

lemma put_simps [simp]:
  "map_of (sg_byId (put_signal k v s)) = (map_of (sg_byId s))(k \<mapsto> v)"
  "sg_byOccurrence (put_signal k v s) = sg_byOccurrence s"
  "sg_resolutionKeys (put_signal k v s) = sg_resolutionKeys s"
  "sg_outbox (put_signal k v s) = sg_outbox s"
  "sg_byId (put_fact f s) = sg_byId s"
  "sg_byOccurrence (put_fact f s) = sg_byOccurrence s"
  "sg_resolutionKeys (put_fact f s) = sg_resolutionKeys s"
  "map_of (sg_outbox (put_fact f s)) = (map_of (sg_outbox s))(fact_id f \<mapsto> f)"
  by (simp_all add: put_signal_def put_fact_def update_conv')

lemma acknowledge_simps [simp]:
  "sg_byId (acknowledgeOutbox ks s) = sg_byId s"
  "sg_byOccurrence (acknowledgeOutbox ks s) = sg_byOccurrence s"
  "sg_resolutionKeys (acknowledgeOutbox ks s) = sg_resolutionKeys s"
  by (simp_all add: acknowledgeOutbox_def)

lemma map_of_fold_delete:
  "map_of (fold (\<lambda>k. AList.delete k) ks al) j = (if j \<in> set ks then None else map_of al j)"
  by (induction ks arbitrary: al) (auto simp: delete_conv')

definition signals_linked :: "(string \<Rightarrow> string) \<Rightarrow> string set \<Rightarrow> signal_store \<Rightarrow> bool" where
  "signals_linked digest occs s \<longleftrightarrow>
     (\<forall>k signal. map_of (sg_byId s) k = Some signal \<longrightarrow>
        sig_id signal = k \<and> sig_occurrenceKey signal \<in> occs \<and>
        k = signal_id_of digest (sig_occurrenceKey signal) \<and>
        map_of (sg_byOccurrence s) (sig_occurrenceKey signal) = Some k) \<and>
     (\<forall>occ k. map_of (sg_byOccurrence s) occ = Some k \<longrightarrow>
        (\<exists>signal. map_of (sg_byId s) k = Some signal \<and> sig_occurrenceKey signal = occ))"

definition keys_linked :: "signal_store \<Rightarrow> bool" where
  "keys_linked s \<longleftrightarrow>
     (\<forall>rk action. map_of (sg_resolutionKeys s) rk = Some action \<longrightarrow>
        (\<exists>k key signal input actor receipt decidedAt. rk = resolution_key k key \<and> map_of (sg_byId s) k = Some signal \<and>
           sig_terminal signal = Some (Resolved action input actor receipt decidedAt)))"

definition facts_kept :: "(string \<Rightarrow> string) \<Rightarrow> signal_world \<Rightarrow> bool" where
  "facts_kept digest w \<longleftrightarrow>
     (\<forall>k signal. map_of (sg_byId (fst w)) k = Some signal \<longrightarrow>
        (\<forall>f \<in> set (facts_of digest signal). map_of (sg_outbox (fst w)) (fact_id f) = Some f \<or> f \<in> set (snd w)))"

definition facts_sound :: "(string \<Rightarrow> string) \<Rightarrow> signal_world \<Rightarrow> bool" where
  "facts_sound digest w \<longleftrightarrow>
     (\<forall>f \<in> snd ` set (sg_outbox (fst w)) \<union> set (snd w).
        \<exists>signal. map_of (sg_byId (fst w)) (fact_signalId f) = Some signal \<and> f \<in> set (facts_of digest signal))"

definition outbox_keyed :: "signal_store \<Rightarrow> bool" where
  "outbox_keyed s \<longleftrightarrow> distinct (map fst (sg_outbox s)) \<and> (\<forall>p \<in> set (sg_outbox s). fst p = fact_id (snd p))"

definition signals_ok :: "(string \<Rightarrow> string) \<Rightarrow> string set \<Rightarrow> signal_world \<Rightarrow> bool" where
  "signals_ok digest occs w \<longleftrightarrow>
     signals_linked digest occs (fst w) \<and> keys_linked (fst w) \<and> facts_kept digest w \<and> facts_sound digest w \<and>
     outbox_keyed (fst w)"

lemma signals_ok_initial: "signals_ok digest occs (createMemoryApplicationSignalStore, [])"
  by (simp add: signals_ok_def signals_linked_def keys_linked_def facts_kept_def facts_sound_def outbox_keyed_def
      createMemoryApplicationSignalStore_def)

text \<open>Replacing a pending signal by its terminal state together with the fact of that state.\<close>

lemma linked_terminal:
  assumes "signals_linked digest occs s" "map_of (sg_byId s) k = Some current"
    and "map_of (sg_byId s') = (map_of (sg_byId s))(k \<mapsto> current\<lparr>sig_terminal := Some t\<rparr>)"
    and "sg_byOccurrence s' = sg_byOccurrence s"
  shows "signals_linked digest occs s'"
  using assms unfolding signals_linked_def by auto (metis option.inject)

lemma signals_linkedD:
  "\<lbrakk>signals_linked digest occs s; map_of (sg_byId s) k = Some signal\<rbrakk> \<Longrightarrow>
   sig_id signal = k \<and> sig_occurrenceKey signal \<in> occs \<and> k = signal_id_of digest (sig_occurrenceKey signal) \<and>
   map_of (sg_byOccurrence s) (sig_occurrenceKey signal) = Some k"
  by (simp add: signals_linked_def)

lemma same_fact:
  assumes "collision_free digest occs" "signals_linked digest occs s"
    and "map_of (sg_byId s) k1 = Some s1" "map_of (sg_byId s) k2 = Some s2"
    and "f \<in> set (facts_of digest s1)" "g \<in> set (facts_of digest s2)" "fact_id f = fact_id g"
  shows "f = g"
proof -
  note l1 = signals_linkedD [OF assms(2,3)] and l2 = signals_linkedD [OF assms(2,4)]
  have "stableSignalId digest [signal_id_of digest (sig_occurrenceKey s1), kind_text (fact_kind f)] =
      stableSignalId digest [signal_id_of digest (sig_occurrenceKey s2), kind_text (fact_kind g)]"
    using l1 l2 facts_of_member [OF assms(5)] facts_of_member [OF assms(6)] assms(7) by metis
  from fact_id_inj [OF assms(1) _ _ this] l1 l2
  have same: "sig_occurrenceKey s1 = sig_occurrenceKey s2" "fact_kind f = fact_kind g" by blast+
  then have "k1 = k2" using l1 l2 by metis
  then have "s1 = s2" using assms(3,4) by simp
  then show ?thesis using facts_of_kind [OF assms(5) _ same(2)] assms(6) by simp
qed

lemma facts_grow:
  assumes "collision_free digest occs" "signals_linked digest occs s'" "facts_kept digest (s, ps)"
    and "map_of (sg_outbox s') = (map_of (sg_outbox s))(fact_id f \<mapsto> f)"
    and "map_of (sg_byId s') k = Some new" "f \<in> set (facts_of digest new)"
    and "\<And>j signal. \<lbrakk>map_of (sg_byId s') j = Some signal\<rbrakk> \<Longrightarrow>
      (j = k \<and> set (facts_of digest new) \<subseteq> insert f (case map_of (sg_byId s) k of None \<Rightarrow> {} | Some old \<Rightarrow> set (facts_of digest old))) \<or>
      map_of (sg_byId s) j = Some signal"
  shows "facts_kept digest (s', ps)"
  unfolding facts_kept_def
proof (intro allI impI ballI)
  fix j signal g
  assume j: "map_of (sg_byId (fst (s', ps))) j = Some signal" and g: "g \<in> set (facts_of digest signal)"
  show "map_of (sg_outbox (fst (s', ps))) (fact_id g) = Some g \<or> g \<in> set (snd (s', ps))"
  proof (cases "fact_id g = fact_id f")
    case True
    then have "g = f" using same_fact [OF assms(1,2) _ assms(5) g assms(6)] j by simp
    then show ?thesis by (simp add: assms(4))
  next
    case False
    have "map_of (sg_outbox s) (fact_id g) = Some g \<or> g \<in> set ps"
    proof (cases "map_of (sg_byId s) j = Some signal")
      case True
      then show ?thesis using assms(3) g by (auto simp: facts_kept_def)
    next
      case not_same: False
      with assms(7) j have "j = k" "set (facts_of digest new) \<subseteq>
          insert f (case map_of (sg_byId s) k of None \<Rightarrow> {} | Some old \<Rightarrow> set (facts_of digest old))" by auto
      with j g assms(5) False obtain old where "map_of (sg_byId s) k = Some old" "g \<in> set (facts_of digest old)"
        by (auto split: option.splits)
      then show ?thesis using assms(3) by (auto simp: facts_kept_def)
    qed
    then show ?thesis using False by (simp add: assms(4))
  qed
qed

lemma set_AList_update: "set (AList.update k v al) \<subseteq> insert (k, v) (set al)"
  by (induction al) auto

lemma set_fold_delete: "set (fold (\<lambda>k. AList.delete k) ks al) \<subseteq> set al"
proof (induction ks arbitrary: al)
  case (Cons k ks)
  have "set (AList.delete k al) \<subseteq> set al" by (auto simp: AList.delete_eq)
  then show ?case using Cons.IH [of "AList.delete k al"] by auto
qed simp

lemma distinct_fold_delete: "distinct (map fst al) \<Longrightarrow> distinct (map fst (fold (\<lambda>k. AList.delete k) ks al))"
  by (induction ks arbitrary: al) (simp_all add: distinct_delete)

lemma outbox_keyed_put: "outbox_keyed s \<Longrightarrow> sg_outbox s' = AList.update (fact_id f) f (sg_outbox s) \<Longrightarrow> outbox_keyed s'"
  using set_AList_update [of "fact_id f" f "sg_outbox s"] by (auto simp: outbox_keyed_def distinct_update)

lemma outbox_keyed_acknowledge: "outbox_keyed s \<Longrightarrow> outbox_keyed (acknowledgeOutbox ks s)"
  using set_fold_delete [of ks "sg_outbox s"] by (auto simp: outbox_keyed_def acknowledgeOutbox_def distinct_fold_delete)

lemma outbox_lookup: "\<lbrakk>outbox_keyed s; f \<in> snd ` set (sg_outbox s)\<rbrakk> \<Longrightarrow> map_of (sg_outbox s) (fact_id f) = Some f"
  by (fastforce simp: outbox_keyed_def)

lemma facts_sound_grow:
  assumes "facts_sound digest (s, ps)" "sg_outbox s' = AList.update (fact_id f) f (sg_outbox s)"
    and "map_of (sg_byId s') (fact_signalId f) = Some new" "f \<in> set (facts_of digest new)"
    and "\<And>j signal. map_of (sg_byId s) j = Some signal \<Longrightarrow>
      \<exists>signal'. map_of (sg_byId s') j = Some signal' \<and> set (facts_of digest signal) \<subseteq> set (facts_of digest signal')"
  shows "facts_sound digest (s', ps)"
  unfolding facts_sound_def
proof
  fix g assume g: "g \<in> snd ` set (sg_outbox (fst (s', ps))) \<union> set (snd (s', ps))"
  show "\<exists>signal. map_of (sg_byId (fst (s', ps))) (fact_signalId g) = Some signal \<and> g \<in> set (facts_of digest signal)"
  proof (cases "g = f")
    case False
    with g have "g \<in> snd ` set (sg_outbox s) \<union> set ps"
      using set_AList_update [of "fact_id f" f "sg_outbox s"] by (auto simp: assms(2))
    then obtain signal where signal: "map_of (sg_byId s) (fact_signalId g) = Some signal" "g \<in> set (facts_of digest signal)"
      using assms(1) by (auto simp: facts_sound_def)
    from assms(5) [OF signal(1)] signal(2) show ?thesis by auto
  qed (use assms(3,4) in simp)
qed

lemma facts_sound_mono:
  assumes "facts_sound digest (s, ps)" "sg_byId s' = sg_byId s"
    and "snd ` set (sg_outbox s') \<union> set ps' \<subseteq> snd ` set (sg_outbox s) \<union> set ps"
  shows "facts_sound digest (s', ps')"
  using assms(1) subsetD [OF assms(3)] by (simp add: facts_sound_def assms(2))

lemma facts_kept_mono: "\<lbrakk>facts_kept digest (s, ps); set ps \<subseteq> set ps'\<rbrakk> \<Longrightarrow> facts_kept digest (s, ps')"
  unfolding facts_kept_def fst_conv snd_conv by blast

lemma signals_ok_publish:
  assumes "signals_ok digest occs (s, ps)" "set fs \<subseteq> snd ` set (sg_outbox s)"
  shows "signals_ok digest occs (s, ps @ fs)"
proof -
  have ok: "signals_linked digest occs s" "keys_linked s" "facts_kept digest (s, ps)" "facts_sound digest (s, ps)"
    "outbox_keyed s" using assms(1) unfolding signals_ok_def fst_conv by blast+
  have "snd ` set (sg_outbox s) \<union> set (ps @ fs) \<subseteq> snd ` set (sg_outbox s) \<union> set ps"
    using assms(2) unfolding set_append by blast
  then have "facts_sound digest (s, ps @ fs)" by (rule facts_sound_mono [OF ok(4) refl])
  moreover have "facts_kept digest (s, ps @ fs)" by (rule facts_kept_mono [OF ok(3)]) simp
  ultimately show ?thesis using ok unfolding signals_ok_def fst_conv by blast
qed

lemma signals_ok_acknowledge:
  assumes "signals_ok digest occs (s, ps)" "set fs \<subseteq> set ps" "set fs \<subseteq> snd ` set (sg_outbox s)"
  shows "signals_ok digest occs (acknowledgeOutbox (map fact_id fs) s, ps)"
proof -
  have keyed: "outbox_keyed s" and sound: "facts_sound digest (s, ps)" using assms(1) by (simp_all add: signals_ok_def)
  have kept: "map_of (sg_outbox (acknowledgeOutbox (map fact_id fs) s)) (fact_id g) = Some g \<or> g \<in> set ps"
    if "map_of (sg_outbox s) (fact_id g) = Some g \<or> g \<in> set ps" for g
  proof (cases "fact_id g \<in> fact_id ` set fs")
    case True
    then obtain f where f: "f \<in> set fs" "fact_id f = fact_id g" by auto
    then have "map_of (sg_outbox s) (fact_id g) = Some f"
      using outbox_lookup [OF keyed, of f] assms(3) by auto
    then show ?thesis using that f assms(2) by auto
  qed (use that in \<open>simp add: acknowledgeOutbox_def map_of_fold_delete\<close>)
  have "snd ` set (sg_outbox (acknowledgeOutbox (map fact_id fs) s)) \<subseteq> snd ` set (sg_outbox s)"
    using set_fold_delete by (intro image_mono) (simp add: acknowledgeOutbox_def)
  then have "facts_sound digest (acknowledgeOutbox (map fact_id fs) s, ps)"
    by (intro facts_sound_mono [OF sound]) auto
  moreover have "facts_kept digest (acknowledgeOutbox (map fact_id fs) s, ps)"
    using assms(1) kept by (simp add: signals_ok_def facts_kept_def)
  ultimately show ?thesis
    using assms(1) outbox_keyed_acknowledge [OF keyed] by (simp add: signals_ok_def signals_linked_def keys_linked_def)
qed

lemma fresh_signal:
  assumes "collision_free digest occs" "signals_linked digest occs s" "occ \<in> occs"
    and "truthy_text (map_of (sg_byOccurrence s) occ) = None"
  shows "map_of (sg_byId s) (signal_id_of digest occ) = None" "map_of (sg_byOccurrence s) occ = None"
proof -
  have named: "k \<noteq> []" if "map_of (sg_byId s) k = Some signal" for k signal
    using signals_linkedD [OF assms(2) that] signal_id_text [OF assms(1)] by metis
  then show no_occ: "map_of (sg_byOccurrence s) occ = None"
    using assms(2,4) unfolding signals_linked_def truthy_text_def by (fastforce split: option.splits if_splits)
  show "map_of (sg_byId s) (signal_id_of digest occ) = None"
  proof (rule ccontr)
    assume "\<not> ?thesis"
    then obtain signal where signal: "map_of (sg_byId s) (signal_id_of digest occ) = Some signal" by auto
    note l = signals_linkedD [OF assms(2) signal]
    then have "sig_occurrenceKey signal = occ" using signal_id_inj [OF assms(1) _ assms(3)] by metis
    with l no_occ show False by simp
  qed
qed

lemma signals_okD:
  assumes "signals_ok digest occs (s, ps)"
  shows "signals_linked digest occs s" "keys_linked s" "facts_kept digest (s, ps)" "facts_sound digest (s, ps)"
    "outbox_keyed s"
  using assms unfolding signals_ok_def fst_conv by blast+

lemma signals_okI:
  "\<lbrakk>signals_linked digest occs s; keys_linked s; facts_kept digest (s, ps); facts_sound digest (s, ps); outbox_keyed s\<rbrakk> \<Longrightarrow>
   signals_ok digest occs (s, ps)"
  unfolding signals_ok_def fst_conv by blast

lemma sg_outbox_put_fact [simp]: "sg_outbox (put_fact f s) = AList.update (fact_id f) f (sg_outbox s)"
  by (simp add: put_fact_def)

lemma signals_ok_terminal:
  assumes free: "collision_free digest occs" and ok: "signals_ok digest occs (s, ps)"
    and current: "map_of (sg_byId s) k = Some current" "sig_terminal current = None"
    and new: "new = current\<lparr>sig_terminal := Some t\<rparr>"
    and f: "set (facts_of digest new) = insert f (set (facts_of digest current))"
    and byId: "map_of (sg_byId s') = (map_of (sg_byId s))(k \<mapsto> new)" and occ: "sg_byOccurrence s' = sg_byOccurrence s"
    and keys: "keys_linked s'" and outbox: "sg_outbox s' = AList.update (fact_id f) f (sg_outbox s)"
  shows "signals_ok digest occs (s', ps)"
proof (rule signals_okI)
  note ok = signals_okD [OF ok]
  show linked: "signals_linked digest occs s'"
    using linked_terminal [OF ok(1) current(1) _ occ] byId new by simp
  have id: "sig_id new = k" using signals_linkedD [OF ok(1) current(1)] by (simp add: new)
  have at_k: "map_of (sg_byId s') k = Some new" and f_new: "f \<in> set (facts_of digest new)"
    by (simp_all add: byId f)
  have upd: "map_of (sg_outbox s') = (map_of (sg_outbox s))(fact_id f \<mapsto> f)"
    unfolding outbox by (rule update_conv')
  have other: "map_of (sg_byId s) j = Some signal" if "map_of (sg_byId s') j = Some signal" "j \<noteq> k" for j signal
    using that by (simp add: byId)
  have grown: "set (facts_of digest new) \<subseteq> insert f (case map_of (sg_byId s) k of None \<Rightarrow> {} | Some old \<Rightarrow> set (facts_of digest old))"
    by (simp add: current(1) f)
  show "facts_kept digest (s', ps)"
    by (rule facts_grow [OF free linked ok(3) upd at_k f_new]) (use other grown in blast)
  have "map_of (sg_byId s') (fact_signalId f) = Some new"
    using facts_of_member [OF f_new] id at_k by simp
  moreover have "\<exists>signal'. map_of (sg_byId s') j = Some signal' \<and> set (facts_of digest signal) \<subseteq> set (facts_of digest signal')"
    if "map_of (sg_byId s) j = Some signal" for j signal
  proof (cases "j = k")
    case True
    then have "signal = current" using that current(1) by simp
    then show ?thesis using at_k True f by blast
  qed (use that in \<open>simp add: byId\<close>)
  ultimately show "facts_sound digest (s', ps)" by (rule facts_sound_grow [OF ok(4) outbox _ f_new])
  show "outbox_keyed s'" by (rule outbox_keyed_put [OF ok(5) outbox])
qed (rule keys)

lemma keys_linked_terminal:
  assumes "keys_linked s" "map_of (sg_byId s) k = Some current" "sig_terminal current = None"
    and "map_of (sg_byId s') = (map_of (sg_byId s))(k \<mapsto> new)"
    and "sg_resolutionKeys s' = sg_resolutionKeys s \<or>
      (\<exists>key action input actor receipt decidedAt. sig_terminal new = Some (Resolved action input actor receipt decidedAt) \<and>
        sg_resolutionKeys s' = AList.update (resolution_key k key) action (sg_resolutionKeys s))"
  shows "keys_linked s'"
  unfolding keys_linked_def
proof (intro allI impI)
  fix rk a assume a: "map_of (sg_resolutionKeys s') rk = Some a"
  have old: "\<exists>j key signal input actor receipt decidedAt. rk = resolution_key j key \<and> map_of (sg_byId s') j = Some signal \<and>
      sig_terminal signal = Some (Resolved a input actor receipt decidedAt)"
    if rk: "map_of (sg_resolutionKeys s) rk = Some a"
  proof -
    obtain j key signal input actor receipt decidedAt where j: "rk = resolution_key j key"
      "map_of (sg_byId s) j = Some signal" "sig_terminal signal = Some (Resolved a input actor receipt decidedAt)"
      using assms(1) rk unfolding keys_linked_def by blast
    moreover from j(2,3) assms(2,3) have "j \<noteq> k" by auto
    ultimately have "map_of (sg_byId s') j = Some signal" by (simp add: assms(4))
    with j show ?thesis by blast
  qed
  show "\<exists>j key signal input actor receipt decidedAt. rk = resolution_key j key \<and> map_of (sg_byId s') j = Some signal \<and>
      sig_terminal signal = Some (Resolved a input actor receipt decidedAt)"
  proof (cases "map_of (sg_resolutionKeys s) rk = Some a")
    case False
    with a assms(5) obtain key action input actor receipt decidedAt
      where new: "sig_terminal new = Some (Resolved action input actor receipt decidedAt)"
        "sg_resolutionKeys s' = AList.update (resolution_key k key) action (sg_resolutionKeys s)" by auto
    with a False have "rk = resolution_key k key" "a = action"
      by (simp_all add: update_conv' split: if_splits)
    moreover have "map_of (sg_byId s') k = Some new" by (simp add: assms(4))
    ultimately show ?thesis using new(1) by blast
  qed (rule old)
qed

lemma signals_ok_issued:
  assumes free: "collision_free digest occs" and ok: "signals_ok digest occs (s, ps)"
    and request: "iss_occurrenceKey request \<in> occs" "truthy_text (map_of (sg_byOccurrence s) (iss_occurrenceKey request)) = None"
    and k: "k = signal_id_of digest (iss_occurrenceKey request)" and new: "new = issued_instance request k receipt"
    and byId: "map_of (sg_byId s') = (map_of (sg_byId s))(k \<mapsto> new)"
    and occ: "map_of (sg_byOccurrence s') = (map_of (sg_byOccurrence s))(iss_occurrenceKey request \<mapsto> k)"
    and keys: "sg_resolutionKeys s' = sg_resolutionKeys s"
    and outbox: "sg_outbox s' = AList.update (fact_id (issued_fact digest new)) (issued_fact digest new) (sg_outbox s)"
  shows "signals_ok digest occs (s', ps)"
proof (rule signals_okI)
  let ?f = "issued_fact digest new"
  note ok = signals_okD [OF ok]
  have fresh: "map_of (sg_byId s) k = None" "map_of (sg_byOccurrence s) (iss_occurrenceKey request) = None"
    using fresh_signal [OF free ok(1) request] by (simp_all add: k)
  have new_simps: "sig_id new = k" "sig_occurrenceKey new = iss_occurrenceKey request" "sig_terminal new = None"
    by (simp_all add: new issued_instance_def)
  have at_k: "map_of (sg_byId s') k = Some new" and f_new: "set (facts_of digest new) = {?f}"
    by (simp_all add: byId facts_of_terminal(1) new_simps(3))
  have kept: "map_of (sg_byId s') j = map_of (sg_byId s) j" if "j \<noteq> k" for j using that by (simp add: byId)
  have "sig_id signal = j \<and> sig_occurrenceKey signal \<in> occs \<and> j = signal_id_of digest (sig_occurrenceKey signal) \<and>
      map_of (sg_byOccurrence s') (sig_occurrenceKey signal) = Some j" if j: "map_of (sg_byId s') j = Some signal" for j signal
  proof (cases "j = k")
    case True
    then have "signal = new" using j at_k by simp
    with True show ?thesis using request(1) k by (simp add: new_simps occ)
  next
    case False
    with j have "map_of (sg_byId s) j = Some signal" by (simp add: kept)
    from signals_linkedD [OF ok(1) this] fresh(2) show ?thesis by (auto simp: occ)
  qed
  moreover have "\<exists>signal. map_of (sg_byId s') j = Some signal \<and> sig_occurrenceKey signal = oc"
    if j: "map_of (sg_byOccurrence s') oc = Some j" for oc j
  proof (cases "oc = iss_occurrenceKey request")
    case True
    with j at_k new_simps(2) show ?thesis by (simp add: occ)
  next
    case False
    with j have "map_of (sg_byOccurrence s) oc = Some j" by (simp add: occ)
    then obtain signal where "map_of (sg_byId s) j = Some signal" "sig_occurrenceKey signal = oc"
      using ok(1) unfolding signals_linked_def by blast
    moreover from this fresh(1) have "j \<noteq> k" by auto
    ultimately show ?thesis by (simp add: kept)
  qed
  ultimately show linked: "signals_linked digest occs s'"
    unfolding signals_linked_def by blast
  show "keys_linked s'"
    using ok(2) fresh(1) kept unfolding keys_linked_def keys by (metis option.distinct(1))
  have upd: "map_of (sg_outbox s') = (map_of (sg_outbox s))(fact_id ?f \<mapsto> ?f)"
    unfolding outbox by (rule update_conv')
  show "facts_kept digest (s', ps)"
    by (rule facts_grow [OF free linked ok(3) upd at_k]) (simp_all add: f_new, metis kept)
  have "map_of (sg_byId s') (fact_signalId ?f) = Some new"
    by (simp add: issued_fact_def new_simps at_k)
  moreover have "?f \<in> set (facts_of digest new)" by (simp add: f_new)
  moreover have "\<exists>signal'. map_of (sg_byId s') j = Some signal' \<and> set (facts_of digest signal) \<subseteq> set (facts_of digest signal')"
    if "map_of (sg_byId s) j = Some signal" for j signal
    using that fresh(1) kept [of j] by (metis option.distinct(1) order_refl)
  ultimately show "facts_sound digest (s', ps)" by (rule facts_sound_grow [OF ok(4) outbox])
  show "outbox_keyed s'" by (rule outbox_keyed_put [OF ok(5) outbox])
qed

lemma signals_ok_step:
  assumes "signal_step digest occs w w'" "collision_free digest occs" "signals_ok digest occs w"
  shows "signals_ok digest occs w'"
  using assms(1,3)
proof cases
  case (issued request s k signal receipt ps)
  with assms(3) show ?thesis
    by (auto intro!: signals_ok_issued [OF assms(2), of s ps request k signal receipt] simp: update_conv')
next
  case (resolved s k current action "next" input actor receipt decidedAt ps key)
  have "sig_id current = k" using signals_linkedD [OF signals_okD(1)] assms(3) resolved by blast
  then have "set (facts_of digest next) = insert (resolved_fact digest k (sig_contract current) action decidedAt) (set (facts_of digest current))"
    using resolved by (auto simp: facts_of_def issued_fact_def signalIssuancePayload_def)
  moreover have "keys_linked s" using assms(3) resolved by (auto dest: signals_okD)
  ultimately show ?thesis
    using resolved assms(3)
    by (auto intro!: signals_ok_terminal [OF assms(2), of s ps k current "next"] keys_linked_terminal [of s k current _ "next"])
next
  case (expired s k current "next" expiredAt ps)
  have "sig_id current = k" using signals_linkedD [OF signals_okD(1)] assms(3) expired by blast
  then have "set (facts_of digest next) = insert (expired_fact digest k (sig_contract current) expiredAt) (set (facts_of digest current))"
    using expired by (auto simp: facts_of_def issued_fact_def signalIssuancePayload_def)
  moreover have "keys_linked s" using assms(3) expired by (auto dest: signals_okD)
  ultimately show ?thesis
    using expired assms(3)
    by (auto intro!: signals_ok_terminal [OF assms(2), of s ps k current "next"] keys_linked_terminal [of s k current _ "next"])
next
  case (published fs s ps)
  with assms(3) show ?thesis by (auto intro: signals_ok_publish)
next
  case (acknowledged fs s ps)
  with assms(3) show ?thesis
    using signals_ok_acknowledge [OF signals_ok_publish [of digest occs s ps fs]] by simp
qed

section \<open>Histories\<close>

datatype signal_call =
    IssueSignal signal_issue_authorizer ApplicationSignalIssueRequest
  | ResolveSignal signal_resolution_authorizer signal_finalizer ApplicationSignalResolutionRequest
  | ExpireSignal signal_finalizer string string
  | ExpireDueSignals signal_finalizer string js_number
  | RelayRound signal_finalizer "ApplicationSignalOutboxFact \<Rightarrow> signal_error option"
      "ApplicationSignalOutboxFact \<Rightarrow> bool" string js_number

primrec run_signal :: "(string \<Rightarrow> string) \<Rightarrow> (string \<Rightarrow> string \<Rightarrow> int) \<Rightarrow> signal_call \<Rightarrow> signal_world \<Rightarrow> signal_world" where
  "run_signal digest cmp (IssueSignal authorize request) w = (snd (issue digest authorize request (fst w)), snd w)"
| "run_signal digest cmp (ResolveSignal authorize finalize request) w =
     (snd (resolve digest authorize finalize request (fst w)), snd w)"
| "run_signal digest cmp (ExpireSignal finalize k expiredAt) w =
     (snd (expire_signal digest finalize k expiredAt (fst w)), snd w)"
| "run_signal digest cmp (ExpireDueSignals finalize now limit) w =
     (snd (expireDue digest cmp finalize now limit (fst w)), snd w)"
| "run_signal digest cmp (RelayRound finalize publish aborted now batch) w =
     (case relay_round digest cmp finalize publish aborted now batch (fst w) of
        (published, err, s') \<Rightarrow> (s', snd w @ published))"

definition signal_history :: "(string \<Rightarrow> string) \<Rightarrow> (string \<Rightarrow> string \<Rightarrow> int) \<Rightarrow> signal_call list \<Rightarrow> signal_world" where
  "signal_history digest cmp calls = fold (run_signal digest cmp) calls (createMemoryApplicationSignalStore, [])"

fun call_occurrences :: "signal_call \<Rightarrow> string set" where
  "call_occurrences (IssueSignal authorize request) = {iss_occurrenceKey request}"
| "call_occurrences _ = {}"

definition occurrences :: "signal_call list \<Rightarrow> string set" where
  "occurrences calls = \<Union> (call_occurrences ` set calls)"

lemma run_signal_steps: "call_occurrences call \<subseteq> occs \<Longrightarrow> steps digest occs w (run_signal digest cmp call w)"
proof (cases call)
  case (RelayRound finalize publish aborted now batch)
  then show ?thesis
    using relay_round_steps [where s = "fst w" and ps = "snd w" and occs = occs and digest = digest and cmp = cmp and
      finalize = finalize and publish = publish and aborted = aborted and now = now and batch = batch]
    by (simp split: prod.splits)
qed (use issue_steps [of _ occs digest "fst w" "snd w"] resolve_steps [of digest occs "fst w" "snd w"]
      expire_signal_steps [of digest occs "fst w" "snd w"] expireDue_steps [of digest occs "fst w" "snd w"] in simp_all)

lemma run_signals_steps:
  "occurrences calls \<subseteq> occs \<Longrightarrow> steps digest occs w (fold (run_signal digest cmp) calls w)"
proof (induction calls arbitrary: w)
  case (Cons call calls)
  then have "steps digest occs w (run_signal digest cmp call w)"
    "steps digest occs (run_signal digest cmp call w) (fold (run_signal digest cmp) calls (run_signal digest cmp call w))"
    by (auto simp: occurrences_def intro: run_signal_steps)
  then show ?case by (simp add: rtranclp_trans)
qed simp

lemma steps_invariant:
  assumes "steps digest occs w w'" "P w" "\<And>w w'. \<lbrakk>P w; signal_step digest occs w w'\<rbrakk> \<Longrightarrow> P w'"
  shows "P w'"
  using assms by (induction rule: rtranclp_induct) auto

lemma signals_ok_steps:
  "\<lbrakk>steps digest occs w w'; collision_free digest occs; signals_ok digest occs w\<rbrakk> \<Longrightarrow> signals_ok digest occs w'"
  by (erule steps_invariant) (auto intro: signals_ok_step)

lemma collision_free_mono: "\<lbrakk>collision_free digest occs; occs' \<subseteq> occs\<rbrakk> \<Longrightarrow> collision_free digest occs'"
proof -
  assume "collision_free digest occs" "occs' \<subseteq> occs"
  moreover from this(2) have "hashed_texts digest occs' \<subseteq> hashed_texts digest occs"
    unfolding hashed_texts_def by (intro Un_mono image_mono Sigma_mono) auto
  ultimately show ?thesis unfolding collision_free_def by (meson inj_on_subset subsetD)
qed

lemma signals_ok_history:
  assumes "collision_free digest occs" "occurrences calls \<subseteq> occs"
  shows "signals_ok digest occs (signal_history digest cmp calls)"
  unfolding signal_history_def
  by (rule signals_ok_steps [OF run_signals_steps [OF assms(2)] assms(1) signals_ok_initial])

section \<open>A sample history\<close>

text \<open>A digest that is injective on the texts of one occurrence.\<close>

definition sample_digest :: "string \<Rightarrow> string" where
  "sample_digest t = map (\<lambda>c. if c = CHR 0x00 then CHR ''.'' else c) t"

definition sample_issue :: ApplicationSignalIssueRequest where
  "sample_issue = \<lparr>iss_occurrenceKey = ''o'', iss_definition = \<lparr>def_contract = \<lparr>sc_id = ''c'', sc_name = ''n'', sc_version = ''1''\<rparr>,
     def_actions = [''ok'']\<rparr>, iss_input = JNull, iss_issuedAt = ''1'', iss_expiresAt = ''5'', iss_target = [],
     iss_access = Authorize [], iss_issueReceipt = \<lparr>receipt_id = ''r''\<rparr>\<rparr>"

definition sample_resolution :: ApplicationSignalResolutionRequest where
  "sample_resolution = \<lparr>rq_id = ''signal.o'', rq_action = ''ok'', rq_input = JNull,
     rq_actor = \<lparr>actor_id = ''a'', actor_roles = None, actor_attributes = None\<rparr>, rq_receipt = Some \<lparr>receipt_id = ''q''\<rparr>,
     rq_decidedAt = ''2'', rq_idempotencyKey = ''i''\<rparr>"

abbreviation sample_signal :: ApplicationSignalStoredInstance where
  "sample_signal \<equiv> issued_instance sample_issue ''signal.o'' \<lparr>receipt_id = ''r''\<rparr>"

lemma sample_hashed:
  "hashed_texts sample_digest {''o''} =
     {''signal'' @ CHR 0x00 # ''o'', ''signal.o'' @ CHR 0x00 # ''issued'', ''signal.o'' @ CHR 0x00 # ''resolved'',
      ''signal.o'' @ CHR 0x00 # ''expired''}"
proof -
  have "{''o''} \<times> (UNIV :: signal_fact_kind set) = {(''o'', FactIssued), (''o'', FactResolved), (''o'', FactExpired)}"
    using signal_fact_kind.exhaust by auto
  then show ?thesis by (simp add: hashed_texts_def stableSignalId_def sample_digest_def insert_commute)
qed

lemma sample_free: "collision_free sample_digest {''o''}"
  by (simp add: collision_free_def sample_hashed sample_digest_def)

lemma sample_issued:
  "signal_history sample_digest cmp [IssueSignal None sample_issue] =
     (\<lparr>sg_byId = [(''signal.o'', sample_signal)], sg_byOccurrence = [(''o'', ''signal.o'')], sg_resolutionKeys = [],
       sg_outbox = [(''signal.o.issued'', issued_fact sample_digest sample_signal)]\<rparr>, [])"
  by (simp add: signal_history_def issue_def createMemoryApplicationSignalStore_def truthy_text_def stableSignalId_def
      sample_digest_def put_fact_def put_signal_def issued_fact_def issued_instance_def sample_issue_def Let_def)

lemma signal_history_snoc:
  "signal_history digest cmp (calls @ [call]) = run_signal digest cmp call (signal_history digest cmp calls)"
  by (simp add: signal_history_def)

section \<open>Properties\<close>

lemma terminal_step_kept:
  assumes "signal_step digest occs w w'" "collision_free digest occs" "signals_ok digest occs w"
    and "read_signal k (fst w) = Some signal" "sig_terminal signal \<noteq> None"
  shows "read_signal k (fst w') = Some signal"
  using assms(1)
proof cases
  case (issued request s j signal' receipt ps)
  have "map_of (sg_byId s) j = None"
    using fresh_signal(1) [OF assms(2) signals_okD(1) issued(3,4)] assms(3) issued by simp
  then show ?thesis using assms(4) issued by (auto simp: read_signal_def)
qed (use assms(4,5) in \<open>auto simp: read_signal_def\<close>)

text \<open>
  C32: Signals are one-shot. Once a signal is resolved or expired its stored instance, outcome
  included, never changes again, whatever calls and relay rounds follow.
\<close>

theorem signal_outcome_final:
  assumes "collision_free digest (occurrences (calls @ later))"
    and "read_signal k (fst (signal_history digest cmp calls)) = Some signal" "sig_terminal signal \<noteq> None"
  shows "read_signal k (fst (signal_history digest cmp (calls @ later))) = Some signal"
proof -
  let ?occs = "occurrences (calls @ later)" and ?w = "signal_history digest cmp calls"
  have sub: "occurrences calls \<subseteq> ?occs" "occurrences later \<subseteq> ?occs" by (auto simp: occurrences_def)
  have "steps digest ?occs ?w (signal_history digest cmp (calls @ later))"
    using run_signals_steps [OF sub(2), of digest ?w cmp] by (simp add: signal_history_def)
  then have "signals_ok digest ?occs (signal_history digest cmp (calls @ later)) \<and>
      read_signal k (fst (signal_history digest cmp (calls @ later))) = Some signal"
    by (rule steps_invariant)
       (use signals_ok_history [OF assms(1) sub(1)] assms(2) signals_ok_step [OF _ assms(1)]
          terminal_step_kept [OF _ assms(1) _ _ assms(3)] in blast)+
  then show ?thesis ..
qed

theorem signal_outcome_final_witness:
  "read_signal ''signal.o'' (fst (signal_history sample_digest compareStrings
     [IssueSignal None sample_issue, ExpireSignal None ''signal.o'' ''6'', ResolveSignal None None sample_resolution])) =
   Some (sample_signal\<lparr>sig_terminal := Some (Expired ''6'')\<rparr>)"
proof -
  let ?calls = "[IssueSignal None sample_issue, ExpireSignal None ''signal.o'' ''6'']"
  have "occurrences (?calls @ [ResolveSignal None None sample_resolution]) = {''o''}"
    by (simp add: occurrences_def sample_issue_def)
  moreover have "read_signal ''signal.o'' (fst (signal_history sample_digest compareStrings ?calls)) =
      Some (sample_signal\<lparr>sig_terminal := Some (Expired ''6'')\<rparr>)"
    using signal_history_snoc [of sample_digest compareStrings "[IssueSignal None sample_issue]" "ExpireSignal None ''signal.o'' ''6''"]
    by (simp add: sample_issued expire_signal_def issued_instance_def put_signal_def read_signal_def Let_def)
  ultimately show ?thesis
    using signal_outcome_final [of sample_digest ?calls "[ResolveSignal None None sample_resolution]" "''signal.o''" compareStrings]
      sample_free by simp
qed

text \<open>
  C31: No notification is lost or invented. In every reachable state each stored signal's issuance
  fact, and its resolution or expiry fact once it is terminal, is still pending in the outbox or has
  been published; and every fact pending or published is such a fact of its signal.
\<close>

theorem outbox_at_least_once:
  assumes "collision_free digest (occurrences calls)" "signal_history digest cmp calls = (s, published)"
  shows "(\<forall>k signal f. read_signal k s = Some signal \<and> f \<in> set (facts_of digest signal) \<longrightarrow>
      f \<in> snd ` set (sg_outbox s) \<or> f \<in> set published) \<and>
    (\<forall>f \<in> snd ` set (sg_outbox s) \<union> set published.
      \<exists>signal. read_signal (fact_signalId f) s = Some signal \<and> f \<in> set (facts_of digest signal))"
proof -
  have "signals_ok digest (occurrences calls) (s, published)"
    using signals_ok_history [OF assms(1) order_refl, of cmp] assms(2) by simp
  note ok = signals_okD [OF this]
  have "f \<in> snd ` set (sg_outbox s) \<or> f \<in> set published"
    if "read_signal k s = Some signal" "f \<in> set (facts_of digest signal)" for k signal f
    using ok(3) that unfolding facts_kept_def read_signal_def fst_conv snd_conv
    by (metis image_eqI map_of_SomeD snd_conv)
  moreover have "\<exists>signal. read_signal (fact_signalId f) s = Some signal \<and> f \<in> set (facts_of digest signal)"
    if "f \<in> snd ` set (sg_outbox s) \<union> set published" for f
    using ok(4) that unfolding facts_sound_def read_signal_def fst_conv snd_conv by blast
  ultimately show ?thesis by blast
qed

theorem outbox_at_least_once_witness:
  "issued_fact sample_digest sample_signal \<in>
     snd ` set (sg_outbox (fst (signal_history sample_digest compareStrings [IssueSignal None sample_issue])))"
proof -
  have "occurrences [IssueSignal None sample_issue] = {''o''}" by (simp add: occurrences_def sample_issue_def)
  then show ?thesis
    using outbox_at_least_once [of sample_digest "[IssueSignal None sample_issue]" compareStrings, OF _ sample_issued]
      sample_free by (simp add: sample_issued read_signal_def facts_of_def)
qed

lemma resolution_key_inj:
  "\<lbrakk>resolution_key k key = resolution_key j key'; CHR 0x00 \<notin> set k; CHR 0x00 \<notin> set j\<rbrakk> \<Longrightarrow> k = j \<and> key = key'"
  unfolding resolution_key_def using split_at_nul [of k "CHR 0x00" key j key'] by simp

lemma signal_id_plain:
  assumes "collision_free digest occs" "signals_linked digest occs s" "map_of (sg_byId s) k = Some signal"
  shows "CHR 0x00 \<notin> set k"
  using signals_linkedD [OF assms(2,3)] signal_id_text [OF assms(1)] by metis

text \<open>The state a won resolution leaves behind: the instance, and exactly one idempotency key for it.\<close>

definition won :: "string \<Rightarrow> ApplicationSignalStoredInstance \<Rightarrow> string \<Rightarrow> string \<Rightarrow> signal_store \<Rightarrow> bool" where
  "won k signal key action s \<longleftrightarrow>
     read_signal k s = Some signal \<and> sig_terminal signal \<noteq> None \<and>
     (\<forall>key'. map_of (sg_resolutionKeys s) (resolution_key k key') = (if key' = key then Some action else None))"

lemma won_step:
  assumes "signal_step digest occs w w'" "collision_free digest occs" "signals_ok digest occs w"
    and "won k signal key action (fst w)"
  shows "won k signal key action (fst w')"
proof -
  have k: "read_signal k (fst w) = Some signal" "sig_terminal signal \<noteq> None"
    using assms(4) by (simp_all add: won_def)
  have linked: "signals_linked digest occs (fst w)" using assms(3) signals_okD(1) by (cases w) simp
  have "map_of (sg_resolutionKeys (fst w')) (resolution_key k key') = map_of (sg_resolutionKeys (fst w)) (resolution_key k key')" for key'
    using assms(1)
  proof cases
    case (resolved s j current act "next" input actor receipt decidedAt ps key'')
    have at: "map_of (sg_byId (fst w)) k = Some signal" "map_of (sg_byId (fst w)) j = Some current"
      using k(1) resolved by (simp_all add: read_signal_def)
    then have "j \<noteq> k" using k(2) resolved(4) by auto
    then have "resolution_key k key' \<noteq> resolution_key j key''"
      using resolution_key_inj [of k key' j key''] signal_id_plain [OF assms(2) linked] at by blast
    then show ?thesis using resolved(1,2) by (simp add: update_conv')
  qed simp_all
  then show ?thesis
    using assms(4) terminal_step_kept [OF assms(1-3) k] by (simp add: won_def)
qed

lemma resolve_wins:
  assumes "collision_free digest occs" "signals_ok digest occs (s, ps)"
    and "resolve digest authorize finalize request s = (Inr (signal, ReplayNone), s')"
  shows "won (rq_id request) signal (rq_idempotencyKey request) (rq_action request) s'"
proof -
  let ?k = "rq_id request"
  note ok = signals_okD [OF assms(2)]
  obtain current where current: "map_of (sg_byId s) ?k = Some current" "sig_terminal current = None"
    and signal: "sig_terminal signal \<noteq> None"
    and s': "map_of (sg_byId s') ?k = Some signal"
      "sg_resolutionKeys s' = AList.update (resolution_key ?k (rq_idempotencyKey request)) (rq_action request) (sg_resolutionKeys s)"
    using assms(3) by (auto simp: resolve_def Let_def split: option.splits sum.splits if_splits)
  have "map_of (sg_resolutionKeys s) (resolution_key ?k key) = None" for key
  proof (rule ccontr)
    assume "map_of (sg_resolutionKeys s) (resolution_key ?k key) \<noteq> None"
    then obtain j key' other where "resolution_key ?k key = resolution_key j key'" "map_of (sg_byId s) j = Some other"
      "sig_terminal other \<noteq> None"
      using ok(2) unfolding keys_linked_def by (metis not_None_eq option.distinct(1))
    moreover from this have "?k = j"
      using resolution_key_inj signal_id_plain [OF assms(1) ok(1)] current(1) by blast
    ultimately show False using current by simp
  qed
  moreover have "resolution_key ?k key = resolution_key ?k (rq_idempotencyKey request) \<longleftrightarrow> key = rq_idempotencyKey request" for key
    by (simp add: resolution_key_def)
  ultimately show ?thesis
    using signal s' by (simp add: won_def read_signal_def update_conv')
qed

lemma resolve_after_won:
  assumes "won k signal key action s" "action \<noteq> []" "rq_id request = k"
  shows "resolve digest authorize finalize request s =
    (Inr (signal, if rq_idempotencyKey request = key \<and> rq_action request = action then ReplayIdempotent else ReplayTerminal), s)"
  using assms by (auto simp: won_def resolve_def read_signal_def truthy_text_def)

text \<open>
  C30: Resolution is decided once. After a call to \<open>resolve\<close> won, whatever calls and relay rounds
  follow, every later \<open>resolve\<close> of that signal changes nothing and returns the winning instance: as an
  idempotent replay exactly for the same idempotency key and action, else as a terminal signal, for
  which the hydrated action discloses only the class and the time of the decision.
\<close>

theorem resolution_decided_once:
  assumes "collision_free digest (occurrences (calls @ later))"
    and "signal_history digest cmp calls = (s, published)"
    and "resolve digest authorize finalize request s = (Inr (signal, ReplayNone), s')" "rq_action request \<noteq> []"
    and "fold (run_signal digest cmp) later (s', published) = (s'', published')"
    and "rq_id other = rq_id request"
  shows "resolve digest authorize' finalize' other s'' =
      (Inr (signal, if rq_idempotencyKey other = rq_idempotencyKey request \<and> rq_action other = rq_action request
         then ReplayIdempotent else ReplayTerminal), s'') \<and>
    signalActionResult reference (rq_action other) signal ReplayTerminal =
      Inr (AlreadyResolved ClassResolved (rq_decidedAt request))"
proof -
  let ?occs = "occurrences (calls @ later)"
  have sub: "occurrences calls \<subseteq> ?occs" "occurrences later \<subseteq> ?occs" by (auto simp: occurrences_def)
  have ok: "signals_ok digest ?occs (s, published)"
    using signals_ok_history [OF assms(1) sub(1), of cmp] assms(2) by simp
  have s': "snd (resolve digest authorize finalize request s) = s'" by (simp add: assms(3))
  have ok': "signals_ok digest ?occs (s', published)"
    using signals_ok_steps [OF resolve_steps assms(1) ok, of authorize finalize request] by (simp add: s')
  have "steps digest ?occs (s', published) (s'', published')"
    using run_signals_steps [OF sub(2), of digest "(s', published)" cmp] assms(5) by simp
  then have "signals_ok digest ?occs (s'', published') \<and>
      won (rq_id request) signal (rq_idempotencyKey request) (rq_action request) (fst (s'', published'))"
    by (rule steps_invariant)
       (use ok' resolve_wins [OF assms(1) ok assms(3)] signals_ok_step [OF _ assms(1)] won_step [OF _ assms(1)] in \<open>simp, blast\<close>)
  then have "resolve digest authorize' finalize' other s'' =
      (Inr (signal, if rq_idempotencyKey other = rq_idempotencyKey request \<and> rq_action other = rq_action request
         then ReplayIdempotent else ReplayTerminal), s'')"
    using resolve_after_won [OF _ assms(4,6)] by simp
  moreover have "\<exists>act input actor receipt. sig_terminal signal = Some (Resolved act input actor receipt (rq_decidedAt request))"
    using assms(3) by (auto simp: resolve_def Let_def split: option.splits sum.splits if_splits)
  ultimately show ?thesis by (auto simp: signalActionResult_def)
qed

theorem resolution_decided_once_witness:
  "\<exists>signal s'. resolve sample_digest None None sample_resolution
       (fst (signal_history sample_digest compareStrings [IssueSignal None sample_issue])) = (Inr (signal, ReplayNone), s') \<and>
     resolve sample_digest None None (sample_resolution\<lparr>rq_idempotencyKey := ''j''\<rparr>) s' = (Inr (signal, ReplayTerminal), s')"
proof -
  have occs: "occurrences ([IssueSignal None sample_issue] @ []) = {''o''}" by (simp add: occurrences_def sample_issue_def)
  obtain signal s' where won: "resolve sample_digest None None sample_resolution
      \<lparr>sg_byId = [(''signal.o'', sample_signal)], sg_byOccurrence = [(''o'', ''signal.o'')], sg_resolutionKeys = [],
       sg_outbox = [(''signal.o.issued'', issued_fact sample_digest sample_signal)]\<rparr> = (Inr (signal, ReplayNone), s')"
    by (simp add: resolve_def sample_resolution_def truthy_text_def issued_instance_def sample_issue_def Let_def)
  have free: "collision_free sample_digest (occurrences ([IssueSignal None sample_issue] @ []))"
    unfolding occs by (rule sample_free)
  have "resolve sample_digest None None (sample_resolution\<lparr>rq_idempotencyKey := ''j''\<rparr>) s' = (Inr (signal, ReplayTerminal), s')"
    using resolution_decided_once [OF free sample_issued [of compareStrings] won, of s' "[]"
        "sample_resolution\<lparr>rq_idempotencyKey := ''j''\<rparr>" None None]
    by (simp add: sample_resolution_def)
  with won show ?thesis by (simp add: sample_issued)
qed

lemma distinct_signals_step:
  "\<lbrakk>signal_step digest occs w w'; distinct (map fst (sg_byId (fst w)))\<rbrakk> \<Longrightarrow> distinct (map fst (sg_byId (fst w')))"
  by (erule signal_step.cases) (auto simp: put_signal_def distinct_update)

lemma distinct_signals_history: "distinct (map fst (sg_byId (fst (signal_history digest cmp calls))))"
  unfolding signal_history_def
  by (rule steps_invariant [OF run_signals_steps [OF order_refl]])
     (auto simp: createMemoryApplicationSignalStore_def dest: distinct_signals_step)

definition never_fails :: "signal_finalizer \<Rightarrow> bool" where
  "never_fails finalize \<longleftrightarrow> (\<forall>signal notice. Option.bind finalize (\<lambda>f. f signal notice) = None)"

definition swept :: "string \<Rightarrow> ApplicationSignalStoredInstance \<Rightarrow> ApplicationSignalStoredInstance" where
  "swept now signal = (if sig_terminal signal = None then signal\<lparr>sig_terminal := Some (Expired now)\<rparr> else signal)"

lemma expire_signal_swept:
  assumes "never_fails finalize" "map_of (sg_byId s) k = Some signal"
  shows "\<exists>p s'. expire_signal digest finalize k now s = (Inr p, s') \<and>
    map_of (sg_byId s') = (map_of (sg_byId s))(k \<mapsto> swept now signal)"
  using assms by (auto simp: expire_signal_def never_fails_def Let_def swept_def fun_eq_iff)

lemma swept_idem [simp]: "swept now (swept now signal) = swept now signal"
  by (simp add: swept_def)

lemma swept_terminal: "sig_terminal (swept now signal) \<noteq> None"
  by (simp add: swept_def)

lemma expire_each_swept:
  assumes "never_fails finalize" "\<forall>k \<in> set ks. map_of (sg_byId s) k \<noteq> None"
  shows "\<exists>s'. expire_each digest finalize now ks s = (None, s') \<and>
    (\<forall>j. map_of (sg_byId s') j = (if j \<in> set ks then map_option (swept now) (map_of (sg_byId s) j) else map_of (sg_byId s) j))"
  using assms(2)
proof (induction ks arbitrary: s)
  case (Cons k ks)
  then obtain signal where signal: "map_of (sg_byId s) k = Some signal" by auto
  obtain p s1 where s1: "expire_signal digest finalize k now s = (Inr p, s1)"
    "map_of (sg_byId s1) = (map_of (sg_byId s))(k \<mapsto> swept now signal)"
    using expire_signal_swept [OF assms(1) signal] by blast
  have "\<forall>j \<in> set ks. map_of (sg_byId s1) j \<noteq> None" using Cons.prems by (simp add: s1(2))
  from Cons.IH [OF this] obtain s2 where s2: "expire_each digest finalize now ks s1 = (None, s2)"
    "\<forall>j. map_of (sg_byId s2) j = (if j \<in> set ks then map_option (swept now) (map_of (sg_byId s1) j) else map_of (sg_byId s1) j)"
    by blast
  have "map_of (sg_byId s2) j = (if j \<in> set (k # ks) then map_option (swept now) (map_of (sg_byId s) j) else map_of (sg_byId s) j)" for j
    using s2(2) s1(2) signal by (cases "j = k") simp_all
  then show ?case using s1(1) s2(1) by simp
qed simp

lemma due_signals_iff:
  assumes "distinct (map fst (sg_byId s))" "\<And>k signal. map_of (sg_byId s) k = Some signal \<Longrightarrow> sig_id signal = k"
    and "signal \<in> set (due_signals cmp now n s)"
  shows "map_of (sg_byId s) (sig_id signal) = Some signal \<and> sig_terminal signal = None \<and>
    compareStrings (sig_expiresAt signal) now \<le> 0"
proof -
  from assms(3) obtain k where k: "(k, signal) \<in> set (sg_byId s)" and "sig_terminal signal = None"
    "compareStrings (sig_expiresAt signal) now \<le> 0"
    unfolding due_signals_def by (auto dest!: in_set_takeD)
  moreover from k assms(1) have "map_of (sg_byId s) k = Some signal" by simp
  ultimately show ?thesis using assms(2) by auto
qed

text \<open>
  The expiry sweep. On a reachable store, with a finalizer that does not fail, \<open>expireDue\<close> expires
  at most \<open>limit\<close> signals, each of them pending and past its expiry, stamps them with the sweep's time,
  leaves every other signal alone, and when it picks fewer than \<open>limit\<close> no overdue signal is left.
\<close>

theorem expiry_sweep:
  assumes "collision_free digest (occurrences calls)" "signal_history digest cmp calls = (s, published)"
    and "never_fails finalize" "assertSignalBatchSize limit = Inr n"
  shows "\<exists>due s'. expireDue digest cmp finalize now limit s = (Inr due, s') \<and> length due \<le> n \<and>
    (\<forall>k \<in> set due. \<exists>signal. read_signal k s = Some signal \<and> sig_terminal signal = None \<and>
       compareStrings (sig_expiresAt signal) now \<le> 0 \<and>
       read_signal k s' = Some (signal\<lparr>sig_terminal := Some (Expired now)\<rparr>)) \<and>
    (\<forall>k. k \<notin> set due \<longrightarrow> read_signal k s' = read_signal k s) \<and>
    (length due < n \<longrightarrow> (\<forall>k signal. read_signal k s' = Some signal \<and> sig_terminal signal = None \<longrightarrow>
       0 < compareStrings (sig_expiresAt signal) now))"
proof -
  have "signals_ok digest (occurrences calls) (s, published)"
    using signals_ok_history [OF assms(1) order_refl, of cmp] assms(2) by simp
  then have ids: "sig_id signal = k" if "map_of (sg_byId s) k = Some signal" for k signal
    using signals_linkedD [OF signals_okD(1) that] by blast
  have dist: "distinct (map fst (sg_byId s))"
    using distinct_signals_history [of digest cmp calls] assms(2) by simp
  define due where "due = map sig_id (due_signals cmp now n s)"
  have member: "\<exists>signal. map_of (sg_byId s) k = Some signal \<and> sig_terminal signal = None \<and>
      compareStrings (sig_expiresAt signal) now \<le> 0" if "k \<in> set due" for k
    using due_signals_iff [OF dist ids] that unfolding due_def by auto
  then have "\<forall>k \<in> set due. map_of (sg_byId s) k \<noteq> None" by fastforce
  from expire_each_swept [OF assms(3) this, of digest now] obtain s' where s': "expire_each digest finalize now due s = (None, s')"
    "map_of (sg_byId s') j = (if j \<in> set due then map_option (swept now) (map_of (sg_byId s) j) else map_of (sg_byId s) j)" for j
    by blast
  have run: "expireDue digest cmp finalize now limit s = (Inr due, s')"
    using s'(1) assms(4) by (simp add: expireDue_def due_def)
  have "\<exists>signal. read_signal k s = Some signal \<and> sig_terminal signal = None \<and> compareStrings (sig_expiresAt signal) now \<le> 0 \<and>
      read_signal k s' = Some (signal\<lparr>sig_terminal := Some (Expired now)\<rparr>)" if k: "k \<in> set due" for k
  proof -
    obtain signal where "map_of (sg_byId s) k = Some signal" "sig_terminal signal = None"
      "compareStrings (sig_expiresAt signal) now \<le> 0" using member [OF k] by blast
    moreover from this have "map_of (sg_byId s') k = Some (signal\<lparr>sig_terminal := Some (Expired now)\<rparr>)"
      using s'(2) [of k] k by (simp add: swept_def)
    ultimately show ?thesis by (auto simp: read_signal_def)
  qed
  moreover have "0 < compareStrings (sig_expiresAt signal) now"
    if short: "length due < n" and signal: "read_signal k s' = Some signal" "sig_terminal signal = None" for k signal
  proof (rule ccontr)
    assume "\<not> ?thesis"
    then have overdue: "compareStrings (sig_expiresAt signal) now \<le> 0" by simp
    have "k \<notin> set due" using signal s'(2) [of k] by (auto simp: read_signal_def swept_terminal split: if_splits)
    then have k: "map_of (sg_byId s) k = Some signal" using signal(1) s'(2) [of k] by (simp add: read_signal_def)
    then have "signal \<in> set (due_signals cmp now n s)"
      using short overdue signal(2) map_of_SomeD [OF k]
      by (force simp: due_def due_signals_def)
    then have "sig_id signal \<in> set due" by (simp add: due_def)
    then show False using ids [OF k] \<open>k \<notin> set due\<close> by simp
  qed
  moreover have "length due \<le> n" by (simp add: due_def due_signals_def)
  moreover have "read_signal k s' = read_signal k s" if "k \<notin> set due" for k
    using s'(2) [of k] that by (simp add: read_signal_def)
  ultimately show ?thesis using run by blast
qed

theorem expiry_sweep_witness:
  "\<exists>due s'. expireDue sample_digest compareStrings None ''7'' (NInt 10)
       (fst (signal_history sample_digest compareStrings [IssueSignal None sample_issue])) = (Inr due, s') \<and>
     read_signal ''signal.o'' s' = Some (sample_signal\<lparr>sig_terminal := Some (Expired ''7'')\<rparr>)"
proof -
  have "occurrences [IssueSignal None sample_issue] = {''o''}" by (simp add: occurrences_def sample_issue_def)
  with sample_free have free: "collision_free sample_digest (occurrences [IssueSignal None sample_issue])" by simp
  have batch: "never_fails None" "assertSignalBatchSize (NInt 10) = Inr 10"
    by (simp_all add: never_fails_def assertSignalBatchSize_def MAX_SAFE_INTEGER_def)
  let ?s = "fst (signal_history sample_digest compareStrings [IssueSignal None sample_issue])"
  have at: "read_signal k ?s = (if k = ''signal.o'' then Some sample_signal else None)" for k
    by (simp add: sample_issued read_signal_def)
  have "signal_history sample_digest compareStrings [IssueSignal None sample_issue] = (?s, [])"
    by (simp add: sample_issued)
  from expiry_sweep [OF free this batch, of "''7''"]
  obtain due s' where run: "expireDue sample_digest compareStrings None ''7'' (NInt 10) ?s = (Inr due, s')"
    and due: "\<And>k. k \<in> set due \<Longrightarrow> \<exists>signal. read_signal k ?s = Some signal \<and>
      read_signal k s' = Some (signal\<lparr>sig_terminal := Some (Expired ''7'')\<rparr>)"
    and kept: "\<And>k. k \<notin> set due \<Longrightarrow> read_signal k s' = read_signal k ?s"
    and left: "\<And>k signal. \<lbrakk>length due < 10; read_signal k s' = Some signal; sig_terminal signal = None\<rbrakk> \<Longrightarrow>
      0 < compareStrings (sig_expiresAt signal) ''7''"
    by blast
  have "''signal.o'' \<in> set due"
  proof (rule ccontr)
    assume out: "''signal.o'' \<notin> set due"
    then have "k \<notin> set due" for k using due [of k] at [of k] by (auto split: if_splits)
    then have "due = []" using list.set_sel(1) by blast
    with left [of "''signal.o''" sample_signal] kept [OF out] at show False
      by (simp add: issued_instance_def sample_issue_def compareStrings_def less_char_def)
  qed
  then show ?thesis using due run at by fastforce
qed

lemma publish_all: "\<lbrakk>\<forall>f \<in> set fs. publish f = None \<and> \<not> aborted f\<rbrakk> \<Longrightarrow> publish_facts publish aborted fs = (fs, None)"
  by (induction fs) auto

lemma fold_delete_prefix:
  assumes "distinct (map fst al)"
  shows "fold (\<lambda>k. AList.delete k) (map fst (take n al)) al = drop n al"
  using assms
proof (induction n arbitrary: al)
  case (Suc n)
  then show ?case by (cases al) (auto simp: AList.delete_id)
qed simp

text \<open>
  C33: The relay makes progress. A round whose callbacks do not fail, on a reachable store with a batch
  size from 1 to 1000, publishes exactly the first batch of pending facts in outbox order and
  acknowledges exactly those; a round that ends with a publisher's error acknowledges none.
\<close>

theorem relay_round_progress:
  assumes "collision_free digest (occurrences calls)" "signal_history digest cmp calls = (s, published)"
    and "assertSignalBatchSize batch = Inr n" "expireDue digest cmp finalize now batch s = (Inr due, s1)"
  shows "((\<forall>f \<in> snd ` set (sg_outbox s1). publish f = None \<and> \<not> aborted f) \<longrightarrow>
      (\<exists>s2. relay_round digest cmp finalize publish aborted now batch s = (take n (map snd (sg_outbox s1)), None, s2) \<and>
         sg_outbox s2 = drop n (sg_outbox s1))) \<and>
    (\<forall>fs e s2. relay_round digest cmp finalize publish aborted now batch s = (fs, Some e, s2) \<longrightarrow> s2 = s1)"
proof -
  have "signals_ok digest (occurrences calls) (s, published)"
    using signals_ok_history [OF assms(1) order_refl, of cmp] assms(2) by simp
  from signals_ok_steps [OF expireDue_steps assms(1) this, of cmp finalize now batch]
  have "outbox_keyed s1" using assms(4) signals_okD(5) by simp
  then have dist: "distinct (map fst (sg_outbox s1))" and ids: "map (fact_id \<circ> snd) (take n (sg_outbox s1)) = map fst (take n (sg_outbox s1))"
    by (auto simp: outbox_keyed_def dest!: in_set_takeD)
  have pending: "pendingOutbox batch s1 = Inr (take n (map snd (sg_outbox s1)))"
    using assms(3) by (auto simp: assertSignalBatchSize_def pendingOutbox_def split: js_number.splits if_splits)
  have "\<exists>s2. relay_round digest cmp finalize publish aborted now batch s = (take n (map snd (sg_outbox s1)), None, s2) \<and>
      sg_outbox s2 = drop n (sg_outbox s1)" if "\<forall>f \<in> snd ` set (sg_outbox s1). publish f = None \<and> \<not> aborted f"
  proof -
    have "publish_facts publish aborted (take n (map snd (sg_outbox s1))) = (take n (map snd (sg_outbox s1)), None)"
      using that by (intro publish_all) (auto dest!: in_set_takeD)
    moreover have "fold (\<lambda>k. AList.delete k) (map fact_id (take n (map snd (sg_outbox s1)))) (sg_outbox s1) = drop n (sg_outbox s1)"
      unfolding take_map map_map ids by (rule fold_delete_prefix [OF dist])
    ultimately show ?thesis
      by (simp add: relay_round_def assms(4) pending acknowledgeOutbox_def)
  qed
  moreover have "s2 = s1" if "relay_round digest cmp finalize publish aborted now batch s = (fs, Some e, s2)" for fs e s2
    using that by (auto simp: relay_round_def assms(4) pending split: prod.splits option.splits)
  ultimately show ?thesis by blast
qed

theorem relay_round_progress_witness:
  "\<exists>s2. relay_round sample_digest compareStrings None (\<lambda>_. None) (\<lambda>_. False) ''2'' (NInt 10)
       (fst (signal_history sample_digest compareStrings [IssueSignal None sample_issue])) =
       ([issued_fact sample_digest sample_signal], None, s2) \<and> sg_outbox s2 = []"
proof -
  have "occurrences [IssueSignal None sample_issue] = {''o''}" by (simp add: occurrences_def sample_issue_def)
  with sample_free have free: "collision_free sample_digest (occurrences [IssueSignal None sample_issue])" by simp
  have batch: "assertSignalBatchSize (NInt 10) = Inr 10"
    by (simp add: assertSignalBatchSize_def MAX_SAFE_INTEGER_def)
  let ?s = "\<lparr>sg_byId = [(''signal.o'', sample_signal)], sg_byOccurrence = [(''o'', ''signal.o'')], sg_resolutionKeys = [],
    sg_outbox = [(''signal.o.issued'', issued_fact sample_digest sample_signal)]\<rparr>"
  have "\<not> compareStrings ''5'' ''2'' \<le> 0" by (simp add: compareStrings_def less_char_def)
  then have "expireDue sample_digest compareStrings None ''2'' (NInt 10) ?s = (Inr [], ?s)"
    by (simp add: expireDue_def batch due_signals_def issued_instance_def sample_issue_def)
  from relay_round_progress [OF free sample_issued [of compareStrings] batch this, of "\<lambda>_. None" "\<lambda>_. False"]
  show ?thesis by (simp add: sample_issued)
qed

end
