(* ===== verification/Scope_Algebra.thy ===== *)
theory Scope_Algebra
  imports Stable_Json
begin

text \<open>
  The scope language of the operation authority,
  \<^verbatim>\<open>packages/core/src/application-operation-authority.ts\<close>: its expressions, their validation,
  normalization and intersection, and the structural subset test of
  \<^verbatim>\<open>packages/operations/src/authority.ts\<close>. The repository never evaluates an expression; its meaning
  is given here by an arbitrary interpretation of the atoms, and every law holds for all of them.
  \<open>scope_env\<close> carries \<open>localeCompare\<close> and the printing of numbers that are not safe integers. An
  expression is data, so \<open>scopeContainsUnreviewedCode\<close>, which looks for functions, finds none.
\<close>

section \<open>Expressions\<close>

datatype ApplicationScopeScalar = ScalarString string | ScalarNumber js_number | ScalarBool bool | ScalarNull

datatype scope_source = SourceTarget | SourcePrincipal | SourceTrustedContext | SourceInput | SourceEvent | SourceResource

datatype ApplicationScopeValue = Literal ApplicationScopeScalar | Reference scope_source string

datatype scope_operator = OpEq | OpNe | OpLt | OpLte | OpGt | OpGte

datatype ApplicationOperationTransport = Direct | Http | Mcp | WorkflowTransport | EventTransport | ControlPlane

datatype context_test = ContextOne bool ApplicationScopeValue | ContextMany bool "ApplicationScopeValue list"
  \<comment> \<open>the operator is \<open>eq\<close> where the flag is false and \<open>in\<close> where it is true\<close>

datatype ApplicationScopeExpression =
    ScopeAll
  | ScopeNone string
  | ScopeTarget string "(string \<times> ApplicationScopeScalar) list"
  | ScopeAnd "ApplicationScopeExpression list"
  | ScopeOr "ApplicationScopeExpression list"
  | ScopeNot ApplicationScopeExpression
  | ScopeCompare string scope_operator ApplicationScopeValue
  | ScopeIn string "ApplicationScopeValue list"
  | ScopeRelationship string string string ApplicationScopeExpression
  | ScopeTransport string ApplicationOperationTransport
  | ScopeAudience string
  | ScopeTrustedContext string context_test

record scope_env =
  env_compare :: "string \<Rightarrow> string \<Rightarrow> int"
  env_number :: "js_number \<Rightarrow> string"

section \<open>Expressions as JSON\<close>

fun scalar_value :: "ApplicationScopeScalar \<Rightarrow> jsval" where
  "scalar_value (ScalarString s) = JString s"
| "scalar_value (ScalarNumber x) = JNumber x"
| "scalar_value (ScalarBool b) = JBool b"
| "scalar_value ScalarNull = JNull"

fun source_text :: "scope_source \<Rightarrow> string" where
  "source_text SourceTarget = ''target''"
| "source_text SourcePrincipal = ''principal''"
| "source_text SourceTrustedContext = ''trusted-context''"
| "source_text SourceInput = ''input''"
| "source_text SourceEvent = ''event''"
| "source_text SourceResource = ''resource''"

fun operator_text :: "scope_operator \<Rightarrow> string" where
  "operator_text OpEq = ''eq''"
| "operator_text OpNe = ''ne''"
| "operator_text OpLt = ''lt''"
| "operator_text OpLte = ''lte''"
| "operator_text OpGt = ''gt''"
| "operator_text OpGte = ''gte''"

fun transport_text :: "ApplicationOperationTransport \<Rightarrow> string" where
  "transport_text Direct = ''direct''"
| "transport_text Http = ''http''"
| "transport_text Mcp = ''mcp''"
| "transport_text WorkflowTransport = ''workflow''"
| "transport_text EventTransport = ''event''"
| "transport_text ControlPlane = ''control-plane''"

fun value_value :: "ApplicationScopeValue \<Rightarrow> jsval" where
  "value_value (Literal v) = JObject [(''kind'', JString ''literal''), (''value'', scalar_value v)]"
| "value_value (Reference source p) =
     JObject [(''kind'', JString ''reference''), (''source'', JString (source_text source)), (''path'', JString p)]"

fun context_members :: "context_test \<Rightarrow> jsobject" where
  "context_members (ContextOne several v) =
     [(''operator'', JString (if several then ''in'' else ''eq'')), (''value'', value_value v)]"
| "context_members (ContextMany several vs) =
     [(''operator'', JString (if several then ''in'' else ''eq'')), (''value'', JArray (map value_value vs))]"

fun scope_value :: "ApplicationScopeExpression \<Rightarrow> jsval" where
  "scope_value ScopeAll = JObject [(''kind'', JString ''all'')]"
| "scope_value (ScopeNone reason) = JObject [(''kind'', JString ''none''), (''reason'', JString reason)]"
| "scope_value (ScopeTarget model identity) =
     JObject [(''kind'', JString ''target''), (''model'', JString model),
       (''identity'', JObject (map (apsnd scalar_value) identity))]"
| "scope_value (ScopeAnd es) = JObject [(''kind'', JString ''and''), (''expressions'', JArray (map scope_value es))]"
| "scope_value (ScopeOr es) = JObject [(''kind'', JString ''or''), (''expressions'', JArray (map scope_value es))]"
| "scope_value (ScopeNot e) = JObject [(''kind'', JString ''not''), (''expression'', scope_value e)]"
| "scope_value (ScopeCompare field oper v) =
     JObject [(''kind'', JString ''compare''), (''field'', JString field), (''operator'', JString (operator_text oper)),
       (''value'', value_value v)]"
| "scope_value (ScopeIn field vs) =
     JObject [(''kind'', JString ''in''), (''field'', JString field), (''values'', JArray (map value_value vs))]"
| "scope_value (ScopeRelationship origin name destination e) =
     JObject [(''kind'', JString ''relationship''), (''from'', JString origin), (''name'', JString name),
       (''to'', JString destination), (''target'', scope_value e)]"
| "scope_value (ScopeTransport bindingId transport) =
     JObject [(''kind'', JString ''transport''), (''bindingId'', JString bindingId),
       (''transport'', JString (transport_text transport))]"
| "scope_value (ScopeAudience audience) = JObject [(''kind'', JString ''audience''), (''audience'', JString audience)]"
| "scope_value (ScopeTrustedContext key test) =
     JObject ([(''kind'', JString ''trusted-context''), (''key'', JString key)] @ context_members test)"

definition stableJson :: "scope_env \<Rightarrow> jsval \<Rightarrow> string" where
  "stableJson env value = JSON_stringify (env_number env) (sortJson (env_compare env) value)"

section \<open>Normalization and intersection\<close>

fun is_all :: "ApplicationScopeExpression \<Rightarrow> bool" where
  "is_all ScopeAll = True"
| "is_all _ = False"

fun is_none :: "ApplicationScopeExpression \<Rightarrow> bool" where
  "is_none (ScopeNone reason) = True"
| "is_none _ = False"

fun conjuncts :: "ApplicationScopeExpression \<Rightarrow> ApplicationScopeExpression list" where
  "conjuncts (ScopeAnd es) = es"
| "conjuncts e = [e]"

fun disjuncts :: "ApplicationScopeExpression \<Rightarrow> ApplicationScopeExpression list" where
  "disjuncts (ScopeOr es) = es"
| "disjuncts e = [e]"

definition dedupe_step :: "('a \<Rightarrow> 'k) \<Rightarrow> 'a \<Rightarrow> 'k list \<times> 'a list \<Rightarrow> 'k list \<times> 'a list" where
  "dedupe_step key x state =
     (let (seen, result) = state; k = key x
      in if k \<in> set seen then (seen, result) else (k # seen, x # result))"

definition deduplicateScopes :: "scope_env \<Rightarrow> ApplicationScopeExpression list \<Rightarrow> ApplicationScopeExpression list" where
  "deduplicateScopes env expressions =
     rev (snd (fold (dedupe_step (\<lambda>e. canonicalJson_core (env_compare env) (env_number env) (scope_value e)))
       expressions ([], [])))"

text \<open>What the last step of the normalization of a conjunction or a union makes of its parts.\<close>

definition join_scopes ::
  "(ApplicationScopeExpression list \<Rightarrow> ApplicationScopeExpression) \<Rightarrow> ApplicationScopeExpression \<Rightarrow> scope_env \<Rightarrow>
   ApplicationScopeExpression list \<Rightarrow> ApplicationScopeExpression" where
  "join_scopes build unit_scope env es =
     (case es of [] \<Rightarrow> unit_scope | [e] \<Rightarrow> e | _ \<Rightarrow> build (deduplicateScopes env es))"

lemma size_conjunct: "e \<in> set (concat (map conjuncts es)) \<Longrightarrow> size e < size (ScopeAnd es)"
proof (induction es)
  case (Cons f es)
  then show ?case by (cases f) (fastforce dest: size_list_estimation' [where f = size and y = "size e", OF _ order_refl])+
qed simp

lemma size_disjunct: "e \<in> set (concat (map disjuncts es)) \<Longrightarrow> size e < size (ScopeOr es)"
proof (induction es)
  case (Cons f es)
  then show ?case by (cases f) (fastforce dest: size_list_estimation' [where f = size and y = "size e", OF _ order_refl])+
qed simp

function normalizeApplicationScope :: "scope_env \<Rightarrow> ApplicationScopeExpression \<Rightarrow> ApplicationScopeExpression" where
  "normalizeApplicationScope env (ScopeAnd es) =
     (let filtered = filter (\<lambda>e. \<not> is_all e) (map (normalizeApplicationScope env) (concat (map conjuncts es)))
      in case find is_none filtered of
           Some nothing \<Rightarrow> nothing
         | None \<Rightarrow> join_scopes ScopeAnd ScopeAll env filtered)"
| "normalizeApplicationScope env (ScopeOr es) =
     (let filtered = filter (\<lambda>e. \<not> is_none e) (map (normalizeApplicationScope env) (concat (map disjuncts es)))
      in if list_ex is_all filtered then ScopeAll
         else join_scopes ScopeOr (ScopeNone ''scope union is empty'') env filtered)"
| "normalizeApplicationScope env ScopeAll = ScopeAll"
| "normalizeApplicationScope env (ScopeNone reason) = ScopeNone reason"
| "normalizeApplicationScope env (ScopeTarget model identity) = ScopeTarget model identity"
| "normalizeApplicationScope env (ScopeNot e) = ScopeNot e"
| "normalizeApplicationScope env (ScopeCompare field oper v) = ScopeCompare field oper v"
| "normalizeApplicationScope env (ScopeIn field vs) = ScopeIn field vs"
| "normalizeApplicationScope env (ScopeRelationship origin name destination e) = ScopeRelationship origin name destination e"
| "normalizeApplicationScope env (ScopeTransport bindingId transport) = ScopeTransport bindingId transport"
| "normalizeApplicationScope env (ScopeAudience audience) = ScopeAudience audience"
| "normalizeApplicationScope env (ScopeTrustedContext key test) = ScopeTrustedContext key test"
  by pat_completeness auto
termination
  by (relation "measure (size \<circ> snd)") (simp_all only: in_measure comp_apply snd_conv size_conjunct size_disjunct wf_measure)

declare normalizeApplicationScope.simps(1,2) [simp del]

definition intersectApplicationScopes :: "scope_env \<Rightarrow> ApplicationScopeExpression list \<Rightarrow> ApplicationScopeExpression" where
  "intersectApplicationScopes env expressions = normalizeApplicationScope env (ScopeAnd expressions)"

section \<open>Validation\<close>

record ApplicationAuthorityDiagnostic =
  ad_code :: string
  ad_message :: string
  ad_path :: string

definition invalid_scope :: "string \<Rightarrow> string \<Rightarrow> ApplicationAuthorityDiagnostic" where
  "invalid_scope message p = \<lparr>ad_code = ''AUTHORITY_INVALID_SCOPE'', ad_message = message, ad_path = p\<rparr>"

fun js_split :: "char \<Rightarrow> string \<Rightarrow> string list" where
  "js_split sep [] = [[]]"
| "js_split sep (c # cs) =
     (if c = sep then [] # js_split sep cs
      else (case js_split sep cs of [] \<Rightarrow> [[c]] | s # ss \<Rightarrow> (c # s) # ss))"

definition forbidden_segment :: "string \<Rightarrow> bool" where
  "forbidden_segment segment =
     (segment = [] \<or> segment = ''__proto__'' \<or> segment = ''prototype'' \<or> segment = ''constructor'')"

definition validateScopePath :: "string \<Rightarrow> string \<Rightarrow> ApplicationAuthorityDiagnostic list" where
  "validateScopePath value p =
     (if trim value \<noteq> [] \<and> \<not> list_ex forbidden_segment (js_split CHR ''.'' value) then []
      else [invalid_scope (''Authority scope path '' @ (if value = [] then ''<empty>'' else value) @ '' is invalid.'') p])"

fun validateScopeValue :: "ApplicationScopeValue \<Rightarrow> string \<Rightarrow> ApplicationAuthorityDiagnostic list" where
  "validateScopeValue (Literal v) p = []"
| "validateScopeValue (Reference source q) p = validateScopePath q (p @ ''.path'')"

definition indexed :: "string \<Rightarrow> string \<Rightarrow> nat \<Rightarrow> string" where
  "indexed p member i = p @ member @ ''['' @ nat_to_string i @ '']''"

definition validate_values :: "string \<Rightarrow> string \<Rightarrow> ApplicationScopeValue list \<Rightarrow> ApplicationAuthorityDiagnostic list" where
  "validate_values p member vs =
     concat (map (\<lambda>(i, v). validateScopeValue v (indexed p member i)) (List.enumerate 0 vs))"

fun context_values :: "context_test \<Rightarrow> ApplicationScopeValue list" where
  "context_values (ContextOne several v) = [v]"
| "context_values (ContextMany several vs) = vs"

fun validateApplicationScope :: "ApplicationScopeExpression \<Rightarrow> string \<Rightarrow> ApplicationAuthorityDiagnostic list"
  and validate_each :: "string \<Rightarrow> nat \<Rightarrow> ApplicationScopeExpression list \<Rightarrow> ApplicationAuthorityDiagnostic list"
where
  "validateApplicationScope ScopeAll p = []"
| "validateApplicationScope (ScopeNone reason) p =
     (if trim reason \<noteq> [] then []
      else [invalid_scope ''A deny-all scope must explain why it is empty.'' (p @ ''.reason'')])"
| "validateApplicationScope (ScopeTarget model identity) p =
     (if trim model \<noteq> [] \<and> identity \<noteq> [] then []
      else [invalid_scope ''An exact target scope requires a model and at least one identity field.'' p])"
| "validateApplicationScope (ScopeAnd es) p =
     (if es = [] then [invalid_scope ''and scope composition must contain at least one expression.'' p]
      else validate_each p 0 es)"
| "validateApplicationScope (ScopeOr es) p =
     (if es = [] then [invalid_scope ''or scope composition must contain at least one expression.'' p]
      else validate_each p 0 es)"
| "validateApplicationScope (ScopeNot e) p = validateApplicationScope e (p @ ''.expression'')"
| "validateApplicationScope (ScopeCompare field oper v) p =
     validateScopePath field (p @ ''.field'') @ validateScopeValue v (p @ ''.value'')"
| "validateApplicationScope (ScopeIn field vs) p =
     validateScopePath field (p @ ''.field'') @
     (if vs = [] then [invalid_scope ''A membership scope must contain at least one value.'' (p @ ''.values'')]
      else validate_values p ''.values'' vs)"
| "validateApplicationScope (ScopeRelationship origin name destination e) p =
     validateScopePath origin (p @ ''.from'') @ validateScopePath name (p @ ''.name'') @
     validateScopePath destination (p @ ''.to'') @ validateApplicationScope e (p @ ''.target'')"
| "validateApplicationScope (ScopeTransport bindingId transport) p =
     (if trim bindingId \<noteq> [] then []
      else [invalid_scope ''A transport scope requires a stable binding id.'' (p @ ''.bindingId'')])"
| "validateApplicationScope (ScopeAudience audience) p =
     (if trim audience \<noteq> [] then []
      else [invalid_scope ''An audience scope cannot be empty.'' (p @ ''.audience'')])"
| "validateApplicationScope (ScopeTrustedContext key test) p =
     validateScopePath key (p @ ''.key'') @
     (if context_values test = []
      then [invalid_scope ''A trusted-context membership scope must contain at least one value.'' (p @ ''.value'')]
      else validate_values p ''.value'' (context_values test))"
| "validate_each p i [] = []"
| "validate_each p i (e # es) = validateApplicationScope e (indexed p ''.expressions'' i) @ validate_each p (Suc i) es"

section \<open>The subset test\<close>

datatype authority_error = ApplicationAuthorityError string string

fun isProvableScopeSubset :: "scope_env \<Rightarrow> ApplicationScopeExpression \<Rightarrow> ApplicationScopeExpression \<Rightarrow> bool" where
  "isProvableScopeSubset env candidate maximum =
     (if is_all maximum \<or> is_none candidate then True
      else if stableJson env (scope_value candidate) = stableJson env (scope_value maximum) then True
      else (case candidate of
              ScopeOr branches \<Rightarrow> list_all (\<lambda>branch. isProvableScopeSubset env branch maximum) branches
            | _ \<Rightarrow>
                (case maximum of
                   ScopeOr branches \<Rightarrow> list_ex (\<lambda>branch. isProvableScopeSubset env candidate branch) branches
                 | ScopeAnd restrictions \<Rightarrow> list_all (\<lambda>restriction. isProvableScopeSubset env candidate restriction) restrictions
                 | _ \<Rightarrow>
                     (case candidate of
                        ScopeAnd restrictions \<Rightarrow> list_ex (\<lambda>restriction. isProvableScopeSubset env restriction maximum) restrictions
                      | _ \<Rightarrow> False))))"

declare isProvableScopeSubset.simps [simp del]

definition assertScopeNotBroader ::
  "scope_env \<Rightarrow> ApplicationScopeExpression \<Rightarrow> ApplicationScopeExpression \<Rightarrow> string \<Rightarrow> authority_error option" where
  "assertScopeNotBroader env candidate maximum k =
     (if isProvableScopeSubset env (normalizeApplicationScope env candidate) (normalizeApplicationScope env maximum)
      then None
      else Some (ApplicationAuthorityError ''AUTHORITY_DELEGATION_BROADENING''
        (''Authority '' @ k @ '' scope is not a provable subset of its maximum.'')))"

definition validateScopeOrThrow :: "ApplicationScopeExpression \<Rightarrow> string \<Rightarrow> authority_error option" where
  "validateScopeOrThrow scope p =
     (let diagnostics = validateApplicationScope scope p
      in if diagnostics \<noteq> [] then Some (ApplicationAuthorityError ''AUTHORITY_INVALID_SCOPE''
           (js_join '' '' (map ad_message diagnostics)))
         else None)"

end
