(* ===== verification/Operation_Catalog.thy ===== *)
theory Operation_Catalog
  imports Scope_Algebra
begin

text \<open>
  The operation catalog, \<^verbatim>\<open>packages/operations/src/catalog.ts\<close>, with its contracts of
  \<^verbatim>\<open>packages/core/src/application-operation-authority.ts\<close>: the comparison of two revisions, the
  manager's transitions and the in-memory repository. A descriptor holds the fields these routines
  read (a schema or a target identity is its digest). The transactions of the repository run one
  after another, so each transition is one step on the store; it returns the thrown error or its
  result with the next store. \<open>now\<close> is the manager's clock, \<open>cmp\<close> is \<open>localeCompare\<close>.
\<close>

section \<open>Contracts\<close>

datatype authority_classification = Unclassified | Public | Assigned | RuntimeGrantable | ApplicationPolicy

datatype ApplicationAuthorizationBoundary =
  Admission | Enqueue | Execution | ProtectedStep | PreCommit | ResultRead | SubscriptionResume

record ApplicationOperationReplacement =
  rpl_operationId :: string
  rpl_compatible :: bool
  rpl_migration :: "string option"

record ApplicationOperationAuthorityDescriptor =
  oa_classification :: authority_classification
  oa_grantable :: bool
  oa_delegable :: bool
  oa_checks :: "ApplicationAuthorizationBoundary list"
  oa_defaultScope :: ApplicationScopeExpression
  oa_audiences :: "string list option"
  oa_transports :: "ApplicationOperationTransport list option"

record ApplicationOperationDescriptor =
  od_id :: string
  od_version :: string
  od_name :: string
  od_kind :: string
  od_input :: string
  od_output :: string
  od_target :: "string option"
  od_authority :: ApplicationOperationAuthorityDescriptor
  od_replaces :: "ApplicationOperationReplacement option"

datatype ApplicationCatalogState = Proposed | Staged | Active | Draining | Retired

record ApplicationOperationCatalog =
  oc_application :: string
  oc_revision :: string
  oc_digest :: string
  oc_state :: ApplicationCatalogState
  oc_operations :: "ApplicationOperationDescriptor list"
  oc_predecessor :: "string option"
  oc_stagedAt :: "string option"
  oc_activatedAt :: "string option"
  oc_drainingAt :: "string option"
  oc_retiredAt :: "string option"

datatype change_kind = Added | Removed | Compatible | Narrowed | Broadened | Replaced | Incompatible

record ApplicationOperationCompatibilityChange =
  ch_operationId :: string
  ch_kind :: change_kind
  ch_message :: string
  ch_replacement :: "ApplicationOperationReplacement option"

record ApplicationOperationCompatibilityReport =
  cr_fromRevision :: string
  cr_toRevision :: string
  cr_compatible :: bool
  cr_changes :: "ApplicationOperationCompatibilityChange list"
  cr_blockingGrantIds :: "string list"
  cr_blockingEnvelopeIds :: "string list"
  cr_blockingWorkflowIds :: "string list"
  cr_blockingSessionIds :: "string list"

fun catalog_state_text :: "ApplicationCatalogState \<Rightarrow> string" where
  "catalog_state_text Proposed = ''proposed''"
| "catalog_state_text Staged = ''staged''"
| "catalog_state_text Active = ''active''"
| "catalog_state_text Draining = ''draining''"
| "catalog_state_text Retired = ''retired''"

section \<open>Validation of a catalog\<close>

definition starts_with :: "string \<Rightarrow> string \<Rightarrow> bool" where
  "starts_with p s = (take (length p) s = p)"

fun includes_text :: "string \<Rightarrow> string \<Rightarrow> bool" where
  "includes_text p [] = (p = [])"
| "includes_text p (c # cs) = (starts_with p (c # cs) \<or> includes_text p cs)"

definition operation_diagnostics ::
  "bool \<Rightarrow> string \<Rightarrow> string list \<Rightarrow> nat \<Rightarrow> ApplicationOperationDescriptor \<Rightarrow> ApplicationAuthorityDiagnostic list" where
  "operation_diagnostics requireClassified revision ids i operation =
     (let p = ''operations['' @ nat_to_string i @ '']''
      in (if \<not> starts_with ''applik8s://'' (od_id operation) \<or> includes_text ''/actions/'' (od_id operation)
          then [\<lparr>ad_code = ''AUTHORITY_INVALID_OPERATION_ID'',
                 ad_message = ''Operation '' @ od_name operation @ '' must use a stable applik8s://.../operations/... identity.'',
                 ad_path = p @ ''.id''\<rparr>] else []) @
         (if od_id operation \<in> set ids
          then [\<lparr>ad_code = ''AUTHORITY_DUPLICATE_OPERATION'',
                 ad_message = ''Operation identity '' @ od_id operation @ '' appears more than once in catalog '' @ revision @ ''.'',
                 ad_path = p @ ''.id''\<rparr>] else []) @
         (if requireClassified \<and> oa_classification (od_authority operation) = Unclassified
          then [\<lparr>ad_code = ''AUTHORITY_UNCLASSIFIED_OPERATION'',
                 ad_message = ''Operation '' @ od_id operation @ '' is externally reachable but has no authority classification.'',
                 ad_path = p @ ''.authority.classification''\<rparr>] else []) @
         validateApplicationScope (oa_defaultScope (od_authority operation)) (p @ ''.authority.defaultScope''))"

fun operations_diagnostics ::
  "bool \<Rightarrow> string \<Rightarrow> string list \<Rightarrow> nat \<Rightarrow> ApplicationOperationDescriptor list \<Rightarrow> ApplicationAuthorityDiagnostic list" where
  "operations_diagnostics requireClassified revision ids i [] = []"
| "operations_diagnostics requireClassified revision ids i (operation # operations) =
     operation_diagnostics requireClassified revision ids i operation @
     operations_diagnostics requireClassified revision (od_id operation # ids) (Suc i) operations"

definition validateApplicationOperationCatalog ::
  "ApplicationOperationCatalog \<Rightarrow> bool \<Rightarrow> ApplicationAuthorityDiagnostic list" where
  "validateApplicationOperationCatalog catalog requireClassified =
     operations_diagnostics requireClassified (oc_revision catalog) [] 0 (oc_operations catalog)"

section \<open>Comparing two revisions\<close>

record ApplicationCatalogReferenceSnapshot =
  rf_grantIds :: "string list"
  rf_envelopeIds :: "string list"
  rf_workflowIds :: "string list"
  rf_sessionIds :: "string list"
  rf_operationIdsByReference :: "(string \<times> string list) list"

definition no_references :: ApplicationCatalogReferenceSnapshot where
  "no_references = \<lparr>rf_grantIds = [], rf_envelopeIds = [], rf_workflowIds = [], rf_sessionIds = [],
     rf_operationIdsByReference = []\<rparr>"

definition referenceOperationKey :: "string \<Rightarrow> string \<Rightarrow> string" where
  "referenceOperationKey kind referenceId = kind @ '':'' @ referenceId"

definition compareOperation ::
  "ApplicationOperationDescriptor \<Rightarrow> ApplicationOperationDescriptor \<Rightarrow> change_kind \<times> string" where
  "compareOperation before after =
     (if od_kind before \<noteq> od_kind after \<or> od_target before \<noteq> od_target after
      then (Incompatible, ''Operation '' @ od_id before @ '' changed kind or target identity.'')
      else if od_input before \<noteq> od_input after \<or> od_output before \<noteq> od_output after
      then (Incompatible, ''Operation '' @ od_id before @ '' changed its input or output schema.'')
      else if oa_classification (od_authority before) \<noteq> oa_classification (od_authority after) \<or>
        oa_delegable (od_authority before) \<noteq> oa_delegable (od_authority after) \<or>
        oa_grantable (od_authority before) \<noteq> oa_grantable (od_authority after)
      then (Incompatible, ''Operation '' @ od_id before @ '' changed its authority classification.'')
      else (Compatible, ''Operation '' @ od_id before @ '' remains compatible.''))"

text \<open>\<open>new Map(entries)\<close>: the last entry of a key wins.\<close>

definition new_map :: "('k \<times> 'v) list \<Rightarrow> 'k \<Rightarrow> 'v option" where
  "new_map entries = map_of (rev entries)"

definition replacementsByPriorId ::
  "ApplicationOperationCatalog \<Rightarrow> string \<Rightarrow> (ApplicationOperationReplacement \<times> ApplicationOperationDescriptor) option" where
  "replacementsByPriorId to =
     new_map (concat (map (\<lambda>operation. case od_replaces operation of None \<Rightarrow> []
       | Some r \<Rightarrow> [(rpl_operationId r, (r, operation))]) (oc_operations to)))"

definition operation_change ::
  "ApplicationOperationCatalog \<Rightarrow> ApplicationOperationDescriptor \<Rightarrow> ApplicationOperationCompatibilityChange" where
  "operation_change to operation =
     (case new_map (map (\<lambda>candidate. (od_id candidate, candidate)) (oc_operations to)) (od_id operation) of
        None \<Rightarrow>
          (case replacementsByPriorId to (od_id operation) of
             None \<Rightarrow>
               \<lparr>ch_operationId = od_id operation, ch_kind = Removed,
                ch_message = ''Operation '' @ od_id operation @ '' was removed without a compatible replacement.'',
                ch_replacement = None\<rparr>
           | Some (r, replacement) \<Rightarrow>
               \<lparr>ch_operationId = od_id operation, ch_kind = (if rpl_compatible r then Replaced else Removed),
                ch_message =
                  (if rpl_compatible r then ''Operation '' @ od_id operation @ '' is replaced by '' @ od_id replacement @ ''.''
                   else ''Operation '' @ od_id operation @ '' was removed without a compatible replacement.''),
                ch_replacement = Some (r\<lparr>rpl_operationId := od_id replacement\<rparr>)\<rparr>)
      | Some after \<Rightarrow>
          \<lparr>ch_operationId = od_id operation, ch_kind = fst (compareOperation operation after),
           ch_message = snd (compareOperation operation after), ch_replacement = None\<rparr>)"

definition catalog_changes ::
  "ApplicationOperationCatalog \<Rightarrow> ApplicationOperationCatalog \<Rightarrow> ApplicationOperationCompatibilityChange list" where
  "catalog_changes before to =
     map (operation_change to) (oc_operations before) @
     map (\<lambda>operation. \<lparr>ch_operationId = od_id operation, ch_kind = Added,
         ch_message = ''Operation '' @ od_id operation @ '' was added.'', ch_replacement = None\<rparr>)
       (filter (\<lambda>operation. od_id operation \<notin> od_id ` set (oc_operations before) \<and> od_replaces operation = None)
          (oc_operations to))"

definition incompatible_operations :: "ApplicationOperationCompatibilityChange list \<Rightarrow> string list" where
  "incompatible_operations changes =
     map ch_operationId (filter (\<lambda>change. ch_kind change = Removed \<or> ch_kind change = Incompatible) changes)"

definition blocking :: "string list \<Rightarrow> ApplicationCatalogReferenceSnapshot \<Rightarrow> string \<Rightarrow> string list \<Rightarrow> string list" where
  "blocking incompatible references kind ids =
     (if incompatible = [] then []
      else filter (\<lambda>k. case map_of (rf_operationIdsByReference references) (referenceOperationKey kind k) of
               None \<Rightarrow> True
             | Some operationIds \<Rightarrow> operationIds = [] \<or> list_ex (\<lambda>operationId. operationId \<in> set incompatible) operationIds) ids)"

definition compareApplicationOperationCatalogs ::
  "ApplicationOperationCatalog \<Rightarrow> ApplicationOperationCatalog \<Rightarrow> ApplicationCatalogReferenceSnapshot \<Rightarrow>
   ApplicationOperationCompatibilityReport" where
  "compareApplicationOperationCatalogs before to references =
     (let changes = catalog_changes before to; incompatible = incompatible_operations changes
      in \<lparr>cr_fromRevision = oc_revision before, cr_toRevision = oc_revision to, cr_compatible = (incompatible = []),
          cr_changes = changes,
          cr_blockingGrantIds = blocking incompatible references ''grant'' (rf_grantIds references),
          cr_blockingEnvelopeIds = blocking incompatible references ''envelope'' (rf_envelopeIds references),
          cr_blockingWorkflowIds = blocking incompatible references ''workflow'' (rf_workflowIds references),
          cr_blockingSessionIds = blocking incompatible references ''session'' (rf_sessionIds references)\<rparr>)"

section \<open>The in-memory repository\<close>

record catalog_store =
  cs_catalogs :: "(string \<times> ApplicationOperationCatalog) list"
  cs_references :: "(string \<times> ApplicationCatalogReferenceSnapshot) list"

definition InMemoryApplicationOperationCatalogRepository :: catalog_store where
  "InMemoryApplicationOperationCatalogRepository = \<lparr>cs_catalogs = [], cs_references = []\<rparr>"

definition catalogKey :: "string \<Rightarrow> string \<Rightarrow> string" where
  "catalogKey application revision = application @ [CHR 0x00] @ revision"

definition catalog_list ::
  "(string \<Rightarrow> string \<Rightarrow> int) \<Rightarrow> catalog_store \<Rightarrow> string \<Rightarrow> ApplicationOperationCatalog list" where
  "catalog_list cmp s application =
     js_sort (\<lambda>left right. cmp (oc_revision left) (oc_revision right))
       (filter (\<lambda>catalog. oc_application catalog = application) (map snd (cs_catalogs s)))"

definition catalog_get :: "catalog_store \<Rightarrow> string \<Rightarrow> string \<Rightarrow> ApplicationOperationCatalog option" where
  "catalog_get s application revision = map_of (cs_catalogs s) (catalogKey application revision)"

definition catalog_put :: "ApplicationOperationCatalog \<Rightarrow> catalog_store \<Rightarrow> catalog_store" where
  "catalog_put catalog s =
     s\<lparr>cs_catalogs := AList.update (catalogKey (oc_application catalog) (oc_revision catalog)) catalog (cs_catalogs s)\<rparr>"

definition catalog_references :: "catalog_store \<Rightarrow> string \<Rightarrow> string \<Rightarrow> ApplicationCatalogReferenceSnapshot" where
  "catalog_references s application revision =
     (case map_of (cs_references s) (catalogKey application revision) of None \<Rightarrow> no_references | Some r \<Rightarrow> r)"

definition setReferences ::
  "string \<Rightarrow> string \<Rightarrow> ApplicationCatalogReferenceSnapshot \<Rightarrow> catalog_store \<Rightarrow> catalog_store" where
  "setReferences application revision references s =
     s\<lparr>cs_references := AList.update (catalogKey application revision) references (cs_references s)\<rparr>"

text \<open>\<open>[...new Set(values)].sort()\<close>.\<close>

definition sorted_set :: "string list \<Rightarrow> string list" where
  "sorted_set vs = js_sort compareStrings (remdups vs)"

datatype reference_kind = GrantReference | EnvelopeReference | WorkflowReference | SessionReference

fun reference_kind_text :: "reference_kind \<Rightarrow> string" where
  "reference_kind_text GrantReference = ''grant''"
| "reference_kind_text EnvelopeReference = ''envelope''"
| "reference_kind_text WorkflowReference = ''workflow''"
| "reference_kind_text SessionReference = ''session''"

fun referenceKindField :: "reference_kind \<Rightarrow> (string list \<Rightarrow> string list) \<Rightarrow>
    ApplicationCatalogReferenceSnapshot \<Rightarrow> ApplicationCatalogReferenceSnapshot" where
  "referenceKindField GrantReference f r = r\<lparr>rf_grantIds := f (rf_grantIds r)\<rparr>"
| "referenceKindField EnvelopeReference f r = r\<lparr>rf_envelopeIds := f (rf_envelopeIds r)\<rparr>"
| "referenceKindField WorkflowReference f r = r\<lparr>rf_workflowIds := f (rf_workflowIds r)\<rparr>"
| "referenceKindField SessionReference f r = r\<lparr>rf_sessionIds := f (rf_sessionIds r)\<rparr>"

definition putReference ::
  "string \<Rightarrow> string \<Rightarrow> reference_kind \<Rightarrow> string \<Rightarrow> string list \<Rightarrow> catalog_store \<Rightarrow> catalog_store" where
  "putReference application revision kind referenceId operationIds s =
     (let current = catalog_references s application revision;
          updated = (referenceKindField kind (\<lambda>ids. sorted_set (ids @ [referenceId])) current)
            \<lparr>rf_operationIdsByReference :=
               AList.update (referenceOperationKey (reference_kind_text kind) referenceId) (sorted_set operationIds)
                 (rf_operationIdsByReference current)\<rparr>
      in s\<lparr>cs_references := AList.update (catalogKey application revision) updated (cs_references s)\<rparr>)"

definition removeReference :: "string \<Rightarrow> string \<Rightarrow> reference_kind \<Rightarrow> string \<Rightarrow> catalog_store \<Rightarrow> catalog_store" where
  "removeReference application revision kind referenceId s =
     (let current = catalog_references s application revision;
          updated = (referenceKindField kind (filter (\<lambda>candidate. candidate \<noteq> referenceId)) current)
            \<lparr>rf_operationIdsByReference :=
               filter (\<lambda>(key, _). key \<noteq> referenceOperationKey (reference_kind_text kind) referenceId)
                 (rf_operationIdsByReference current)\<rparr>
      in s\<lparr>cs_references := AList.update (catalogKey application revision) updated (cs_references s)\<rparr>)"

section \<open>The manager\<close>

datatype catalog_error = ApplicationCatalogError string string

record ApplicationCatalogTransition =
  tr_catalog :: ApplicationOperationCatalog
  tr_predecessor :: "ApplicationOperationCatalog option"
  tr_compatibility :: "ApplicationOperationCompatibilityReport option"

definition active_catalog ::
  "(string \<Rightarrow> string \<Rightarrow> int) \<Rightarrow> catalog_store \<Rightarrow> string \<Rightarrow> ApplicationOperationCatalog option" where
  "active_catalog cmp s application = find (\<lambda>candidate. oc_state candidate = Active) (catalog_list cmp s application)"

definition predecessor_of ::
  "(string \<Rightarrow> string \<Rightarrow> int) \<Rightarrow> catalog_store \<Rightarrow> string \<Rightarrow> ApplicationOperationCatalog \<Rightarrow>
   ApplicationOperationCatalog option" where
  "predecessor_of cmp s application catalog =
     (case truthy_text (oc_predecessor catalog) of
        Some revision \<Rightarrow> catalog_get s application revision
      | None \<Rightarrow> active_catalog cmp s application)"

definition stage ::
  "(string \<Rightarrow> string \<Rightarrow> int) \<Rightarrow> string \<Rightarrow> ApplicationOperationCatalog \<Rightarrow> catalog_store \<Rightarrow>
   catalog_error + ApplicationCatalogTransition \<times> catalog_store" where
  "stage cmp now catalog s =
     (let diagnostics = validateApplicationOperationCatalog catalog True
      in if diagnostics \<noteq> []
         then Inl (ApplicationCatalogError ''CATALOG_INVALID'' (''Operation catalog '' @ oc_revision catalog @
           '' is invalid: '' @ js_join '' '' (map ad_message diagnostics)))
         else if oc_state catalog \<noteq> Proposed
         then Inl (ApplicationCatalogError ''CATALOG_INVALID_STATE'' (''Only proposed catalogs can be staged; '' @
           oc_revision catalog @ '' is '' @ catalog_state_text (oc_state catalog) @ ''.''))
         else (case catalog_get s (oc_application catalog) (oc_revision catalog) of
                 Some existing \<Rightarrow>
                   (if oc_digest existing \<noteq> oc_digest catalog
                    then Inl (ApplicationCatalogError ''CATALOG_REVISION_CONFLICT'' (''Catalog revision '' @
                      oc_revision catalog @ '' already exists with digest '' @ oc_digest existing @ ''.''))
                    else (let predecessor = predecessor_of cmp s (oc_application catalog) existing
                          in Inr (\<lparr>tr_catalog = existing, tr_predecessor = predecessor,
                               tr_compatibility = map_option (\<lambda>p. compareApplicationOperationCatalogs p existing no_references)
                                 predecessor\<rparr>, s)))
               | None \<Rightarrow>
                   (let active = active_catalog cmp s (oc_application catalog);
                        predecessor = predecessor_of cmp s (oc_application catalog) catalog
                    in if (case active of None \<Rightarrow> False
                           | Some a \<Rightarrow> map_option oc_revision predecessor \<noteq> Some (oc_revision a))
                       then Inl (ApplicationCatalogError ''CATALOG_PREDECESSOR_MISMATCH'' (''Catalog '' @ oc_revision catalog @
                         '' must name active revision '' @ oc_revision (the active) @ '' as its predecessor.''))
                       else (let staged = catalog\<lparr>oc_state := Staged, oc_stagedAt := Some now\<rparr>
                             in Inr (\<lparr>tr_catalog = staged, tr_predecessor = predecessor,
                                  tr_compatibility = map_option (\<lambda>p. compareApplicationOperationCatalogs p catalog no_references)
                                    predecessor\<rparr>, catalog_put staged s)))))"

definition requiredCatalog :: "catalog_store \<Rightarrow> string \<Rightarrow> string \<Rightarrow> catalog_error + ApplicationOperationCatalog" where
  "requiredCatalog s application revision =
     (case catalog_get s application revision of
        None \<Rightarrow> Inl (ApplicationCatalogError ''CATALOG_NOT_FOUND'' (''Operation catalog '' @ application @ ''/'' @ revision @
          '' does not exist.''))
      | Some catalog \<Rightarrow> Inr catalog)"

definition blocking_references :: "ApplicationOperationCompatibilityReport \<Rightarrow> string list" where
  "blocking_references report = cr_blockingGrantIds report @ cr_blockingEnvelopeIds report @
     cr_blockingWorkflowIds report @ cr_blockingSessionIds report"

definition activate ::
  "(string \<Rightarrow> string \<Rightarrow> int) \<Rightarrow> string \<Rightarrow> string \<Rightarrow> string \<Rightarrow> catalog_store \<Rightarrow>
   catalog_error + ApplicationCatalogTransition \<times> catalog_store" where
  "activate cmp now application revision s =
     (case requiredCatalog s application revision of
        Inl e \<Rightarrow> Inl e
      | Inr candidate \<Rightarrow>
          (if oc_state candidate = Active
           then Inr (\<lparr>tr_catalog = candidate, tr_predecessor = None, tr_compatibility = None\<rparr>, s)
           else if oc_state candidate \<noteq> Staged
           then Inl (ApplicationCatalogError ''CATALOG_INVALID_STATE'' (''Catalog '' @ revision @
             '' must be staged before activation; it is '' @ catalog_state_text (oc_state candidate) @ ''.''))
           else (let active = active_catalog cmp s application;
                     compatibility = map_option (\<lambda>a. compareApplicationOperationCatalogs a candidate
                       (catalog_references s application (oc_revision a))) active;
                     blocked = (case compatibility of None \<Rightarrow> [] | Some report \<Rightarrow>
                       if cr_compatible report then [] else blocking_references report)
                 in if blocked \<noteq> []
                    then Inl (ApplicationCatalogError ''CATALOG_INCOMPATIBLE'' (''Catalog '' @ revision @
                      '' cannot activate while incompatible operations remain referenced: '' @ js_join '', '' blocked @
                      ''. Migrate or drain those durable references before activation.''))
                    else (let s1 = (case active of None \<Rightarrow> s
                                    | Some a \<Rightarrow> catalog_put (a\<lparr>oc_state := Draining, oc_drainingAt := Some now\<rparr>) s);
                              activated = candidate\<lparr>oc_state := Active, oc_activatedAt := Some now\<rparr>
                          in Inr (\<lparr>tr_catalog = activated, tr_predecessor = active, tr_compatibility = compatibility\<rparr>,
                               catalog_put activated s1)))))"

definition retire ::
  "string \<Rightarrow> string \<Rightarrow> string \<Rightarrow> catalog_store \<Rightarrow> catalog_error + ApplicationOperationCatalog \<times> catalog_store" where
  "retire now application revision s =
     (case requiredCatalog s application revision of
        Inl e \<Rightarrow> Inl e
      | Inr catalog \<Rightarrow>
          (if oc_state catalog = Retired then Inr (catalog, s)
           else if oc_state catalog \<noteq> Draining
           then Inl (ApplicationCatalogError ''CATALOG_INVALID_STATE'' (''Only a draining catalog can retire; '' @ revision @
             '' is '' @ catalog_state_text (oc_state catalog) @ ''.''))
           else (let references = catalog_references s application revision;
                     live = rf_grantIds references @ rf_envelopeIds references @ rf_workflowIds references @ rf_sessionIds references
                 in if live \<noteq> []
                    then Inl (ApplicationCatalogError ''CATALOG_REFERENCED'' (''Catalog '' @ revision @ '' still has '' @
                      nat_to_string (length live) @ '' live reference(s): '' @ js_join '', '' live @ ''.''))
                    else (let retired = catalog\<lparr>oc_state := Retired, oc_retiredAt := Some now\<rparr>
                          in Inr (retired, catalog_put retired s)))))"

definition resolve_operation ::
  "(string \<Rightarrow> string \<Rightarrow> int) \<Rightarrow> catalog_store \<Rightarrow> string \<Rightarrow> string \<Rightarrow> string option \<Rightarrow>
   catalog_error + ApplicationOperationDescriptor" where
  "resolve_operation cmp s application operationId revision =
     (case (case truthy_text revision of
              Some r \<Rightarrow> (case requiredCatalog s application r of Inl e \<Rightarrow> Inl e | Inr catalog \<Rightarrow> Inr [catalog])
            | None \<Rightarrow> Inr (catalog_list cmp s application)) of
        Inl e \<Rightarrow> Inl e
      | Inr catalogs \<Rightarrow>
          (case find (\<lambda>candidate. od_id candidate = operationId)
             (concat (map oc_operations (filter (\<lambda>catalog. oc_state catalog = Active \<or> oc_state catalog = Draining) catalogs))) of
             None \<Rightarrow> Inl (ApplicationCatalogError ''CATALOG_OPERATION_UNAVAILABLE'' (''Operation '' @ operationId @
               '' is unknown or retired'' @ (case truthy_text revision of None \<Rightarrow> [] | Some r \<Rightarrow> '' in catalog '' @ r) @ ''.''))
           | Some operation \<Rightarrow> Inr operation))"

end
