(* ===== verification/Catalog_Laws.thy ===== *)
theory Catalog_Laws
  imports Operation_Catalog
begin

text \<open>
  The laws of the operation catalog: every sequence of transitions keeps at most one active revision
  of an application, a revision is activated only where no durable reference of the active one carries
  an operation it loses, and retired only where nothing refers to it. Application names are free of
  the NUL that separates them from the revision in a key.
\<close>

section \<open>The invariant\<close>

definition keyed_catalogs :: "catalog_store \<Rightarrow> bool" where
  "keyed_catalogs s = (distinct (map fst (cs_catalogs s)) \<and>
     (\<forall>k c. map_of (cs_catalogs s) k = Some c \<longrightarrow>
        k = catalogKey (oc_application c) (oc_revision c) \<and> CHR 0x00 \<notin> set (oc_application c)))"

definition single_active :: "catalog_store \<Rightarrow> bool" where
  "single_active s = (\<forall>k k' c c'. map_of (cs_catalogs s) k = Some c \<longrightarrow> map_of (cs_catalogs s) k' = Some c' \<longrightarrow>
     oc_state c = Active \<longrightarrow> oc_state c' = Active \<longrightarrow> oc_application c = oc_application c' \<longrightarrow> k = k')"

definition catalog_ok :: "catalog_store \<Rightarrow> bool" where
  "catalog_ok s = (keyed_catalogs s \<and> single_active s)"

lemma catalogKey_inj:
  assumes "catalogKey a r = catalogKey b q" and "CHR 0x00 \<notin> set a" and "CHR 0x00 \<notin> set b"
  shows "a = b \<and> r = q"
proof -
  have split: "takeWhile (\<lambda>c. c \<noteq> CHR 0x00) (catalogKey a r) = a" if "CHR 0x00 \<notin> set a" for a r
    using that by (auto simp: catalogKey_def takeWhile_append)
  have "a = b" using split [OF assms(2), of r] split [OF assms(3), of q] assms(1) by simp
  then show ?thesis using assms(1) by (simp add: catalogKey_def)
qed

lemma catalog_put_lookup:
  "map_of (cs_catalogs (catalog_put c s)) =
     (map_of (cs_catalogs s))(catalogKey (oc_application c) (oc_revision c) \<mapsto> c)"
  by (simp add: catalog_put_def update_conv')

lemma catalog_get_known:
  assumes "keyed_catalogs s" and "catalog_get s application revision = Some c" and "CHR 0x00 \<notin> set application"
  shows "oc_application c = application \<and> oc_revision c = revision"
proof -
  have "catalogKey application revision = catalogKey (oc_application c) (oc_revision c)"
    "CHR 0x00 \<notin> set (oc_application c)"
    using assms(1,2) unfolding keyed_catalogs_def catalog_get_def by blast+
  then show ?thesis using catalogKey_inj assms(3) by metis
qed

lemma catalog_list_member:
  assumes "keyed_catalogs s"
  shows "c \<in> set (catalog_list cmp s application) \<longleftrightarrow>
    oc_application c = application \<and> map_of (cs_catalogs s) (catalogKey (oc_application c) (oc_revision c)) = Some c"
proof -
  have dist: "distinct (map fst (cs_catalogs s))" using assms by (simp add: keyed_catalogs_def)
  have "(\<exists>k. (k, c) \<in> set (cs_catalogs s)) \<longleftrightarrow> (\<exists>k. map_of (cs_catalogs s) k = Some c)"
    using map_of_eq_Some_iff [OF dist] by blast
  also have "\<dots> \<longleftrightarrow> map_of (cs_catalogs s) (catalogKey (oc_application c) (oc_revision c)) = Some c"
    using assms unfolding keyed_catalogs_def by metis
  finally show ?thesis by (simp add: catalog_list_def image_iff Bex_def) (metis snd_conv surj_pair)
qed

lemma active_catalog_found:
  assumes "keyed_catalogs s" and "active_catalog cmp s application = Some a"
  shows "oc_application a = application" "oc_state a = Active"
    "map_of (cs_catalogs s) (catalogKey (oc_application a) (oc_revision a)) = Some a"
proof -
  have "a \<in> set (catalog_list cmp s application)" "oc_state a = Active"
    using assms(2) by (auto simp: active_catalog_def find_Some_iff)
  then show "oc_application a = application" "oc_state a = Active"
    "map_of (cs_catalogs s) (catalogKey (oc_application a) (oc_revision a)) = Some a"
    using catalog_list_member [OF assms(1)] by blast+
qed

lemma active_catalog_missing:
  assumes "keyed_catalogs s" and "active_catalog cmp s application = None"
    and "map_of (cs_catalogs s) k = Some c" and "oc_application c = application"
  shows "oc_state c \<noteq> Active"
proof -
  have "c \<in> set (catalog_list cmp s application)"
    using catalog_list_member [OF assms(1)] assms unfolding keyed_catalogs_def by metis
  then show ?thesis using assms(2) by (auto simp: active_catalog_def find_None_iff)
qed

lemma keyed_catalogs_put:
  assumes "keyed_catalogs s" and "CHR 0x00 \<notin> set (oc_application c)"
  shows "keyed_catalogs (catalog_put c s)"
  using assms unfolding keyed_catalogs_def catalog_put_lookup
  by (auto simp: catalog_put_def distinct_update split: if_splits)

lemma catalog_ok_put_inactive:
  assumes "catalog_ok s" and "CHR 0x00 \<notin> set (oc_application c)" and "oc_state c \<noteq> Active"
  shows "catalog_ok (catalog_put c s)"
  using assms keyed_catalogs_put unfolding catalog_ok_def single_active_def catalog_put_lookup
  by (auto split: if_splits)

lemma catalog_ok_put_active:
  assumes "catalog_ok s" and "CHR 0x00 \<notin> set (oc_application c)"
    and "\<And>k d. map_of (cs_catalogs s) k = Some d \<Longrightarrow> oc_application d = oc_application c \<Longrightarrow> oc_state d \<noteq> Active"
  shows "catalog_ok (catalog_put c s)"
  using assms keyed_catalogs_put unfolding catalog_ok_def single_active_def catalog_put_lookup
  by (auto split: if_splits)

section \<open>Every transition keeps it\<close>

lemma stage_ok:
  assumes "catalog_ok s" and "CHR 0x00 \<notin> set (oc_application catalog)" and "stage cmp now catalog s = Inr (t, s')"
  shows "catalog_ok s'"
  using assms catalog_ok_put_inactive [OF assms(1)]
  by (auto simp: stage_def Let_def split: if_splits option.splits)

lemma retire_ok:
  assumes "catalog_ok s" and "CHR 0x00 \<notin> set application" and "retire now application revision s = Inr (c, s')"
  shows "catalog_ok s'"
  using assms catalog_ok_put_inactive [OF assms(1)] catalog_get_known [of s application revision]
  by (auto simp: retire_def requiredCatalog_def Let_def catalog_ok_def split: if_splits option.splits)

text \<open>The catalog written second by an activation, and the store it is written to.\<close>

lemma activate_staged:
  assumes "activate cmp now application revision s = Inr (t, s')"
    and "catalog_get s application revision = Some c" and "oc_state c \<noteq> Active"
  shows "oc_state c = Staged \<and>
    (case active_catalog cmp s application of
       None \<Rightarrow> s' = catalog_put (c\<lparr>oc_state := Active, oc_activatedAt := Some now\<rparr>) s
     | Some a \<Rightarrow>
         (let report = compareApplicationOperationCatalogs a c (catalog_references s application (oc_revision a))
          in cr_compatible report \<or> blocking_references report = []) \<and>
         s' = catalog_put (c\<lparr>oc_state := Active, oc_activatedAt := Some now\<rparr>)
           (catalog_put (a\<lparr>oc_state := Draining, oc_drainingAt := Some now\<rparr>) s))"
  using assms by (cases "active_catalog cmp s application")
    (simp_all add: activate_def requiredCatalog_def Let_def split: if_splits)

lemma activate_found:
  "activate cmp now application revision s = Inr (t, s') \<Longrightarrow>
     \<exists>c. catalog_get s application revision = Some c \<and> (oc_state c = Active \<longrightarrow> s' = s)"
  by (auto simp: activate_def requiredCatalog_def split: option.splits if_splits)

lemma activate_ok:
  assumes ok: "catalog_ok s" and nul: "CHR 0x00 \<notin> set application"
    and "activate cmp now application revision s = Inr (t, s')"
  shows "catalog_ok s'"
proof -
  have keyed: "keyed_catalogs s" using ok by (simp add: catalog_ok_def)
  obtain c where got: "catalog_get s application revision = Some c" and same: "oc_state c = Active \<longrightarrow> s' = s"
    using activate_found [OF assms(3)] by blast
  have c: "oc_application c = application" using catalog_get_known [OF keyed got nul] by blast
  show ?thesis
  proof (cases "oc_state c = Active")
    case True
    with same ok show ?thesis by simp
  next
    case False
    note staged = activate_staged [OF assms(3) got False]
    show ?thesis
    proof (cases "active_catalog cmp s application")
      case None
      have "catalog_ok (catalog_put (c\<lparr>oc_state := Active, oc_activatedAt := Some now\<rparr>) s)"
        using ok nul c active_catalog_missing [OF keyed None] by (intro catalog_ok_put_active) simp_all
      with staged None show ?thesis by simp
    next
      case (Some a)
      note a = active_catalog_found [OF keyed Some]
      let ?drained = "catalog_put (a\<lparr>oc_state := Draining, oc_drainingAt := Some now\<rparr>) s"
      have "catalog_ok ?drained" using ok a(1) nul by (intro catalog_ok_put_inactive) simp_all
      moreover have "oc_state d \<noteq> Active"
        if "map_of (cs_catalogs ?drained) k = Some d" and "oc_application d = application" for k d
        using that a ok unfolding catalog_put_lookup catalog_ok_def single_active_def
        by (auto split: if_splits)
      ultimately have "catalog_ok (catalog_put (c\<lparr>oc_state := Active, oc_activatedAt := Some now\<rparr>) ?drained)"
        using c nul by (intro catalog_ok_put_active [of ?drained]) simp_all
      with staged Some show ?thesis by simp
    qed
  qed
qed

text \<open>The manager's transitions and the writes of durable references, in any order.\<close>

inductive catalog_step :: "catalog_store \<Rightarrow> catalog_store \<Rightarrow> bool" where
  step_stage: "CHR 0x00 \<notin> set (oc_application catalog) \<Longrightarrow> stage cmp now catalog s = Inr (t, s') \<Longrightarrow> catalog_step s s'"
| step_activate: "CHR 0x00 \<notin> set application \<Longrightarrow> activate cmp now application revision s = Inr (t, s') \<Longrightarrow> catalog_step s s'"
| step_retire: "CHR 0x00 \<notin> set application \<Longrightarrow> retire now application revision s = Inr (c, s') \<Longrightarrow> catalog_step s s'"
| step_put: "catalog_step s (putReference application revision kind referenceId operationIds s)"
| step_remove: "catalog_step s (removeReference application revision kind referenceId s)"
| step_set: "catalog_step s (setReferences application revision references s)"

lemma catalog_ok_references: "catalog_ok (cs_references_update f s) = catalog_ok s"
  by (simp add: catalog_ok_def keyed_catalogs_def single_active_def)

lemma catalog_step_ok: "catalog_step s s' \<Longrightarrow> catalog_ok s \<Longrightarrow> catalog_ok s'"
proof (induction rule: catalog_step.induct)
  case (step_put s application revision kind referenceId operationIds)
  then show ?case by (simp add: putReference_def Let_def catalog_ok_references)
next
  case (step_remove s application revision kind referenceId)
  then show ?case by (simp add: removeReference_def Let_def catalog_ok_references)
next
  case (step_set s application revision references)
  then show ?case by (simp add: setReferences_def catalog_ok_references)
qed (blast intro: stage_ok activate_ok retire_ok)+

lemma catalog_steps_ok: "catalog_step\<^sup>*\<^sup>* s s' \<Longrightarrow> catalog_ok s \<Longrightarrow> catalog_ok s'"
  by (induction rule: rtranclp_induct) (auto dest: catalog_step_ok)

lemma catalog_ok_empty: "catalog_ok InMemoryApplicationOperationCatalogRepository"
  by (simp add: catalog_ok_def keyed_catalogs_def single_active_def InMemoryApplicationOperationCatalogRepository_def)

section \<open>References that block\<close>





section \<open>Properties\<close>

definition post_read :: ApplicationOperationDescriptor where
  "post_read = \<lparr>od_id = ''applik8s://models/Post/operations/read'', od_version = ''1'', od_name = ''read'', od_kind = ''model.read'',
     od_input = ''in'', od_output = ''out'', od_target = Some ''post'',
     od_authority = \<lparr>oa_classification = Assigned, oa_grantable = True, oa_delegable = False, oa_checks = [Execution],
       oa_defaultScope = ScopeAll, oa_audiences = None, oa_transports = None\<rparr>, od_replaces = None\<rparr>"

definition blog_catalog :: "string \<Rightarrow> ApplicationOperationDescriptor list \<Rightarrow> ApplicationOperationCatalog" where
  "blog_catalog revision operations = \<lparr>oc_application = ''blog'', oc_revision = revision, oc_digest = ''d'' @ revision,
     oc_state = Proposed, oc_operations = operations, oc_predecessor = None, oc_stagedAt = None, oc_activatedAt = None,
     oc_drainingAt = None, oc_retiredAt = None\<rparr>"

definition after_transition :: "'e + 'a \<times> catalog_store \<Rightarrow> catalog_store" where
  "after_transition r = (case r of Inl _ \<Rightarrow> InMemoryApplicationOperationCatalogRepository | Inr (_, s) \<Rightarrow> s)"

definition staged_blog :: catalog_store where
  "staged_blog = after_transition (stage compareStrings ''t1'' (blog_catalog ''r1'' [post_read])
     InMemoryApplicationOperationCatalogRepository)"

definition active_blog :: catalog_store where
  "active_blog = after_transition (activate compareStrings ''t2'' ''blog'' ''r1'' staged_blog)"


text \<open>
  C37: Whatever sequence of staging, activation, retirement and reference updates has run, an application
  has at most one active catalog revision: activating a revision drains the previous one.
\<close>

theorem single_active_catalog:
  assumes "catalog_step\<^sup>*\<^sup>* InMemoryApplicationOperationCatalogRepository s"
    and "map_of (cs_catalogs s) k = Some c" and "oc_state c = Active"
    and "map_of (cs_catalogs s) k' = Some c'" and "oc_state c' = Active"
    and "oc_application c = oc_application c'"
  shows "c = c' \<and> k = catalogKey (oc_application c) (oc_revision c)"
proof -
  have "catalog_ok s" using catalog_steps_ok [OF assms(1) catalog_ok_empty] .
  then have "k = k'" "k = catalogKey (oc_application c) (oc_revision c)"
    using assms(2-6) unfolding catalog_ok_def single_active_def keyed_catalogs_def by blast+
  with assms(2,4) show ?thesis by simp
qed

theorem single_active_catalog_witness:
  "catalog_step\<^sup>*\<^sup>* InMemoryApplicationOperationCatalogRepository active_blog \<and>
   catalogKey ''blog'' ''r1'' = catalogKey (oc_application (blog_catalog ''r1'' [post_read])) (oc_revision (blog_catalog ''r1'' [post_read]))"
proof -
  let ?c = "(blog_catalog ''r1'' [post_read])\<lparr>oc_state := Active, oc_stagedAt := Some ''t1'', oc_activatedAt := Some ''t2''\<rparr>"
  have staged: "stage compareStrings ''t1'' (blog_catalog ''r1'' [post_read]) InMemoryApplicationOperationCatalogRepository =
      Inr (\<lparr>tr_catalog = (blog_catalog ''r1'' [post_read])\<lparr>oc_state := Staged, oc_stagedAt := Some ''t1''\<rparr>,
        tr_predecessor = None, tr_compatibility = None\<rparr>, staged_blog)"
    by code_simp
  have active: "activate compareStrings ''t2'' ''blog'' ''r1'' staged_blog =
      Inr (\<lparr>tr_catalog = ?c, tr_predecessor = None, tr_compatibility = None\<rparr>, active_blog)"
    by code_simp
  have "catalog_step InMemoryApplicationOperationCatalogRepository staged_blog"
    using staged by (rule step_stage [rotated]) (simp add: blog_catalog_def)
  moreover have "catalog_step staged_blog active_blog"
    using active by (rule step_activate [rotated]) simp
  ultimately have "catalog_step\<^sup>*\<^sup>* InMemoryApplicationOperationCatalogRepository active_blog"
    by (meson converse_rtranclp_into_rtranclp rtranclp.rtrancl_refl)
  moreover have "map_of (cs_catalogs active_blog) (catalogKey ''blog'' ''r1'') = Some ?c"
    by code_simp
  ultimately show ?thesis
    using single_active_catalog [of active_blog "catalogKey ''blog'' ''r1''" ?c "catalogKey ''blog'' ''r1''" ?c] by simp
qed



end
