(* ===== verification/Authority_Types.thy ===== *)
theory Authority_Types
  imports Operation_Catalog
begin

text \<open>
  The records of the operation authority,
  \<^verbatim>\<open>packages/core/src/application-operation-authority.ts\<close>, and their JSON, of which the authority
  service compares the stable text. An optional member is absent where it is \<open>None\<close>; the literal
  \<open>apiVersion\<close> of a record is written by its JSON. A principal has the fields shared by its variants.
\<close>

section \<open>Records\<close>

datatype ApplicationAuthorityOrigin = ApplicationOrigin | RuntimeOrigin

record ApplicationPermissionRecord =
  pm_id :: string
  pm_name :: string
  pm_origin :: ApplicationAuthorityOrigin
  pm_manifestRevision :: "string option"
  pm_catalogRevision :: string
  pm_operationIds :: "string list"
  pm_scope :: ApplicationScopeExpression
  pm_transports :: "ApplicationOperationTransport list option"
  pm_audiences :: "string list option"
  pm_grantable :: bool
  pm_lifecycleOwner :: "string option"
  pm_createdAt :: string
  pm_retiredAt :: "string option"

record ApplicationRoleRecord =
  rl_id :: string
  rl_name :: string
  rl_origin :: ApplicationAuthorityOrigin
  rl_permissionIds :: "string list"
  rl_lifecycleOwner :: "string option"
  rl_createdAt :: string
  rl_retiredAt :: "string option"

record ApplicationDelegationRecord =
  dl_id :: string
  dl_grantor :: ApplicationIdentityReference
  dl_operationIds :: "string list"
  dl_scope :: ApplicationScopeExpression
  dl_maximumValiditySeconds :: "js_number option"
  dl_maximumUses :: "js_number option"
  dl_audiences :: "string list option"
  dl_transports :: "ApplicationOperationTransport list option"
  dl_createdAt :: string
  dl_expiresAt :: "string option"
  dl_revokedAt :: "string option"

record ApplicationGrantRecord =
  gr_id :: string
  gr_origin :: ApplicationAuthorityOrigin
  gr_identity :: ApplicationIdentityReference
  gr_permissionId :: "string option"
  gr_operationIds :: "string list"
  gr_scope :: ApplicationScopeExpression
  gr_audiences :: "string list option"
  gr_transports :: "ApplicationOperationTransport list option"
  gr_issuedBy :: ApplicationIdentityReference
  gr_canGrant :: "bool option"
  gr_delegationId :: "string option"
  gr_lifecycleOwner :: "string option"
  gr_reason :: "string option"
  gr_maximumUses :: "js_number option"
  gr_expiresAt :: "string option"
  gr_outcomeId :: "string option"
  gr_catalogRevision :: string
  gr_authorityRevision :: string
  gr_createdAt :: string
  gr_revokedAt :: "string option"

datatype request_state = RequestPending | RequestApproved | RequestRejected | RequestCancelled | RequestExpired

record ApplicationGrantRequestRecord =
  gq_id :: string
  gq_requester :: ApplicationIdentityReference
  gq_operationIds :: "string list"
  gq_scope :: ApplicationScopeExpression
  gq_audiences :: "string list option"
  gq_transports :: "ApplicationOperationTransport list option"
  gq_reason :: string
  gq_evidence :: "jsobject option"
  gq_requestedExpiresAt :: "string option"
  gq_requestedMaximumUses :: "js_number option"
  gq_requiredOutcomeId :: "string option"
  gq_approvalPolicyId :: string
  gq_state :: request_state
  gq_createdAt :: string
  gq_decidedAt :: "string option"

record ApplicationApprovalRecord =
  ap_id :: string
  ap_requestId :: string
  ap_approver :: ApplicationIdentityReference
  ap_approve :: bool
  ap_reason :: "string option"
  ap_evidence :: "jsobject option"
  ap_decidedAt :: string

datatype outcome_failure = Escalate | RevokeOutcome | DenyRetry

record ApplicationOutcomeDefinition =
  ot_id :: string
  ot_name :: string
  ot_subjectModel :: string
  ot_verifier :: ApplicationIdentityReference
  ot_observationOperationId :: string
  ot_predicate :: ApplicationScopeExpression
  ot_timeoutSeconds :: js_number
  ot_failure :: outcome_failure

datatype reservation_state =
  Reserved | Consumed | OutcomePending | OutcomeVerified | OutcomeFailed | Released | ReservationExpired

record ApplicationGrantReservation =
  rs_id :: string
  rs_grantId :: string
  rs_idempotencyKey :: string
  rs_commandId :: string
  rs_operationId :: string
  rs_targetDigest :: string
  rs_authorityRevision :: string
  rs_state :: reservation_state
  rs_reservedAt :: string
  rs_updatedAt :: string
  rs_uncertainEffect :: bool

record ApplicationPrincipalBase =
  pn_id :: string
  pn_identity :: ApplicationIdentityReference
  pn_authenticationMethod :: string
  pn_audience :: "string list"
  pn_roles :: "string list option"
  pn_attributes :: "jsobject option"
  pn_trustedContextDigest :: string
  pn_catalogRevision :: string
  pn_authorityRevision :: string
  pn_admittedAt :: string
  pn_expiresAt :: "string option"

record ApplicationAuthorizationReceipt =
  rc_id :: string
  rc_application :: string
  rc_operationId :: string
  rc_operationVersion :: string
  rc_catalogRevision :: string
  rc_authorityRevision :: string
  rc_principal :: ApplicationPrincipalBase
  rc_trustedContextDigest :: string
  rc_matchedPermissionIds :: "string list"
  rc_matchedGrantIds :: "string list"
  rc_inputDigest :: string
  rc_target :: ApplicationScopeExpression
  rc_scopeEvidence :: "ApplicationScopeExpression list"
  rc_audience :: string
  rc_transport :: ApplicationOperationTransport
  rc_admittedAt :: string
  rc_expiresAt :: "string option"
  rc_reservationId :: "string option"

record ApplicationAuditEvent =
  ae_id :: string
  ae_kind :: string
  ae_occurredAt :: string
  ae_principal :: "ApplicationIdentityReference option"
  ae_operationId :: "string option"
  ae_targetDigest :: "string option"
  ae_authorityRevision :: string
  ae_details :: jsobject

datatype obligation_state = ObligationPending | Neutralized | ExpiryGuaranteed | ObligationFailed

record ApplicationRevocationObligation =
  ob_projection :: string
  ob_kind :: string
  ob_state :: obligation_state
  ob_providerRevision :: "string option"
  ob_observedAt :: "string option"
  ob_guaranteedExpiryAt :: "string option"
  ob_diagnostic :: "string option"

record ApplicationRevocationTombstone =
  tb_id :: string
  tb_application :: string
  tb_authorityRevision :: string
  tb_identityIds :: "string list"
  tb_operationIds :: "string list"
  tb_scope :: ApplicationScopeExpression
  tb_obligations :: "ApplicationRevocationObligation list"
  tb_createdAt :: string
  tb_provenAt :: "string option"
  tb_transferredByBreakGlassAt :: "string option"
  tb_auditProvenance :: "string list"

record ApplicationStaticPermissionDefinition =
  sp_id :: string
  sp_name :: string
  sp_operationIds :: "string list"
  sp_scope :: ApplicationScopeExpression
  sp_transports :: "ApplicationOperationTransport list option"
  sp_audiences :: "string list option"
  sp_grantable :: bool
  sp_lifecycleOwner :: "string option"

record ApplicationStaticRoleDefinition =
  sr_id :: string
  sr_name :: string
  sr_permissionIds :: "string list"
  sr_lifecycleOwner :: "string option"

record ApplicationStaticGrantDefinition =
  sg_id :: string
  sg_identity :: ApplicationIdentityReference
  sg_permissionId :: "string option"
  sg_operationIds :: "string list"
  sg_scope :: ApplicationScopeExpression
  sg_audiences :: "string list option"
  sg_transports :: "ApplicationOperationTransport list option"
  sg_issuedBy :: ApplicationIdentityReference
  sg_canGrant :: "bool option"
  sg_lifecycleOwner :: "string option"
  sg_reason :: "string option"
  sg_maximumUses :: "js_number option"
  sg_expiresAt :: "string option"
  sg_outcomeId :: "string option"

record ApplicationStaticAuthorityManifest =
  sm_revision :: string
  sm_identities :: "ApplicationIdentityReference list"
  sm_permissions :: "ApplicationStaticPermissionDefinition list"
  sm_roles :: "ApplicationStaticRoleDefinition list"
  sm_grants :: "ApplicationStaticGrantDefinition list"
  sm_outcomes :: "ApplicationOutcomeDefinition list"

record ApplicationStaticRoleBootstrapDefinition =
  sb_id :: string
  sb_roleId :: string
  sb_identity :: ApplicationIdentityReference
  sb_issuedBy :: ApplicationIdentityReference
  sb_reason :: string

section \<open>Records as JSON\<close>

definition member_if :: "string \<Rightarrow> ('a \<Rightarrow> jsval) \<Rightarrow> 'a option \<Rightarrow> jsobject" where
  "member_if k f v = (case v of None \<Rightarrow> [] | Some x \<Rightarrow> [(k, f x)])"

definition texts :: "string list \<Rightarrow> jsval" where
  "texts ss = JArray (map JString ss)"

definition transports_value :: "ApplicationOperationTransport list \<Rightarrow> jsval" where
  "transports_value ts = JArray (map (\<lambda>t. JString (transport_text t)) ts)"

fun origin_text :: "ApplicationAuthorityOrigin \<Rightarrow> string" where
  "origin_text ApplicationOrigin = ''application''"
| "origin_text RuntimeOrigin = ''runtime''"

definition identity_value :: "ApplicationIdentityReference \<Rightarrow> jsval" where
  "identity_value r = JObject [(''id'', JString (ref_id r)), (''kind'', JString (ref_kind r)),
     (''issuer'', JString (ref_issuer r)), (''subject'', JString (ref_subject r))]"

definition permission_value :: "ApplicationPermissionRecord \<Rightarrow> jsval" where
  "permission_value p = JObject ([(''apiVersion'', JString ''applik8s.permission/v1alpha1''), (''id'', JString (pm_id p)),
     (''name'', JString (pm_name p)), (''origin'', JString (origin_text (pm_origin p)))] @
     member_if ''manifestRevision'' JString (pm_manifestRevision p) @
     [(''catalogRevision'', JString (pm_catalogRevision p)), (''operationIds'', texts (pm_operationIds p)),
      (''scope'', scope_value (pm_scope p))] @
     member_if ''transports'' transports_value (pm_transports p) @ member_if ''audiences'' texts (pm_audiences p) @
     [(''grantable'', JBool (pm_grantable p))] @ member_if ''lifecycleOwner'' JString (pm_lifecycleOwner p) @
     [(''createdAt'', JString (pm_createdAt p))] @ member_if ''retiredAt'' JString (pm_retiredAt p))"

definition role_value :: "ApplicationRoleRecord \<Rightarrow> jsval" where
  "role_value r = JObject ([(''apiVersion'', JString ''applik8s.role/v1alpha1''), (''id'', JString (rl_id r)),
     (''name'', JString (rl_name r)), (''origin'', JString (origin_text (rl_origin r))),
     (''permissionIds'', texts (rl_permissionIds r))] @ member_if ''lifecycleOwner'' JString (rl_lifecycleOwner r) @
     [(''createdAt'', JString (rl_createdAt r))] @ member_if ''retiredAt'' JString (rl_retiredAt r))"

definition grant_value :: "ApplicationGrantRecord \<Rightarrow> jsval" where
  "grant_value g = JObject ([(''apiVersion'', JString ''applik8s.grant/v1alpha1''), (''id'', JString (gr_id g)),
     (''origin'', JString (origin_text (gr_origin g))), (''identity'', identity_value (gr_identity g))] @
     member_if ''permissionId'' JString (gr_permissionId g) @
     [(''operationIds'', texts (gr_operationIds g)), (''scope'', scope_value (gr_scope g))] @
     member_if ''audiences'' texts (gr_audiences g) @ member_if ''transports'' transports_value (gr_transports g) @
     [(''issuedBy'', identity_value (gr_issuedBy g))] @ member_if ''canGrant'' JBool (gr_canGrant g) @
     member_if ''delegationId'' JString (gr_delegationId g) @ member_if ''lifecycleOwner'' JString (gr_lifecycleOwner g) @
     member_if ''reason'' JString (gr_reason g) @ member_if ''maximumUses'' JNumber (gr_maximumUses g) @
     member_if ''expiresAt'' JString (gr_expiresAt g) @ member_if ''outcomeId'' JString (gr_outcomeId g) @
     [(''catalogRevision'', JString (gr_catalogRevision g)), (''authorityRevision'', JString (gr_authorityRevision g)),
      (''createdAt'', JString (gr_createdAt g))] @ member_if ''revokedAt'' JString (gr_revokedAt g))"

fun request_state_text :: "request_state \<Rightarrow> string" where
  "request_state_text RequestPending = ''pending''"
| "request_state_text RequestApproved = ''approved''"
| "request_state_text RequestRejected = ''rejected''"
| "request_state_text RequestCancelled = ''cancelled''"
| "request_state_text RequestExpired = ''expired''"

definition request_value :: "ApplicationGrantRequestRecord \<Rightarrow> jsval" where
  "request_value q = JObject ([(''apiVersion'', JString ''applik8s.grantRequest/v1alpha1''), (''id'', JString (gq_id q)),
     (''requester'', identity_value (gq_requester q)), (''operationIds'', texts (gq_operationIds q)),
     (''scope'', scope_value (gq_scope q))] @
     member_if ''audiences'' texts (gq_audiences q) @ member_if ''transports'' transports_value (gq_transports q) @
     [(''reason'', JString (gq_reason q))] @ member_if ''evidence'' JObject (gq_evidence q) @
     member_if ''requestedExpiresAt'' JString (gq_requestedExpiresAt q) @
     member_if ''requestedMaximumUses'' JNumber (gq_requestedMaximumUses q) @
     member_if ''requiredOutcomeId'' JString (gq_requiredOutcomeId q) @
     [(''approvalPolicyId'', JString (gq_approvalPolicyId q)), (''state'', JString (request_state_text (gq_state q))),
      (''createdAt'', JString (gq_createdAt q))] @ member_if ''decidedAt'' JString (gq_decidedAt q))"

definition approval_value :: "ApplicationApprovalRecord \<Rightarrow> jsval" where
  "approval_value a = JObject ([(''apiVersion'', JString ''applik8s.approval/v1alpha1''), (''id'', JString (ap_id a)),
     (''requestId'', JString (ap_requestId a)), (''approver'', identity_value (ap_approver a)),
     (''decision'', JString (if ap_approve a then ''approve'' else ''reject''))] @
     member_if ''reason'' JString (ap_reason a) @ member_if ''evidence'' JObject (ap_evidence a) @
     [(''decidedAt'', JString (ap_decidedAt a))])"

fun failure_text :: "outcome_failure \<Rightarrow> string" where
  "failure_text Escalate = ''escalate''"
| "failure_text RevokeOutcome = ''revoke''"
| "failure_text DenyRetry = ''deny-retry''"

definition outcome_value :: "ApplicationOutcomeDefinition \<Rightarrow> jsval" where
  "outcome_value d = JObject [(''apiVersion'', JString ''applik8s.outcome/v1alpha1''), (''id'', JString (ot_id d)),
     (''name'', JString (ot_name d)), (''subjectModel'', JString (ot_subjectModel d)),
     (''verifier'', identity_value (ot_verifier d)), (''observationOperationId'', JString (ot_observationOperationId d)),
     (''predicate'', scope_value (ot_predicate d)), (''timeoutSeconds'', JNumber (ot_timeoutSeconds d)),
     (''failure'', JString (failure_text (ot_failure d)))]"

fun obligation_state_text :: "obligation_state \<Rightarrow> string" where
  "obligation_state_text ObligationPending = ''pending''"
| "obligation_state_text Neutralized = ''neutralized''"
| "obligation_state_text ExpiryGuaranteed = ''expiry-guaranteed''"
| "obligation_state_text ObligationFailed = ''failed''"

definition obligation_value :: "ApplicationRevocationObligation \<Rightarrow> jsval" where
  "obligation_value d = JObject ([(''projection'', JString (ob_projection d)), (''kind'', JString (ob_kind d)),
     (''state'', JString (obligation_state_text (ob_state d)))] @
     member_if ''providerRevision'' JString (ob_providerRevision d) @ member_if ''observedAt'' JString (ob_observedAt d) @
     member_if ''guaranteedExpiryAt'' JString (ob_guaranteedExpiryAt d) @ member_if ''diagnostic'' JString (ob_diagnostic d))"

definition tombstone_value :: "ApplicationRevocationTombstone \<Rightarrow> jsval" where
  "tombstone_value t = JObject ([(''apiVersion'', JString ''applik8s.revocationTombstone/v1alpha1''), (''id'', JString (tb_id t)),
     (''application'', JString (tb_application t)), (''authorityRevision'', JString (tb_authorityRevision t)),
     (''identityIds'', texts (tb_identityIds t)), (''operationIds'', texts (tb_operationIds t)),
     (''scope'', scope_value (tb_scope t)), (''obligations'', JArray (map obligation_value (tb_obligations t))),
     (''createdAt'', JString (tb_createdAt t))] @ member_if ''provenAt'' JString (tb_provenAt t) @
     member_if ''transferredByBreakGlassAt'' JString (tb_transferredByBreakGlassAt t) @
     [(''auditProvenance'', texts (tb_auditProvenance t))])"

end
