(* ===== verification/Authority_Repository.thy ===== *)
theory Authority_Repository
  imports Authority_Types
begin

text \<open>
  The in-memory repository of the authority service, \<^verbatim>\<open>packages/operations/src/authority.ts\<close>, and the
  checks the service's operations share. The repository's transactions run one after another, so an
  operation is a function from the state to the thrown error or to its result with the next state; a
  transaction that throws restores the state it began with. \<open>authority_env\<close> carries what the service
  is given: the readings of its clock and the ids it generates, numbered within an operation, and
  \<open>Date.parse\<close> (\<open>None\<close> for \<open>NaN\<close>), \<open>toISOString\<close>, \<open>localeCompare\<close> and the printing of numbers. The readings
  of the clock inside one validation or one filter are one value.
\<close>

section \<open>Environment and state\<close>

record authority_env =
  env_scope :: scope_env
  env_now :: "nat \<Rightarrow> int"
  env_id :: "nat \<Rightarrow> string"
  env_date :: "string \<Rightarrow> int option"
  env_iso :: "int \<Rightarrow> string"

record authority_state =
  st_revision :: nat
  st_permissions :: "(string \<times> ApplicationPermissionRecord) list"
  st_roles :: "(string \<times> ApplicationRoleRecord) list"
  st_grants :: "(string \<times> ApplicationGrantRecord) list"
  st_delegations :: "(string \<times> ApplicationDelegationRecord) list"
  st_requests :: "(string \<times> ApplicationGrantRequestRecord) list"
  st_approvals :: "(string \<times> ApplicationApprovalRecord) list"
  st_outcomes :: "(string \<times> ApplicationOutcomeDefinition) list"
  st_reservations :: "(string \<times> ApplicationGrantReservation) list"
  st_tombstones :: "(string \<times> ApplicationRevocationTombstone) list"
  st_audit :: "ApplicationAuditEvent list"
  st_references :: "(string \<times> string list) list"
  st_reads :: nat
  st_ids :: nat

record ApplicationAuthoritySnapshot =
  sn_revision :: string
  sn_permissions :: "ApplicationPermissionRecord list"
  sn_roles :: "ApplicationRoleRecord list"
  sn_grants :: "ApplicationGrantRecord list"
  sn_delegations :: "ApplicationDelegationRecord list"
  sn_requests :: "ApplicationGrantRequestRecord list"
  sn_approvals :: "ApplicationApprovalRecord list"
  sn_outcomes :: "ApplicationOutcomeDefinition list"
  sn_reservations :: "ApplicationGrantReservation list"
  sn_tombstones :: "ApplicationRevocationTombstone list"

definition InMemoryApplicationAuthorityRepository :: authority_state where
  "InMemoryApplicationAuthorityRepository =
     \<lparr>st_revision = 0, st_permissions = [], st_roles = [], st_grants = [], st_delegations = [], st_requests = [],
      st_approvals = [], st_outcomes = [], st_reservations = [], st_tombstones = [], st_audit = [], st_references = [],
      st_reads = 0, st_ids = 0\<rparr>"

definition snapshot :: "authority_state \<Rightarrow> ApplicationAuthoritySnapshot" where
  "snapshot s =
     \<lparr>sn_revision = nat_to_string (st_revision s), sn_permissions = map snd (st_permissions s), sn_roles = map snd (st_roles s),
      sn_grants = map snd (st_grants s), sn_delegations = map snd (st_delegations s), sn_requests = map snd (st_requests s),
      sn_approvals = map snd (st_approvals s), sn_outcomes = map snd (st_outcomes s),
      sn_reservations = map snd (st_reservations s), sn_tombstones = map snd (st_tombstones s)\<rparr>"

section \<open>Writes\<close>

text \<open>\<open>#put\<close>: \<open>Map.set\<close> keeps the place of a key it knows and appends a new one.\<close>

definition put_record :: "('r \<Rightarrow> string) \<Rightarrow> 'r \<Rightarrow> (string \<times> 'r) list \<Rightarrow> (string \<times> 'r) list" where
  "put_record key r m = AList.update (key r) r m"

definition bump :: "authority_state \<Rightarrow> authority_state" where
  "bump s = s\<lparr>st_revision := Suc (st_revision s)\<rparr>"

definition putPermission :: "ApplicationPermissionRecord \<Rightarrow> authority_state \<Rightarrow> authority_state" where
  "putPermission r s = bump (s\<lparr>st_permissions := put_record pm_id r (st_permissions s)\<rparr>)"

definition putRole :: "ApplicationRoleRecord \<Rightarrow> authority_state \<Rightarrow> authority_state" where
  "putRole r s = bump (s\<lparr>st_roles := put_record rl_id r (st_roles s)\<rparr>)"

definition putGrant :: "ApplicationGrantRecord \<Rightarrow> authority_state \<Rightarrow> authority_state" where
  "putGrant r s = bump (s\<lparr>st_grants := put_record gr_id r (st_grants s)\<rparr>)"

definition putDelegation :: "ApplicationDelegationRecord \<Rightarrow> authority_state \<Rightarrow> authority_state" where
  "putDelegation r s = bump (s\<lparr>st_delegations := put_record dl_id r (st_delegations s)\<rparr>)"

definition putRequest :: "ApplicationGrantRequestRecord \<Rightarrow> authority_state \<Rightarrow> authority_state" where
  "putRequest r s = bump (s\<lparr>st_requests := put_record gq_id r (st_requests s)\<rparr>)"

definition putApproval :: "ApplicationApprovalRecord \<Rightarrow> authority_state \<Rightarrow> authority_state" where
  "putApproval r s = bump (s\<lparr>st_approvals := put_record ap_id r (st_approvals s)\<rparr>)"

definition putOutcome :: "ApplicationOutcomeDefinition \<Rightarrow> authority_state \<Rightarrow> authority_state" where
  "putOutcome r s = bump (s\<lparr>st_outcomes := put_record ot_id r (st_outcomes s)\<rparr>)"

definition putReservation :: "ApplicationGrantReservation \<Rightarrow> authority_state \<Rightarrow> authority_state" where
  "putReservation r s = bump (s\<lparr>st_reservations := put_record rs_id r (st_reservations s)\<rparr>)"

definition putTombstone :: "ApplicationRevocationTombstone \<Rightarrow> authority_state \<Rightarrow> authority_state" where
  "putTombstone r s = bump (s\<lparr>st_tombstones := put_record tb_id r (st_tombstones s)\<rparr>)"

definition appendAudit :: "ApplicationAuditEvent \<Rightarrow> authority_state \<Rightarrow> authority_state" where
  "appendAudit event s = s\<lparr>st_audit := st_audit s @ [event]\<rparr>"

definition reference_set :: "authority_state \<Rightarrow> string \<Rightarrow> reference_kind \<Rightarrow> string list" where
  "reference_set s revision kind =
     (case map_of (st_references s) (revision @ [CHR 0x00] @ reference_kind_text kind) of None \<Rightarrow> [] | Some ids \<Rightarrow> ids)"

definition putCatalogReference :: "string \<Rightarrow> reference_kind \<Rightarrow> string \<Rightarrow> authority_state \<Rightarrow> authority_state" where
  "putCatalogReference revision kind referenceId s =
     s\<lparr>st_references := AList.update (revision @ [CHR 0x00] @ reference_kind_text kind)
         (let ids = reference_set s revision kind in if referenceId \<in> set ids then ids else ids @ [referenceId])
         (st_references s)\<rparr>"

definition removeCatalogReference :: "string \<Rightarrow> reference_kind \<Rightarrow> string \<Rightarrow> authority_state \<Rightarrow> authority_state" where
  "removeCatalogReference revision kind referenceId s =
     (case map_of (st_references s) (revision @ [CHR 0x00] @ reference_kind_text kind) of
        None \<Rightarrow> s
      | Some ids \<Rightarrow> s\<lparr>st_references := AList.update (revision @ [CHR 0x00] @ reference_kind_text kind)
                       (filter (\<lambda>k. k \<noteq> referenceId) ids) (st_references s)\<rparr>)"

definition catalogReferences :: "authority_state \<Rightarrow> string \<Rightarrow> reference_kind \<Rightarrow> string list" where
  "catalogReferences s revision kind = js_sort compareStrings (reference_set s revision kind)"

definition transaction :: "(authority_state \<Rightarrow> authority_error + 'a \<times> authority_state) \<Rightarrow> authority_state \<Rightarrow>
    (authority_error + 'a) \<times> authority_state" where
  "transaction work s =
     (let checkpoint = s
      in case work s of Inl e \<Rightarrow> (Inl e, checkpoint) | Inr (x, s') \<Rightarrow> (Inr x, s'))"

section \<open>Clock, ids and audit\<close>

definition tick :: "authority_env \<Rightarrow> authority_state \<Rightarrow> int \<times> authority_state" where
  "tick env s = (env_now env (st_reads s), s\<lparr>st_reads := Suc (st_reads s)\<rparr>)"

definition fresh_id :: "authority_env \<Rightarrow> authority_state \<Rightarrow> string \<times> authority_state" where
  "fresh_id env s = (env_id env (st_ids s), s\<lparr>st_ids := Suc (st_ids s)\<rparr>)"

definition audit :: "authority_env \<Rightarrow> string \<Rightarrow> string \<Rightarrow> ApplicationIdentityReference option \<Rightarrow> string option \<Rightarrow>
    string option \<Rightarrow> jsobject \<Rightarrow> authority_state \<Rightarrow> authority_state" where
  "audit env kind authorityRevision principal_ref operationId targetDigest details s =
     (let (k, s1) = fresh_id env s; (t, s2) = tick env s1
      in appendAudit \<lparr>ae_id = k, ae_kind = kind, ae_occurredAt = env_iso env t, ae_principal = principal_ref,
           ae_operationId = truthy_text operationId, ae_targetDigest = truthy_text targetDigest,
           ae_authorityRevision = authorityRevision, ae_details = details\<rparr> s2)"

definition isExpired :: "authority_env \<Rightarrow> string option \<Rightarrow> int \<Rightarrow> bool" where
  "isExpired env expiresAt now =
     (case expiresAt of None \<Rightarrow> False
      | Some e \<Rightarrow> (case env_date env e of None \<Rightarrow> False | Some t \<Rightarrow> t \<le> now))"

definition service_putGrant :: "authority_env \<Rightarrow> ApplicationGrantRecord \<Rightarrow> authority_state \<Rightarrow> authority_state" where
  "service_putGrant env r s =
     (let previous = find (\<lambda>candidate. gr_id candidate = gr_id r) (sn_grants (snapshot s));
          s1 = putGrant r s;
          s2 = (case previous of
                  Some p \<Rightarrow> if gr_catalogRevision p \<noteq> gr_catalogRevision r
                            then removeCatalogReference (gr_catalogRevision p) GrantReference (gr_id p) s1 else s1
                | None \<Rightarrow> s1)
      in if truthy_text (gr_revokedAt r) \<noteq> None
         then removeCatalogReference (gr_catalogRevision r) GrantReference (gr_id r) s2
         else (let (now, s3) = tick env s2
               in if isExpired env (gr_expiresAt r) now
                  then removeCatalogReference (gr_catalogRevision r) GrantReference (gr_id r) s3
                  else putCatalogReference (gr_catalogRevision r) GrantReference (gr_id r) s3))"

section \<open>Checks\<close>

definition authority_throw :: "bool \<Rightarrow> string \<Rightarrow> string \<Rightarrow> authority_error option" where
  "authority_throw b code message = (if b then Some (ApplicationAuthorityError code message) else None)"

fun first_error :: "'e option list \<Rightarrow> 'e option" where
  "first_error [] = None"
| "first_error (None # cs) = first_error cs"
| "first_error (Some e # cs) = Some e"

definition checked :: "'e option \<Rightarrow> 'e + 'a \<Rightarrow> 'e + 'a" where
  "checked c r = (case c of Some e \<Rightarrow> Inl e | None \<Rightarrow> r)"

fun each :: "('a \<Rightarrow> 's \<Rightarrow> 'e + 's) \<Rightarrow> 'a list \<Rightarrow> 's \<Rightarrow> 'e + 's" where
  "each f [] s = Inr s"
| "each f (x # xs) s = (case f x s of Inl e \<Rightarrow> Inl e | Inr s' \<Rightarrow> each f xs s')"

fun collect :: "('a \<Rightarrow> 's \<Rightarrow> 'e + 'b \<times> 's) \<Rightarrow> 'a list \<Rightarrow> 's \<Rightarrow> 'e + 'b list \<times> 's" where
  "collect f [] s = Inr ([], s)"
| "collect f (x # xs) s =
     (case f x s of Inl e \<Rightarrow> Inl e
      | Inr (y, s') \<Rightarrow> (case collect f xs s' of Inl e \<Rightarrow> Inl e | Inr (ys, s'') \<Rightarrow> Inr (y # ys, s'')))"

definition assertAuthorityRecordOrigin ::
  "ApplicationAuthorityOrigin \<Rightarrow> ApplicationAuthorityOrigin \<Rightarrow> string \<Rightarrow> authority_error option" where
  "assertAuthorityRecordOrigin actual expected k =
     authority_throw (actual \<noteq> expected) ''AUTHORITY_ORIGIN_CONFLICT''
       (''Authority record '' @ k @ '' must have '' @ origin_text expected @ '' origin; received '' @ origin_text actual @ ''.'')"

definition assertAuthorityCatalogRevision :: "string \<Rightarrow> string \<Rightarrow> authority_error option" where
  "assertAuthorityCatalogRevision revision k =
     authority_throw (trim revision = []) ''AUTHORITY_CATALOG_MIGRATION_INVALID''
       (''Authority record '' @ k @ '' must pin a catalog revision.'')"

definition assertSubset :: "('a \<Rightarrow> string) \<Rightarrow> 'a list \<Rightarrow> 'a list \<Rightarrow> string \<Rightarrow> string \<Rightarrow> authority_error option" where
  "assertSubset shown requested maximum kind k =
     (let extra = filter (\<lambda>candidate. candidate \<notin> set maximum) requested
      in authority_throw (extra \<noteq> []) ''AUTHORITY_DELEGATION_BROADENING''
           (''Authority '' @ k @ '' broadens '' @ kind @ '' values: '' @ js_join '', '' (map shown extra) @ ''.''))"

definition default_to :: "'a option \<Rightarrow> 'a \<Rightarrow> 'a" where
  "default_to v d = (case v of None \<Rightarrow> d | Some x \<Rightarrow> x)"

text \<open>The two checks \<open>assertSubset(requested ?? [], maximum ?? requested ?? [], ...)\<close> of audiences and transports.\<close>

definition assertAudiences :: "string list option \<Rightarrow> string list option \<Rightarrow> string \<Rightarrow> authority_error option" where
  "assertAudiences requested maximum k =
     assertSubset (\<lambda>a. a) (default_to requested []) (default_to maximum (default_to requested [])) ''audience'' k"

definition assertTransports ::
  "ApplicationOperationTransport list option \<Rightarrow> ApplicationOperationTransport list option \<Rightarrow> string \<Rightarrow> authority_error option" where
  "assertTransports requested maximum k =
     assertSubset transport_text (default_to requested []) (default_to maximum (default_to requested [])) ''transport'' k"

definition sameIdentity :: "ApplicationIdentityReference \<Rightarrow> ApplicationIdentityReference \<Rightarrow> bool" where
  "sameIdentity left right =
     (ref_id left = ref_id right \<and> ref_kind left = ref_kind right \<and> ref_issuer left = ref_issuer right \<and>
      ref_subject left = ref_subject right)"

definition applicationRoleBootstrapOwner :: "string \<Rightarrow> string" where
  "applicationRoleBootstrapOwner roleId = ''application-role-bootstrap:'' @ roleId"

definition isFrameworkManagedRoleLease :: "string option \<Rightarrow> bool" where
  "isFrameworkManagedRoleLease lifecycleOwner =
     (case lifecycleOwner of None \<Rightarrow> False
      | Some owner \<Rightarrow> starts_with ''application-role-bootstrap:'' owner \<or> starts_with ''application-role-break-glass:'' owner)"

definition assertBootstrapIdentity :: "ApplicationIdentityReference \<Rightarrow> string \<Rightarrow> authority_error option" where
  "assertBootstrapIdentity identity label =
     authority_throw (trim (ref_id identity) = [] \<or> trim (ref_issuer identity) = [] \<or> trim (ref_subject identity) = [] \<or>
         ref_kind identity \<in> {''execution'', ''pre-authentication-flow'', ''oauth-authorization-flow''})
       ''AUTHORITY_GRANT_CONFLICT''
       (''Application '' @ label @ '' must be one exact provider-verified non-framework identity.'')"

fun allowed_transitions :: "reservation_state \<Rightarrow> reservation_state list" where
  "allowed_transitions Reserved = [Consumed, Released, ReservationExpired]"
| "allowed_transitions Consumed = [OutcomePending]"
| "allowed_transitions OutcomePending = [OutcomeVerified, OutcomeFailed]"
| "allowed_transitions OutcomeVerified = []"
| "allowed_transitions OutcomeFailed = []"
| "allowed_transitions Released = []"
| "allowed_transitions ReservationExpired = []"

fun reservation_state_text :: "reservation_state \<Rightarrow> string" where
  "reservation_state_text Reserved = ''reserved''"
| "reservation_state_text Consumed = ''consumed''"
| "reservation_state_text OutcomePending = ''outcome-pending''"
| "reservation_state_text OutcomeVerified = ''outcome-verified''"
| "reservation_state_text OutcomeFailed = ''outcome-failed''"
| "reservation_state_text Released = ''released''"
| "reservation_state_text ReservationExpired = ''expired''"

definition assertReservationTransition :: "reservation_state \<Rightarrow> reservation_state \<Rightarrow> authority_error option" where
  "assertReservationTransition before after =
     (if before = after then None
      else authority_throw (after \<notin> set (allowed_transitions before)) ''AUTHORITY_INVALID_RESERVATION_TRANSITION''
        (''Reservation cannot transition from '' @ reservation_state_text before @ '' to '' @ reservation_state_text after @ ''.''))"

text \<open>The comparisons of numbers: any comparison with \<open>NaN\<close> is false.\<close>

fun num_greater :: "js_number \<Rightarrow> js_number \<Rightarrow> bool" where
  "num_greater NNaN y = False"
| "num_greater x NNaN = False"
| "num_greater (NInf negative) (NInf negative') = (\<not> negative \<and> negative')"
| "num_greater (NInf negative) y = (\<not> negative)"
| "num_greater x (NInf negative) = negative"
| "num_greater (NInt i) (NInt j) = (i > j)"
| "num_greater (NInt i) (NFrac r) = (of_int i > r)"
| "num_greater (NFrac q) (NInt j) = (q > of_int j)"
| "num_greater (NFrac q) (NFrac r) = (q > r)"

fun count_reaches :: "nat \<Rightarrow> js_number \<Rightarrow> bool" where
  "count_reaches n (NInt i) = (int n \<ge> i)"
| "count_reaches n (NFrac r) = (of_nat n \<ge> r)"
| "count_reaches n NNaN = False"
| "count_reaches n (NInf negative) = negative"

section \<open>Validation of a grant\<close>

definition unset :: "string option \<Rightarrow> bool" where
  "unset v = (truthy_text v = None)"

definition find_permission :: "string \<Rightarrow> ApplicationAuthoritySnapshot \<Rightarrow> ApplicationPermissionRecord option" where
  "find_permission k state = find (\<lambda>candidate. pm_id candidate = k \<and> unset (pm_retiredAt candidate)) (sn_permissions state)"

definition validate_shape :: "ApplicationGrantRecord \<Rightarrow> authority_error option" where
  "validate_shape r = first_error
     [validateScopeOrThrow (gr_scope r) (''grants.'' @ gr_id r @ ''.scope''),
      authority_throw (ref_id (gr_identity r) = ref_id (gr_issuedBy r) \<and> gr_origin r = RuntimeOrigin) ''AUTHORITY_SELF_GRANT''
        (''Runtime principal '' @ ref_id (gr_identity r) @ '' cannot grant authority to itself.''),
      authority_throw (gr_operationIds r = []) ''AUTHORITY_GRANT_CONFLICT''
        (''Grant '' @ gr_id r @ '' must contain at least one operation.''),
      authority_throw (trim (gr_catalogRevision r) = [] \<or> trim (gr_authorityRevision r) = []) ''AUTHORITY_GRANT_CONFLICT''
        (''Grant '' @ gr_id r @ '' must pin catalog and authority revisions.'')]"

definition validate_permission ::
  "authority_env \<Rightarrow> ApplicationGrantRecord \<Rightarrow> ApplicationPermissionRecord \<Rightarrow> bool \<Rightarrow> authority_error option" where
  "validate_permission env r permission requireGrantablePermission = first_error
     [authority_throw (pm_catalogRevision permission \<noteq> gr_catalogRevision r) ''AUTHORITY_CATALOG_MIGRATION_INVALID''
        (''Grant '' @ gr_id r @ '' and permission '' @ pm_id permission @ '' must pin the same catalog revision.''),
      assertSubset (\<lambda>k. k) (gr_operationIds r) (pm_operationIds permission) ''operation'' (gr_id r),
      assertScopeNotBroader (env_scope env) (gr_scope r) (pm_scope permission) (gr_id r),
      assertAudiences (gr_audiences r) (pm_audiences permission) (gr_id r),
      assertTransports (gr_transports r) (pm_transports permission) (gr_id r),
      authority_throw (requireGrantablePermission \<and> \<not> pm_grantable permission) ''AUTHORITY_PERMISSION_NOT_GRANTABLE''
        (''Permission '' @ pm_id permission @ '' cannot be assigned at runtime.'')]"

definition issuer_grant ::
  "authority_env \<Rightarrow> int \<Rightarrow> ApplicationGrantRecord \<Rightarrow> ApplicationAuthoritySnapshot \<Rightarrow> string \<Rightarrow> ApplicationGrantRecord option" where
  "issuer_grant env now r state permissionId = find (\<lambda>candidate.
       ref_id (gr_identity candidate) = ref_id (gr_issuedBy r) \<and> gr_canGrant candidate = Some True \<and>
       unset (gr_revokedAt candidate) \<and> \<not> isExpired env (gr_expiresAt candidate) now \<and>
       gr_catalogRevision candidate = gr_catalogRevision r \<and> gr_permissionId candidate = Some permissionId) (sn_grants state)"

definition outlives :: "string option \<Rightarrow> string option \<Rightarrow> bool" where
  "outlives expiry bound =
     (case (truthy_text expiry, truthy_text bound) of (Some e, Some b) \<Rightarrow> b < e | _ \<Rightarrow> False)"

definition validate_issuer ::
  "authority_env \<Rightarrow> ApplicationGrantRecord \<Rightarrow> ApplicationGrantRecord \<Rightarrow> authority_error option" where
  "validate_issuer env r issuerGrant = first_error
     [assertSubset (\<lambda>k. k) (gr_operationIds r) (gr_operationIds issuerGrant) ''operation'' (gr_id r),
      assertScopeNotBroader (env_scope env) (gr_scope r) (gr_scope issuerGrant) (gr_id r),
      assertAudiences (gr_audiences r) (gr_audiences issuerGrant) (gr_id r),
      assertTransports (gr_transports r) (gr_transports issuerGrant) (gr_id r),
      authority_throw (outlives (gr_expiresAt r) (gr_expiresAt issuerGrant)) ''AUTHORITY_GRANT_CONFLICT''
        (''Runtime grant '' @ gr_id r @ '' cannot outlive issuer grant '' @ gr_id issuerGrant @ ''.'')]"

definition validate_delegation ::
  "authority_env \<Rightarrow> int \<Rightarrow> ApplicationGrantRecord \<Rightarrow> ApplicationAuthoritySnapshot \<Rightarrow> authority_error option" where
  "validate_delegation env now r state =
     (case truthy_text (gr_delegationId r) of
        None \<Rightarrow> None
      | Some k \<Rightarrow>
          (case find (\<lambda>candidate. dl_id candidate = k) (sn_delegations state) of
             None \<Rightarrow> Some (ApplicationAuthorityError ''AUTHORITY_DELEGATION_UNAVAILABLE'' (''Delegation '' @ k @ '' is unavailable.''))
           | Some delegation \<Rightarrow> first_error
               [authority_throw (\<not> unset (dl_revokedAt delegation) \<or> isExpired env (dl_expiresAt delegation) now)
                  ''AUTHORITY_DELEGATION_UNAVAILABLE'' (''Delegation '' @ k @ '' is unavailable.''),
                assertSubset (\<lambda>k. k) (gr_operationIds r) (dl_operationIds delegation) ''operation'' (gr_id r),
                assertAudiences (gr_audiences r) (dl_audiences delegation) (gr_id r),
                assertTransports (gr_transports r) (dl_transports delegation) (gr_id r),
                authority_throw (case (gr_maximumUses r, dl_maximumUses delegation) of
                    (Some m, Some d) \<Rightarrow> num_greater m d | _ \<Rightarrow> False) ''AUTHORITY_DELEGATION_BROADENING''
                  (''Grant '' @ gr_id r @ '' exceeds delegation '' @ dl_id delegation @ '' maximum uses.''),
                authority_throw (outlives (gr_expiresAt r) (dl_expiresAt delegation)) ''AUTHORITY_DELEGATION_BROADENING''
                  (''Grant '' @ gr_id r @ '' outlives delegation '' @ dl_id delegation @ ''.''),
                assertScopeNotBroader (env_scope env) (gr_scope r) (dl_scope delegation) (gr_id r)]))"

definition validate_outcome :: "ApplicationGrantRecord \<Rightarrow> ApplicationAuthoritySnapshot \<Rightarrow> authority_error option" where
  "validate_outcome r state =
     (case truthy_text (gr_outcomeId r) of
        None \<Rightarrow> None
      | Some k \<Rightarrow>
          (case find (\<lambda>candidate. ot_id candidate = k) (sn_outcomes state) of
             None \<Rightarrow> Some (ApplicationAuthorityError ''AUTHORITY_OUTCOME_UNAVAILABLE''
               (''Grant '' @ gr_id r @ '' references unavailable outcome '' @ k @ ''.''))
           | Some outcome \<Rightarrow>
               authority_throw (ref_id (ot_verifier outcome) = ref_id (gr_identity r) \<or>
                   ot_observationOperationId outcome \<in> set (gr_operationIds r)) ''AUTHORITY_OUTCOME_SELF_VERIFICATION''
                 (''Grant '' @ gr_id r @ '' cannot verify its own required outcome.'')))"

definition validateGrant ::
  "authority_env \<Rightarrow> int \<Rightarrow> ApplicationGrantRecord \<Rightarrow> ApplicationAuthoritySnapshot \<Rightarrow> bool \<Rightarrow> authority_error option" where
  "validateGrant env now r state requireGrantablePermission =
     (let permission = (case truthy_text (gr_permissionId r) of None \<Rightarrow> None | Some k \<Rightarrow> find_permission k state)
      in first_error
           [validate_shape r,
            authority_throw (truthy_text (gr_permissionId r) \<noteq> None \<and> permission = None) ''AUTHORITY_PERMISSION_UNAVAILABLE''
              (''Grant '' @ gr_id r @ '' references unavailable permission '' @ default_to (gr_permissionId r) [] @ ''.''),
            (case permission of None \<Rightarrow> None | Some p \<Rightarrow> validate_permission env r p requireGrantablePermission),
            (if \<not> requireGrantablePermission then None
             else case permission of
               None \<Rightarrow> Some (ApplicationAuthorityError ''AUTHORITY_PERMISSION_UNAVAILABLE''
                 (''Runtime grant '' @ gr_id r @ '' must derive from one grantable permission.''))
             | Some p \<Rightarrow>
                 (case issuer_grant env now r state (pm_id p) of
                    None \<Rightarrow> Some (ApplicationAuthorityError ''AUTHORITY_PERMISSION_NOT_GRANTABLE''
                      (''Identity '' @ ref_id (gr_issuedBy r) @ '' has no active canGrant authority for permission '' @ pm_id p @ ''.''))
                  | Some issuerGrant \<Rightarrow> validate_issuer env r issuerGrant)),
            validate_delegation env now r state,
            validate_outcome r state])"

end
