(* ===== verification/Authority_Service.thy ===== *)
theory Authority_Service
  imports Authority_Repository
begin

text \<open>
  The operations of \<open>ApplicationAuthorityService\<close>, \<^verbatim>\<open>packages/operations/src/authority.ts\<close>, in the order
  of the source: each is the work of one transaction, a function from the state to the thrown error or
  to the result and the next state.
\<close>

section \<open>Declared authority\<close>

definition same_text :: "authority_env \<Rightarrow> ('r \<Rightarrow> jsval) \<Rightarrow> 'r \<Rightarrow> 'r \<Rightarrow> bool" where
  "same_text env f existing r = (stableJson (env_scope env) (f existing) = stableJson (env_scope env) (f r))"

definition retire_permissions ::
  "string \<Rightarrow> string list \<Rightarrow> ApplicationPermissionRecord list \<Rightarrow> authority_state \<Rightarrow> authority_state" where
  "retire_permissions retiredAt desiredIds permissions =
     fold (\<lambda>permission s.
       if pm_origin permission \<noteq> ApplicationOrigin \<or> \<not> unset (pm_retiredAt permission) \<or> pm_id permission \<in> set desiredIds
       then s else putPermission (permission\<lparr>pm_retiredAt := Some retiredAt\<rparr>) s) permissions"

definition reconcileApplicationPermissions ::
  "authority_env \<Rightarrow> string \<Rightarrow> ApplicationPermissionRecord list \<Rightarrow> authority_state \<Rightarrow>
   authority_error + ApplicationPermissionRecord list \<times> authority_state" where
  "reconcileApplicationPermissions env manifestRevision desired s =
     (let current = snapshot s
      in case each (\<lambda>permission s.
             checked (first_error
               [assertAuthorityRecordOrigin (pm_origin permission) ApplicationOrigin (pm_id permission),
                assertAuthorityCatalogRevision (pm_catalogRevision permission) (pm_id permission),
                authority_throw (pm_manifestRevision permission \<noteq> Some manifestRevision) ''AUTHORITY_MANIFEST_REVISION_MISMATCH''
                  (''Permission '' @ pm_id permission @ '' does not carry manifest revision '' @ manifestRevision @ ''.''),
                authority_throw (map_option pm_origin (find (\<lambda>candidate. pm_id candidate = pm_id permission)
                    (sn_permissions current)) = Some RuntimeOrigin) ''AUTHORITY_ORIGIN_CONFLICT''
                  (''Application permission '' @ pm_id permission @ '' cannot shadow a runtime permission.''),
                validateScopeOrThrow (pm_scope permission) (''permissions.'' @ pm_id permission @ ''.scope'')])
             (Inr (putPermission permission s))) desired s of
           Inl e \<Rightarrow> Inl e
         | Inr s1 \<Rightarrow>
             (let (t, s2) = tick env s1;
                  s3 = retire_permissions (env_iso env t) (map pm_id desired) (sn_permissions current) s2
              in Inr (filter (\<lambda>permission. pm_origin permission = ApplicationOrigin) (sn_permissions (snapshot s3)), s3)))"

definition createRuntimePermission ::
  "authority_env \<Rightarrow> ApplicationPermissionRecord \<Rightarrow> authority_state \<Rightarrow>
   authority_error + ApplicationPermissionRecord \<times> authority_state" where
  "createRuntimePermission env r s =
     checked (first_error
       [assertAuthorityRecordOrigin (pm_origin r) RuntimeOrigin (pm_id r),
        assertAuthorityCatalogRevision (pm_catalogRevision r) (pm_id r),
        validateScopeOrThrow (pm_scope r) (''permissions.'' @ pm_id r @ ''.scope''),
        authority_throw (list_ex (\<lambda>candidate. pm_id candidate = pm_id r) (sn_permissions (snapshot s)))
          ''AUTHORITY_ORIGIN_CONFLICT'' (''Permission '' @ pm_id r @ '' already exists and cannot be overwritten.'')])
     (Inr (r, putPermission r s))"

definition unavailable_permissions :: "(string \<Rightarrow> bool) \<Rightarrow> ApplicationAuthoritySnapshot \<Rightarrow> string list \<Rightarrow> string list" where
  "unavailable_permissions declared state permissionIds =
     filter (\<lambda>k. \<not> declared k \<and> find_permission k state = None) permissionIds"

definition createRuntimeRole ::
  "authority_env \<Rightarrow> ApplicationRoleRecord \<Rightarrow> authority_state \<Rightarrow> authority_error + ApplicationRoleRecord \<times> authority_state" where
  "createRuntimeRole env r s =
     (let state = snapshot s; missing = unavailable_permissions (\<lambda>_. False) state (rl_permissionIds r)
      in checked (first_error
           [assertAuthorityRecordOrigin (rl_origin r) RuntimeOrigin (rl_id r),
            authority_throw (list_ex (\<lambda>candidate. rl_id candidate = rl_id r) (sn_roles state)) ''AUTHORITY_ORIGIN_CONFLICT''
              (''Role '' @ rl_id r @ '' already exists and cannot be overwritten.''),
            authority_throw (missing \<noteq> []) ''AUTHORITY_PERMISSION_UNAVAILABLE''
              (''Role '' @ rl_id r @ '' references unavailable permissions: '' @ js_join '', '' missing @ ''.'')])
         (Inr (r, audit env ''role.created'' (sn_revision state) None None None
            [(''roleId'', JString (rl_id r)), (''permissionIds'', texts (rl_permissionIds r))] (putRole r s))))"

record ApplicationAuthorityManifest =
  mf_revision :: string
  mf_permissions :: "ApplicationPermissionRecord list"
  mf_roles :: "ApplicationRoleRecord list"
  mf_grants :: "ApplicationGrantRecord list"

definition reconcile_permission ::
  "authority_env \<Rightarrow> ApplicationAuthoritySnapshot \<Rightarrow> string \<Rightarrow> ApplicationPermissionRecord \<Rightarrow> authority_state \<Rightarrow>
   authority_error + authority_state" where
  "reconcile_permission env current revision permission s =
     checked (first_error
       [assertAuthorityRecordOrigin (pm_origin permission) ApplicationOrigin (pm_id permission),
        assertAuthorityCatalogRevision (pm_catalogRevision permission) (pm_id permission),
        authority_throw (pm_manifestRevision permission \<noteq> Some revision) ''AUTHORITY_MANIFEST_REVISION_MISMATCH''
          (''Permission '' @ pm_id permission @ '' does not carry manifest revision '' @ revision @ ''.''),
        validateScopeOrThrow (pm_scope permission) (''permissions.'' @ pm_id permission @ ''.scope''),
        authority_throw (list_ex (\<lambda>candidate. pm_id candidate = pm_id permission \<and> pm_origin candidate = RuntimeOrigin)
            (sn_permissions current)) ''AUTHORITY_ORIGIN_CONFLICT''
          (''Application permission '' @ pm_id permission @ '' cannot shadow a runtime permission.'')])
     (Inr (case find (\<lambda>candidate. pm_id candidate = pm_id permission) (sn_permissions current) of
             Some existing \<Rightarrow> if same_text env permission_value existing permission then s else putPermission permission s
           | None \<Rightarrow> putPermission permission s))"

definition reconcile_role ::
  "authority_env \<Rightarrow> ApplicationAuthoritySnapshot \<Rightarrow> string list \<Rightarrow> ApplicationRoleRecord \<Rightarrow> authority_state \<Rightarrow>
   authority_error + authority_state" where
  "reconcile_role env current desiredPermissionIds role s =
     (let missing = unavailable_permissions (\<lambda>k. k \<in> set desiredPermissionIds) current (rl_permissionIds role)
      in checked (first_error
           [assertAuthorityRecordOrigin (rl_origin role) ApplicationOrigin (rl_id role),
            authority_throw (list_ex (\<lambda>candidate. rl_id candidate = rl_id role \<and> rl_origin candidate = RuntimeOrigin)
                (sn_roles current)) ''AUTHORITY_ORIGIN_CONFLICT''
              (''Application role '' @ rl_id role @ '' cannot shadow a runtime role.''),
            authority_throw (missing \<noteq> []) ''AUTHORITY_PERMISSION_UNAVAILABLE''
              (''Role '' @ rl_id role @ '' references unavailable permissions: '' @ js_join '', '' missing @ ''.'')])
         (Inr (case find (\<lambda>candidate. rl_id candidate = rl_id role) (sn_roles current) of
                 Some existing \<Rightarrow> if same_text env role_value existing role then s else putRole role s
               | None \<Rightarrow> putRole role s)))"

definition reconcile_grant ::
  "authority_env \<Rightarrow> ApplicationGrantRecord \<Rightarrow> authority_state \<Rightarrow> authority_error + authority_state" where
  "reconcile_grant env grant s =
     (let state = snapshot s; (now, s1) = tick env s
      in checked (first_error
           [assertAuthorityRecordOrigin (gr_origin grant) ApplicationOrigin (gr_id grant),
            authority_throw (list_ex (\<lambda>candidate. gr_id candidate = gr_id grant \<and> gr_origin candidate = RuntimeOrigin)
                (sn_grants state)) ''AUTHORITY_ORIGIN_CONFLICT''
              (''Application grant '' @ gr_id grant @ '' cannot shadow a runtime grant.''),
            validateGrant env now grant state False])
         (Inr (case find (\<lambda>candidate. gr_id candidate = gr_id grant) (sn_grants state) of
                 Some existing \<Rightarrow> if same_text env grant_value existing grant then s1 else service_putGrant env grant s1
               | None \<Rightarrow> service_putGrant env grant s1)))"

definition retire_roles ::
  "string \<Rightarrow> string list \<Rightarrow> ApplicationRoleRecord list \<Rightarrow> authority_state \<Rightarrow> authority_state" where
  "retire_roles retiredAt desiredIds roles =
     fold (\<lambda>role s.
       if rl_origin role = ApplicationOrigin \<and> unset (rl_retiredAt role) \<and> rl_id role \<notin> set desiredIds
       then putRole (role\<lparr>rl_retiredAt := Some retiredAt\<rparr>) s else s) roles"

definition revoke_undeclared ::
  "authority_env \<Rightarrow> string \<Rightarrow> string list \<Rightarrow> ApplicationGrantRecord list \<Rightarrow> authority_state \<Rightarrow> authority_state" where
  "revoke_undeclared env retiredAt desiredIds grants =
     fold (\<lambda>grant s.
       if gr_origin grant = ApplicationOrigin \<and> unset (gr_revokedAt grant) \<and> gr_id grant \<notin> set desiredIds
       then service_putGrant env (grant\<lparr>gr_revokedAt := Some retiredAt\<rparr>) s else s) grants"

definition reconcileApplicationAuthority ::
  "authority_env \<Rightarrow> ApplicationAuthorityManifest \<Rightarrow> authority_state \<Rightarrow>
   authority_error + ApplicationAuthoritySnapshot \<times> authority_state" where
  "reconcileApplicationAuthority env manifest s =
     (let current = snapshot s;
          desiredPermissionIds = map pm_id (mf_permissions manifest);
          desiredRoleIds = map rl_id (mf_roles manifest);
          desiredGrantIds = map gr_id (mf_grants manifest)
      in case each (reconcile_permission env current (mf_revision manifest)) (mf_permissions manifest) s of
           Inl e \<Rightarrow> Inl e
         | Inr s1 \<Rightarrow>
             (case each (reconcile_role env current desiredPermissionIds) (mf_roles manifest) s1 of
                Inl e \<Rightarrow> Inl e
              | Inr s2 \<Rightarrow>
                  (case each (reconcile_grant env) (mf_grants manifest) s2 of
                     Inl e \<Rightarrow> Inl e
                   | Inr s3 \<Rightarrow>
                       (let (t, s4) = tick env s3;
                            retiredAt = env_iso env t;
                            s5 = retire_permissions retiredAt desiredPermissionIds (sn_permissions current) s4;
                            s6 = retire_roles retiredAt desiredRoleIds (sn_roles current) s5;
                            s7 = revoke_undeclared env retiredAt desiredGrantIds (sn_grants current) s6
                        in Inr (snapshot s7, s7)))))"

definition registerOutcome ::
  "authority_env \<Rightarrow> ApplicationOutcomeDefinition \<Rightarrow> authority_state \<Rightarrow>
   authority_error + ApplicationOutcomeDefinition \<times> authority_state" where
  "registerOutcome env r s =
     (let existing = find (\<lambda>candidate. ot_id candidate = ot_id r) (sn_outcomes (snapshot s))
      in checked (first_error
           [authority_throw (case existing of None \<Rightarrow> False | Some x \<Rightarrow> \<not> same_text env outcome_value x r)
              ''AUTHORITY_OUTCOME_CONFLICT'' (''Outcome '' @ ot_id r @ '' already exists with different semantics.''),
            validateScopeOrThrow (ot_predicate r) (''outcomes.'' @ ot_id r @ ''.predicate'')])
         (Inr (case existing of Some x \<Rightarrow> (x, s) | None \<Rightarrow> (r, putOutcome r s))))"

definition static_permission ::
  "string \<Rightarrow> string \<Rightarrow> string \<Rightarrow> ApplicationAuthoritySnapshot \<Rightarrow> ApplicationStaticPermissionDefinition \<Rightarrow>
   ApplicationPermissionRecord" where
  "static_permission revision catalogRevision now current dfn =
     \<lparr>pm_id = sp_id dfn, pm_name = sp_name dfn, pm_origin = ApplicationOrigin,
      pm_manifestRevision = Some revision, pm_catalogRevision = catalogRevision,
      pm_operationIds = sp_operationIds dfn, pm_scope = sp_scope dfn,
      pm_transports = sp_transports dfn, pm_audiences = sp_audiences dfn,
      pm_grantable = sp_grantable dfn, pm_lifecycleOwner = truthy_text (sp_lifecycleOwner dfn),
      pm_createdAt = (case find (\<lambda>candidate. pm_id candidate = sp_id dfn) (sn_permissions current) of
        Some existing \<Rightarrow> pm_createdAt existing | None \<Rightarrow> now),
      pm_retiredAt = None\<rparr>"

definition static_role ::
  "string \<Rightarrow> ApplicationAuthoritySnapshot \<Rightarrow> ApplicationStaticRoleDefinition \<Rightarrow> ApplicationRoleRecord" where
  "static_role now current dfn =
     \<lparr>rl_id = sr_id dfn, rl_name = sr_name dfn, rl_origin = ApplicationOrigin,
      rl_permissionIds = sr_permissionIds dfn, rl_lifecycleOwner = truthy_text (sr_lifecycleOwner dfn),
      rl_createdAt = (case find (\<lambda>candidate. rl_id candidate = sr_id dfn) (sn_roles current) of
        Some existing \<Rightarrow> rl_createdAt existing | None \<Rightarrow> now),
      rl_retiredAt = None\<rparr>"

definition static_grant ::
  "string \<Rightarrow> string \<Rightarrow> ApplicationAuthoritySnapshot \<Rightarrow> ApplicationStaticGrantDefinition \<Rightarrow> ApplicationGrantRecord" where
  "static_grant catalogRevision now current dfn =
     (let existing = find (\<lambda>candidate. gr_id candidate = sg_id dfn) (sn_grants current)
      in \<lparr>gr_id = sg_id dfn, gr_origin = ApplicationOrigin, gr_identity = sg_identity dfn,
          gr_permissionId = truthy_text (sg_permissionId dfn), gr_operationIds = sg_operationIds dfn,
          gr_scope = sg_scope dfn, gr_audiences = sg_audiences dfn, gr_transports = sg_transports dfn,
          gr_issuedBy = sg_issuedBy dfn,
          gr_canGrant = (if sg_canGrant dfn = Some True then Some True else None), gr_delegationId = None,
          gr_lifecycleOwner = truthy_text (sg_lifecycleOwner dfn), gr_reason = truthy_text (sg_reason dfn),
          gr_maximumUses = sg_maximumUses dfn, gr_expiresAt = truthy_text (sg_expiresAt dfn),
          gr_outcomeId = truthy_text (sg_outcomeId dfn), gr_catalogRevision = catalogRevision,
          gr_authorityRevision = (case existing of Some g \<Rightarrow> gr_authorityRevision g | None \<Rightarrow> sn_revision current),
          gr_createdAt = (case existing of Some g \<Rightarrow> gr_createdAt g | None \<Rightarrow> now), gr_revokedAt = None\<rparr>)"

definition undeclared_grant :: "ApplicationStaticAuthorityManifest \<Rightarrow> ApplicationStaticGrantDefinition option" where
  "undeclared_grant manifest = find (\<lambda>dfn.
     ref_id (sg_identity dfn) \<notin> ref_id ` set (sm_identities manifest) \<or>
     ref_id (sg_issuedBy dfn) \<notin> ref_id ` set (sm_identities manifest)) (sm_grants manifest)"

definition reconcileStaticAuthorityManifest ::
  "authority_env \<Rightarrow> ApplicationStaticAuthorityManifest \<Rightarrow> string \<Rightarrow> authority_state \<Rightarrow>
   authority_error + ApplicationAuthoritySnapshot \<times> authority_state" where
  "reconcileStaticAuthorityManifest env manifest catalogRevision s =
     (let current = snapshot s; (t, s1) = tick env s; now = env_iso env t
      in checked (first_error
           [authority_throw (\<not> distinct (map ref_id (sm_identities manifest))) ''AUTHORITY_MANIFEST_IDENTITY_CONFLICT''
              (''Static authority manifest '' @ sm_revision manifest @ '' contains duplicate identity references.''),
            (case undeclared_grant manifest of None \<Rightarrow> None
             | Some dfn \<Rightarrow> Some (ApplicationAuthorityError ''AUTHORITY_MANIFEST_IDENTITY_CONFLICT''
                 (''Static grant '' @ sg_id dfn @ '' references an identity not declared by manifest '' @
                  sm_revision manifest @ ''.'')))])
         (case each (\<lambda>outcome s. case registerOutcome env outcome s of Inl e \<Rightarrow> Inl e | Inr (_, s') \<Rightarrow> Inr s')
             (sm_outcomes manifest) s1 of
            Inl e \<Rightarrow> Inl e
          | Inr s2 \<Rightarrow> reconcileApplicationAuthority env
              \<lparr>mf_revision = sm_revision manifest,
               mf_permissions = map (static_permission (sm_revision manifest) catalogRevision now current) (sm_permissions manifest),
               mf_roles = map (static_role now current) (sm_roles manifest),
               mf_grants = map (static_grant catalogRevision now current) (sm_grants manifest)\<rparr> s2))"

section \<open>Requests and decisions\<close>

definition requestGrant ::
  "authority_env \<Rightarrow> ApplicationGrantRequestRecord \<Rightarrow> authority_state \<Rightarrow>
   authority_error + ApplicationGrantRequestRecord \<times> authority_state" where
  "requestGrant env r s =
     checked (first_error
       [authority_throw (gq_state r \<noteq> RequestPending) ''AUTHORITY_REQUEST_INVALID_STATE''
          (''New grant request '' @ gq_id r @ '' must be pending.''),
        validateScopeOrThrow (gq_scope r) (''grantRequests.'' @ gq_id r @ ''.scope'')])
     (case find (\<lambda>candidate. gq_id candidate = gq_id r) (sn_requests (snapshot s)) of
        Some existing \<Rightarrow>
          (if same_text env request_value existing r then Inr (existing, s)
           else Inl (ApplicationAuthorityError ''AUTHORITY_REQUEST_CONFLICT''
             (''Grant request '' @ gq_id r @ '' already exists with different terms.'')))
      | None \<Rightarrow> Inr (r, audit env ''grant.requested'' (sn_revision (snapshot s)) (Some (gq_requester r)) None None
          [(''requestId'', JString (gq_id r)), (''operationIds'', texts (gq_operationIds r))] (putRequest r s)))"

record ApplicationGrantDecision =
  gd_approval :: ApplicationApprovalRecord
  gd_grant :: "ApplicationGrantRecord option"

definition decided_grant_error ::
  "authority_env \<Rightarrow> int \<Rightarrow> ApplicationAuthoritySnapshot \<Rightarrow> ApplicationGrantRequestRecord \<Rightarrow> ApplicationGrantRecord \<Rightarrow>
   authority_error option" where
  "decided_grant_error env now state request g =
     (let outcome = (case truthy_text (gr_outcomeId g) of None \<Rightarrow> None
            | Some k \<Rightarrow> find (\<lambda>candidate. ot_id candidate = k) (sn_outcomes state))
      in first_error
        [authority_throw (ref_id (gr_identity g) \<noteq> ref_id (gq_requester request)) ''AUTHORITY_REQUEST_CONFLICT''
           (''Grant '' @ gr_id g @ '' must target request principal '' @ ref_id (gq_requester request) @ ''.''),
         assertSubset (\<lambda>k. k) (gr_operationIds g) (gq_operationIds request) ''operation'' (gr_id g),
         assertScopeNotBroader (env_scope env) (gr_scope g) (gq_scope request) (gr_id g),
         authority_throw (case gq_requestedMaximumUses request of None \<Rightarrow> False
             | Some limit \<Rightarrow> (case gr_maximumUses g of None \<Rightarrow> True | Some m \<Rightarrow> num_greater m limit))
           ''AUTHORITY_DELEGATION_BROADENING''
           (''Grant '' @ gr_id g @ '' exceeds request '' @ gq_id request @ '' maximum uses.''),
         authority_throw (case truthy_text (gq_requestedExpiresAt request) of None \<Rightarrow> False
             | Some limit \<Rightarrow> (case truthy_text (gr_expiresAt g) of None \<Rightarrow> True | Some e \<Rightarrow> limit < e))
           ''AUTHORITY_DELEGATION_BROADENING''
           (''Grant '' @ gr_id g @ '' exceeds request '' @ gq_id request @ '' expiry.''),
         authority_throw (gq_requiredOutcomeId request \<noteq> gr_outcomeId g) ''AUTHORITY_REQUEST_CONFLICT''
           (''Grant '' @ gr_id g @ '' must preserve request '' @ gq_id request @ '' outcome requirement.''),
         authority_throw (truthy_text (gr_outcomeId g) \<noteq> None \<and> outcome = None) ''AUTHORITY_OUTCOME_UNAVAILABLE''
           (''Grant '' @ gr_id g @ '' references unavailable outcome '' @ default_to (gr_outcomeId g) [] @ ''.''),
         authority_throw (case outcome of None \<Rightarrow> False
             | Some d \<Rightarrow> ref_id (ot_verifier d) = ref_id (gr_identity g) \<or> ot_observationOperationId d \<in> set (gr_operationIds g))
           ''AUTHORITY_OUTCOME_SELF_VERIFICATION''
           (''Grant '' @ gr_id g @ '' cannot verify its own required outcome.''),
         validateGrant env now g state True])"

definition decideGrantRequest ::
  "authority_env \<Rightarrow> string \<Rightarrow> ApplicationGrantDecision \<Rightarrow> authority_state \<Rightarrow>
   authority_error + ApplicationGrantRequestRecord \<times> authority_state" where
  "decideGrantRequest env requestId decision s =
     (let state = snapshot s; approval = gd_approval decision
      in case find (\<lambda>candidate. gq_id candidate = requestId) (sn_requests state) of
           None \<Rightarrow> Inl (ApplicationAuthorityError ''AUTHORITY_REQUEST_UNAVAILABLE''
             (''Grant request '' @ requestId @ '' does not exist.''))
         | Some request \<Rightarrow>
             (if gq_state request \<noteq> RequestPending
              then (if (case find (\<lambda>candidate. ap_id candidate = ap_id approval) (sn_approvals state) of
                          None \<Rightarrow> False | Some existing \<Rightarrow> same_text env approval_value existing approval)
                    then Inr (request, s)
                    else Inl (ApplicationAuthorityError ''AUTHORITY_REQUEST_INVALID_STATE''
                      (''Grant request '' @ requestId @ '' is already '' @ request_state_text (gq_state request) @ ''.'')))
              else (let (now, s1) = (if gd_grant decision = None then (0, s) else tick env s)
                    in checked (first_error
                         [authority_throw (ap_requestId approval \<noteq> gq_id request) ''AUTHORITY_REQUEST_CONFLICT''
                            (''Approval '' @ ap_id approval @ '' does not belong to request '' @ gq_id request @ ''.''),
                          authority_throw (ref_id (ap_approver approval) = ref_id (gq_requester request)) ''AUTHORITY_SELF_APPROVAL''
                            (''Requester '' @ ref_id (gq_requester request) @ '' cannot approve its own grant request.''),
                          authority_throw (ap_approve approval \<and> gd_grant decision = None) ''AUTHORITY_REQUEST_CONFLICT''
                            (''Approved request '' @ gq_id request @ '' requires a materialized grant.''),
                          authority_throw (\<not> ap_approve approval \<and> gd_grant decision \<noteq> None) ''AUTHORITY_REQUEST_CONFLICT''
                            (''Rejected request '' @ gq_id request @ '' cannot create a grant.''),
                          (case gd_grant decision of None \<Rightarrow> None | Some g \<Rightarrow> decided_grant_error env now state request g)])
                       (let s2 = (case gd_grant decision of None \<Rightarrow> s1 | Some g \<Rightarrow> service_putGrant env g s1);
                            decided = request\<lparr>gq_state := (if ap_approve approval then RequestApproved else RequestRejected),
                              gq_decidedAt := Some (ap_decidedAt approval)\<rparr>
                        in Inr (decided,
                             audit env (if ap_approve approval then ''grant.approved'' else ''grant.rejected'') (sn_revision state)
                               (Some (ap_approver approval)) None None
                               ([(''requestId'', JString requestId), (''approvalId'', JString (ap_id approval))] @
                                (case gd_grant decision of None \<Rightarrow> [] | Some g \<Rightarrow> [(''grantId'', JString (gr_id g))]))
                               (putRequest decided (putApproval approval s2)))))))"

definition assignGrant ::
  "authority_env \<Rightarrow> ApplicationGrantRecord \<Rightarrow> authority_state \<Rightarrow> authority_error + ApplicationGrantRecord \<times> authority_state" where
  "assignGrant env r s =
     (let state = snapshot s
      in case find (\<lambda>candidate. gr_id candidate = gr_id r) (sn_grants state) of
           Some existing \<Rightarrow>
             (if same_text env grant_value existing r then Inr (existing, s)
              else Inl (ApplicationAuthorityError ''AUTHORITY_GRANT_CONFLICT''
                (''Grant '' @ gr_id r @ '' already exists with different immutable authority.'')))
         | None \<Rightarrow>
             (let (now, s1) = tick env s
              in checked (validateGrant env now r state (gr_origin r = RuntimeOrigin))
                   (Inr (r, audit env ''grant.assigned'' (gr_authorityRevision r) (Some (gr_issuedBy r)) None None
                      [(''grantId'', JString (gr_id r)), (''identityId'', JString (ref_id (gr_identity r)))]
                      (service_putGrant env r s1)))))"

definition revokeGrant ::
  "authority_env \<Rightarrow> string \<Rightarrow> string \<Rightarrow> authority_state \<Rightarrow> authority_error + ApplicationGrantRecord \<times> authority_state" where
  "revokeGrant env grantId reason s =
     (case find (\<lambda>candidate. gr_id candidate = grantId) (sn_grants (snapshot s)) of
        None \<Rightarrow> Inl (ApplicationAuthorityError ''AUTHORITY_GRANT_UNAVAILABLE'' (''Grant '' @ grantId @ '' does not exist.''))
      | Some grant \<Rightarrow>
          (if \<not> unset (gr_revokedAt grant) then Inr (grant, s)
           else (let (t, s1) = tick env s;
                     revoked = grant\<lparr>gr_revokedAt := Some (env_iso env t), gr_reason := Some (default_to (gr_reason grant) reason)\<rparr>
                 in Inr (revoked, audit env ''grant.revoked'' (gr_authorityRevision grant) (Some (gr_issuedBy grant)) None None
                      [(''grantId'', JString grantId), (''reason'', JString reason)] (service_putGrant env revoked s1)))))"

section \<open>Roles\<close>

definition find_role :: "string \<Rightarrow> ApplicationAuthoritySnapshot \<Rightarrow> ApplicationRoleRecord option" where
  "find_role k state = find (\<lambda>candidate. rl_id candidate = k \<and> unset (rl_retiredAt candidate)) (sn_roles state)"

definition role_grant ::
  "string \<Rightarrow> ApplicationIdentityReference \<Rightarrow> ApplicationIdentityReference \<Rightarrow> string \<Rightarrow> string \<Rightarrow> string option \<Rightarrow> string \<Rightarrow>
   string \<Rightarrow> ApplicationPermissionRecord \<Rightarrow> ApplicationGrantRecord" where
  "role_grant prefix_id identity issuedBy lifecycleOwner reason expiresAt authorityRevision createdAt permission =
     \<lparr>gr_id = prefix_id @ '':'' @ pm_id permission, gr_origin = RuntimeOrigin, gr_identity = identity,
      gr_permissionId = Some (pm_id permission), gr_operationIds = pm_operationIds permission, gr_scope = pm_scope permission,
      gr_audiences = pm_audiences permission, gr_transports = pm_transports permission, gr_issuedBy = issuedBy,
      gr_canGrant = None, gr_delegationId = None, gr_lifecycleOwner = Some lifecycleOwner, gr_reason = Some reason,
      gr_maximumUses = None, gr_expiresAt = expiresAt, gr_outcomeId = None,
      gr_catalogRevision = pm_catalogRevision permission, gr_authorityRevision = authorityRevision,
      gr_createdAt = createdAt, gr_revokedAt = None\<rparr>"

definition bootstrap_permission ::
  "authority_env \<Rightarrow> ApplicationAuthoritySnapshot \<Rightarrow> ApplicationStaticRoleBootstrapDefinition \<Rightarrow>
   ApplicationIdentityReference \<Rightarrow> string \<Rightarrow> string \<Rightarrow> authority_state \<Rightarrow>
   authority_error + ApplicationGrantRecord \<times> authority_state" where
  "bootstrap_permission env state bootstrap admitted createdAt permissionId s =
     (case find_permission permissionId state of
        None \<Rightarrow> Inl (ApplicationAuthorityError ''AUTHORITY_PERMISSION_UNAVAILABLE''
          (''Role bootstrap '' @ sb_id bootstrap @ '' references unavailable permission '' @ permissionId @ ''.''))
      | Some permission \<Rightarrow>
          (let g = role_grant (sb_id bootstrap) admitted (sb_issuedBy bootstrap) (applicationRoleBootstrapOwner (sb_roleId bootstrap))
                 (sb_reason bootstrap) None (sn_revision state) createdAt permission;
               (now, s1) = tick env s
           in checked (validateGrant env now g state False)
                (Inr (g, audit env ''grant.assigned'' (gr_authorityRevision g) (Some (sb_issuedBy bootstrap)) None None
                   [(''grantId'', JString (gr_id g)), (''identityId'', JString (ref_id admitted)),
                    (''bootstrapId'', JString (sb_id bootstrap)), (''roleId'', JString (sb_roleId bootstrap))]
                   (service_putGrant env g s1)))))"

definition bootstrapDeclaredRole ::
  "authority_env \<Rightarrow> ApplicationStaticRoleBootstrapDefinition \<Rightarrow> ApplicationIdentityReference \<Rightarrow> authority_state \<Rightarrow>
   authority_error + ApplicationGrantRecord list \<times> authority_state" where
  "bootstrapDeclaredRole env bootstrap admitted s =
     (if \<not> sameIdentity (sb_identity bootstrap) admitted then Inr ([], s)
      else (let state = snapshot s
            in case find_role (sb_roleId bootstrap) state of
                 None \<Rightarrow> Inl (ApplicationAuthorityError ''AUTHORITY_PERMISSION_UNAVAILABLE''
                   (''Role bootstrap '' @ sb_id bootstrap @ '' references unavailable role '' @ sb_roleId bootstrap @ ''.''))
               | Some role \<Rightarrow>
                   (if rl_permissionIds role = []
                    then Inl (ApplicationAuthorityError ''AUTHORITY_PERMISSION_UNAVAILABLE''
                      (''Role bootstrap '' @ sb_id bootstrap @ '' cannot assign role '' @ rl_name role @
                       '' before it has permissions.''))
                    else (let (now, s1) = tick env s;
                              historical = filter (\<lambda>grant. gr_lifecycleOwner grant =
                                Some (applicationRoleBootstrapOwner (sb_roleId bootstrap))) (sn_grants state)
                          in if historical \<noteq> []
                             then Inr (if list_all (\<lambda>grant. sameIdentity (gr_identity grant) admitted) historical
                                       then filter (\<lambda>grant. unset (gr_revokedAt grant) \<and> \<not> isExpired env (gr_expiresAt grant) now) historical
                                       else [], s1)
                             else collect (bootstrap_permission env state bootstrap admitted (env_iso env now))
                                    (rl_permissionIds role) s1))))"

definition bootstrapRole ::
  "authority_env \<Rightarrow> ApplicationStaticRoleBootstrapDefinition \<Rightarrow> authority_state \<Rightarrow>
   authority_error + ApplicationGrantRecord list \<times> authority_state" where
  "bootstrapRole env request s =
     checked (first_error
       [authority_throw (trim (sb_reason request) = []) ''AUTHORITY_GRANT_CONFLICT''
          ''Application role bootstrap requires a non-empty audited reason.'',
        assertBootstrapIdentity (sb_identity request) ''bootstrap identity'',
        assertBootstrapIdentity (sb_issuedBy request) ''bootstrap issuer''])
     (bootstrapDeclaredRole env request (sb_identity request) s)"

record ApplicationBreakGlassRoleRequest =
  bg_request :: ApplicationStaticRoleBootstrapDefinition
  bg_expiresAt :: string
  bg_acknowledgement :: string

definition break_glass_permission ::
  "authority_env \<Rightarrow> ApplicationAuthoritySnapshot \<Rightarrow> ApplicationStaticRoleBootstrapDefinition \<Rightarrow> string \<Rightarrow> string \<Rightarrow>
   string \<Rightarrow> string \<Rightarrow> authority_state \<Rightarrow> authority_error + ApplicationGrantRecord \<times> authority_state" where
  "break_glass_permission env state request lifecycleOwner expiry createdAt permissionId s =
     (case find_permission permissionId state of
        None \<Rightarrow> Inl (ApplicationAuthorityError ''AUTHORITY_PERMISSION_UNAVAILABLE''
          (''Break-glass role '' @ sb_roleId request @ '' references unavailable permission '' @ permissionId @ ''.''))
      | Some permission \<Rightarrow>
          (let g = role_grant lifecycleOwner (sb_identity request) (sb_issuedBy request) lifecycleOwner (sb_reason request)
                 (Some expiry) (sn_revision state) createdAt permission;
               (now, s1) = tick env s
           in checked (validateGrant env now g state False) (Inr (g, service_putGrant env g s1))))"

definition assignBreakGlassRole ::
  "authority_env \<Rightarrow> ApplicationBreakGlassRoleRequest \<Rightarrow> authority_state \<Rightarrow>
   authority_error + ApplicationGrantRecord list \<times> authority_state" where
  "assignBreakGlassRole env breakGlass s =
     (let request = bg_request breakGlass; state = snapshot s; (now, s1) = tick env s;
          lifecycleOwner = ''application-role-break-glass:'' @ sb_roleId request @ '':'' @ sb_id request;
          existing = filter (\<lambda>grant. gr_lifecycleOwner grant = Some lifecycleOwner) (sn_grants state)
      in checked (first_error
           [assertBootstrapIdentity (sb_identity request) ''break-glass identity'',
            assertBootstrapIdentity (sb_issuedBy request) ''break-glass issuer'',
            authority_throw (trim (sb_reason request) = [] \<or> trim (bg_acknowledgement breakGlass) = []) ''AUTHORITY_GRANT_CONFLICT''
              ''Break-glass authority requires an explicit acknowledgement and audited reason.''])
         (case env_date env (bg_expiresAt breakGlass) of
            None \<Rightarrow> Inl (ApplicationAuthorityError ''AUTHORITY_BREAK_GLASS_ACKNOWLEDGEMENT_REQUIRED''
              ''Break-glass expiry must be in the future and no more than 24 hours from issuance.'')
          | Some expiresAt \<Rightarrow>
              (if expiresAt \<le> now \<or> now + 24 * 60 * 60 * 1000 < expiresAt
               then Inl (ApplicationAuthorityError ''AUTHORITY_BREAK_GLASS_ACKNOWLEDGEMENT_REQUIRED''
                 ''Break-glass expiry must be in the future and no more than 24 hours from issuance.'')
               else (case find_role (sb_roleId request) state of
                       None \<Rightarrow> Inl (ApplicationAuthorityError ''AUTHORITY_PERMISSION_UNAVAILABLE''
                         (''Break-glass request '' @ sb_id request @ '' references unavailable or empty role '' @ sb_roleId request @ ''.''))
                     | Some role \<Rightarrow>
                         (if rl_permissionIds role = []
                          then Inl (ApplicationAuthorityError ''AUTHORITY_PERMISSION_UNAVAILABLE''
                            (''Break-glass request '' @ sb_id request @ '' references unavailable or empty role '' @ sb_roleId request @ ''.''))
                          else if existing \<noteq> []
                          then (if list_all (\<lambda>grant. sameIdentity (gr_identity grant) (sb_identity request) \<and>
                                    gr_expiresAt grant = Some (env_iso env expiresAt)) existing
                                then Inr (existing, s1)
                                else Inl (ApplicationAuthorityError ''AUTHORITY_GRANT_CONFLICT''
                                  (''Break-glass request '' @ sb_id request @ '' already exists with different terms.'')))
                          else (case collect (break_glass_permission env state request lifecycleOwner (env_iso env expiresAt)
                                    (env_iso env now)) (rl_permissionIds role) s1 of
                                  Inl e \<Rightarrow> Inl e
                                | Inr (grants, s2) \<Rightarrow> Inr (grants, audit env ''break-glass'' (sn_revision state)
                                    (Some (sb_issuedBy request)) None None
                                    [(''requestId'', JString (sb_id request)), (''roleId'', JString (rl_id role)),
                                     (''identityId'', JString (ref_id (sb_identity request))),
                                     (''expiresAt'', JString (env_iso env expiresAt)),
                                     (''acknowledgement'', JString (bg_acknowledgement breakGlass)),
                                     (''grantIds'', texts (map gr_id grants))] s2)))))))"

definition revokeRoleForIdentity ::
  "authority_env \<Rightarrow> string \<Rightarrow> ApplicationIdentityReference \<Rightarrow> string \<Rightarrow> authority_state \<Rightarrow>
   authority_error + ApplicationGrantRecord list \<times> authority_state" where
  "revokeRoleForIdentity env roleId identity reason s =
     checked (authority_throw (trim reason = []) ''AUTHORITY_GRANT_CONFLICT'' ''Role revocation requires a non-empty audited reason.'')
     (case find (\<lambda>candidate. rl_id candidate = roleId) (sn_roles (snapshot s)) of
        None \<Rightarrow> Inl (ApplicationAuthorityError ''AUTHORITY_PERMISSION_UNAVAILABLE'' (''Cannot revoke unavailable role '' @ roleId @ ''.''))
      | Some role \<Rightarrow>
          collect (\<lambda>grant. revokeGrant env (gr_id grant) reason)
            (filter (\<lambda>grant. unset (gr_revokedAt grant) \<and> sameIdentity (gr_identity grant) identity \<and>
                (case truthy_text (gr_permissionId grant) of None \<Rightarrow> False | Some k \<Rightarrow> k \<in> set (rl_permissionIds role)))
              (sn_grants (snapshot s))) s)"

definition grantedRolesForIdentity ::
  "authority_env \<Rightarrow> ApplicationIdentityReference \<Rightarrow> authority_state \<Rightarrow> string list \<times> authority_state" where
  "grantedRolesForIdentity env identity s =
     (let state = snapshot s; (now, s1) = tick env s;
          permissionIds = concat (map (\<lambda>grant. case truthy_text (gr_permissionId grant) of None \<Rightarrow> [] | Some k \<Rightarrow> [k])
            (filter (\<lambda>grant. sameIdentity (gr_identity grant) identity \<and> unset (gr_revokedAt grant) \<and>
               \<not> isExpired env (gr_expiresAt grant) now) (sn_grants state)))
      in (js_sort compareStrings (map rl_name (filter (\<lambda>role. unset (rl_retiredAt role) \<and> rl_permissionIds role \<noteq> [] \<and>
            list_all (\<lambda>k. k \<in> set permissionIds) (rl_permissionIds role)) (sn_roles state))), s1))"

end
