(* ===== verification/Authority_Decisions.thy ===== *)
theory Authority_Decisions
  imports Authority_Service
begin

text \<open>
  The second half of \<open>ApplicationAuthorityService\<close>, \<^verbatim>\<open>packages/operations/src/authority.ts\<close>: moving
  authority to another catalog revision, delegation, the authorization decision with its bounded
  grants, the revalidation of receipts and the tombstones of revoked external authority.
\<close>

section \<open>Migration to another catalog revision\<close>

definition migrate_operation ::
  "ApplicationOperationCompatibilityChange list \<Rightarrow> string \<Rightarrow> string \<Rightarrow> authority_error + string" where
  "migrate_operation changes owner operationId =
     (case find (\<lambda>candidate. ch_operationId candidate = operationId) changes of
        None \<Rightarrow> Inl (ApplicationAuthorityError ''AUTHORITY_CATALOG_MIGRATION_INVALID''
          (owner @ '' operation '' @ operationId @ '' has no catalog migration result.''))
      | Some change \<Rightarrow>
          (if ch_kind change = Compatible then Inr operationId
           else (case (ch_kind change, ch_replacement change) of
                   (Replaced, Some r) \<Rightarrow>
                     (if rpl_compatible r \<and> truthy_text (rpl_migration r) \<noteq> None then Inr (rpl_operationId r)
                      else Inl (ApplicationAuthorityError ''AUTHORITY_CATALOG_MIGRATION_INVALID''
                        (owner @ '' operation '' @ operationId @ '' requires an explicit compatible replacement migration before activation.'')))
                 | _ \<Rightarrow> Inl (ApplicationAuthorityError ''AUTHORITY_CATALOG_MIGRATION_INVALID''
                     (owner @ '' operation '' @ operationId @ '' requires an explicit compatible replacement migration before activation.'')))))"

fun map_result :: "('a \<Rightarrow> 'e + 'b) \<Rightarrow> 'a list \<Rightarrow> 'e + 'b list" where
  "map_result f [] = Inr []"
| "map_result f (x # xs) =
     (case f x of Inl e \<Rightarrow> Inl e | Inr y \<Rightarrow> (case map_result f xs of Inl e \<Rightarrow> Inl e | Inr ys \<Rightarrow> Inr (y # ys)))"

definition migrate_operations ::
  "ApplicationOperationCompatibilityChange list \<Rightarrow> string \<Rightarrow> string list \<Rightarrow> authority_error + string list" where
  "migrate_operations changes owner operationIds =
     (case map_result (migrate_operation changes owner) operationIds of Inl e \<Rightarrow> Inl e | Inr ids \<Rightarrow> Inr (sorted_set ids))"

definition migrate_permission ::
  "ApplicationOperationCompatibilityChange list \<Rightarrow> string \<Rightarrow> ApplicationPermissionRecord \<Rightarrow>
   authority_error + ApplicationPermissionRecord" where
  "migrate_permission changes revision permission =
     (case migrate_operations changes (''Permission '' @ pm_id permission) (pm_operationIds permission) of
        Inl e \<Rightarrow> Inl e
      | Inr ids \<Rightarrow> Inr (permission\<lparr>pm_operationIds := ids, pm_catalogRevision := revision\<rparr>))"

definition migrate_grant ::
  "ApplicationOperationCompatibilityChange list \<Rightarrow> string \<Rightarrow> string \<Rightarrow> ApplicationGrantRecord \<Rightarrow>
   authority_error + ApplicationGrantRecord" where
  "migrate_grant changes revision authorityRevision grant =
     (case migrate_operations changes (''Grant '' @ gr_id grant) (gr_operationIds grant) of
        Inl e \<Rightarrow> Inl e
      | Inr ids \<Rightarrow> Inr (grant\<lparr>gr_operationIds := ids, gr_catalogRevision := revision, gr_authorityRevision := authorityRevision\<rparr>))"

definition replace_by :: "('r \<Rightarrow> string) \<Rightarrow> 'r list \<Rightarrow> 'r \<Rightarrow> 'r" where
  "replace_by key migrated r = default_to (find (\<lambda>m. key m = key r) migrated) r"

definition move_grant ::
  "authority_env \<Rightarrow> ApplicationOperationCatalog \<Rightarrow> ApplicationOperationCatalog \<Rightarrow> ApplicationGrantRecord \<Rightarrow> authority_state \<Rightarrow>
   authority_state" where
  "move_grant env before to grant s =
     putCatalogReference (oc_revision to) GrantReference (gr_id grant)
       (removeCatalogReference (oc_revision before) GrantReference (gr_id grant) (putGrant grant s))"

definition drop_expired_grant ::
  "authority_env \<Rightarrow> string \<Rightarrow> string \<Rightarrow> ApplicationGrantRecord \<Rightarrow> authority_state \<Rightarrow> authority_state" where
  "drop_expired_grant env fromRevision authorityRevision grant s =
     audit env ''grant.expired'' authorityRevision (Some (gr_issuedBy grant)) None None
       [(''grantId'', JString (gr_id grant)), (''fromRevision'', JString fromRevision)]
       (removeCatalogReference fromRevision GrantReference (gr_id grant) s)"

definition migrateCatalogAuthority ::
  "authority_env \<Rightarrow> ApplicationOperationCatalog \<Rightarrow> ApplicationOperationCatalog \<Rightarrow> string \<Rightarrow> authority_state \<Rightarrow>
   authority_error + ApplicationAuthoritySnapshot \<times> authority_state" where
  "migrateCatalogAuthority env before to nextAuthorityRevision s =
     (let state = snapshot s; changes = cr_changes (compareApplicationOperationCatalogs before to no_references);
          (now, s1) = tick env s
      in checked (authority_throw (oc_application before \<noteq> oc_application to \<or>
             (oc_state before \<noteq> Active \<and> oc_state before \<noteq> Draining) \<or> (oc_state to \<noteq> Staged \<and> oc_state to \<noteq> Active))
           ''AUTHORITY_CATALOG_MIGRATION_INVALID''
           ''Authority catalog migration must move from one active/draining revision to one staged/active revision of the same application.'')
         (case map_result (migrate_permission changes (oc_revision to))
             (filter (\<lambda>permission. unset (pm_retiredAt permission) \<and> pm_catalogRevision permission = oc_revision before)
               (sn_permissions state)) of
            Inl e \<Rightarrow> Inl e
          | Inr permissions \<Rightarrow>
              (case map_result (migrate_grant changes (oc_revision to) nextAuthorityRevision)
                  (filter (\<lambda>grant. unset (gr_revokedAt grant) \<and> \<not> isExpired env (gr_expiresAt grant) now \<and>
                     gr_catalogRevision grant = oc_revision before) (sn_grants state)) of
                 Inl e \<Rightarrow> Inl e
               | Inr grants \<Rightarrow>
                   (let validation = state\<lparr>sn_permissions := map (replace_by pm_id permissions) (sn_permissions state),
                          sn_grants := map (replace_by gr_id grants) (sn_grants state)\<rparr>;
                        (now', s2) = tick env s1
                    in checked (first_error (map (\<lambda>grant. validateGrant env now' grant validation
                           (gr_origin grant = RuntimeOrigin \<and> \<not> isFrameworkManagedRoleLease (gr_lifecycleOwner grant))) grants))
                       (let s3 = fold putPermission permissions s2;
                            s4 = fold (move_grant env before to) grants s3;
                            (now'', s5) = tick env s4;
                            s6 = fold (drop_expired_grant env (oc_revision before) nextAuthorityRevision)
                              (filter (\<lambda>candidate. gr_catalogRevision candidate = oc_revision before \<and>
                                 unset (gr_revokedAt candidate) \<and> isExpired env (gr_expiresAt candidate) now'') (sn_grants state)) s5;
                            s7 = fold (\<lambda>grant. audit env ''grant.migrated'' nextAuthorityRevision (Some (gr_issuedBy grant)) None None
                              [(''grantId'', JString (gr_id grant)), (''fromRevision'', JString (oc_revision before)),
                               (''toRevision'', JString (oc_revision to)), (''operationIds'', texts (gr_operationIds grant))]) grants s6
                        in Inr (snapshot s7, s7))))))"

text \<open>Only the migration is a transaction: where the last check throws, the migrated authority stays.\<close>

definition migrateGrantCatalog ::
  "authority_env \<Rightarrow> string \<Rightarrow> ApplicationOperationCatalog \<Rightarrow> ApplicationOperationCatalog \<Rightarrow> string \<Rightarrow> authority_state \<Rightarrow>
   (authority_error + ApplicationGrantRecord) \<times> authority_state" where
  "migrateGrantCatalog env grantId before to nextAuthorityRevision s =
     (let unavailable = ApplicationAuthorityError ''AUTHORITY_GRANT_UNAVAILABLE''
            (''Grant '' @ grantId @ '' is unavailable for catalog migration.'');
          unmoved = ApplicationAuthorityError ''AUTHORITY_CATALOG_MIGRATION_INVALID''
            (''Grant '' @ grantId @ '' did not migrate to catalog '' @ oc_revision to @ ''.'')
      in case find (\<lambda>candidate. gr_id candidate = grantId \<and> unset (gr_revokedAt candidate)) (sn_grants (snapshot s)) of
           None \<Rightarrow> (Inl unavailable, s)
         | Some grant \<Rightarrow>
             (if gr_catalogRevision grant \<noteq> oc_revision before then (Inl unavailable, s)
              else (case transaction (migrateCatalogAuthority env before to nextAuthorityRevision) s of
                      (Inl e, s') \<Rightarrow> (Inl e, s')
                    | (Inr migrated, s') \<Rightarrow>
                        (case find (\<lambda>candidate. gr_id candidate = grantId) (sn_grants migrated) of
                           None \<Rightarrow> (Inl unmoved, s')
                         | Some g \<Rightarrow> (if gr_catalogRevision g \<noteq> oc_revision to then Inl unmoved else Inr g, s')))))"

section \<open>Delegation\<close>

definition delegate ::
  "authority_env \<Rightarrow> ApplicationDelegationRecord \<Rightarrow> ApplicationGrantRecord \<Rightarrow> authority_state \<Rightarrow>
   authority_error + ApplicationDelegationRecord \<times> authority_state" where
  "delegate env r parentGrant s =
     (let (now, s1) = (if unset (gr_revokedAt parentGrant) then tick env s else (0, s))
      in checked (first_error
           [authority_throw (\<not> unset (gr_revokedAt parentGrant) \<or> isExpired env (gr_expiresAt parentGrant) now)
              ''AUTHORITY_GRANT_UNAVAILABLE''
              (''Grant '' @ gr_id parentGrant @ '' cannot be delegated because it is inactive.''),
            assertSubset (\<lambda>k. k) (dl_operationIds r) (gr_operationIds parentGrant) ''operation'' (dl_id r),
            assertAudiences (dl_audiences r) (gr_audiences parentGrant) (dl_id r),
            assertTransports (dl_transports r) (gr_transports parentGrant) (dl_id r),
            assertScopeNotBroader (env_scope env) (dl_scope r) (gr_scope parentGrant) (dl_id r),
            authority_throw (outlives (dl_expiresAt r) (gr_expiresAt parentGrant)) ''AUTHORITY_DELEGATION_BROADENING''
              (''Delegation '' @ dl_id r @ '' outlives grant '' @ gr_id parentGrant @ ''.'')])
         (Inr (r, putDelegation r s1)))"

section \<open>Authorization\<close>

record ApplicationAuthorizationRequest =
  ar_application :: string
  ar_catalog :: ApplicationOperationCatalog
  ar_operation :: ApplicationOperationDescriptor
  ar_principal :: ApplicationPrincipalBase
  ar_target :: ApplicationScopeExpression
  ar_scopeEvidence :: "ApplicationScopeExpression list option"
  ar_audience :: string
  ar_transport :: ApplicationOperationTransport
  ar_inputDigest :: string
  ar_trustedContextDigest :: string
  ar_idempotencyKey :: "string option"
  ar_commandId :: "string option"
  ar_targetDigest :: "string option"
  ar_applicationPolicyAllowed :: "bool option"

datatype ApplicationAuthorizationResult =
    Allowed ApplicationAuthorizationReceipt "ApplicationGrantReservation option"
  | Denied string string

definition denyAuthorization ::
  "authority_env \<Rightarrow> ApplicationAuthorizationRequest \<Rightarrow> string \<Rightarrow> string \<Rightarrow> authority_state \<Rightarrow>
   authority_error + ApplicationAuthorizationResult \<times> authority_state" where
  "denyAuthorization env request code message s =
     Inr (Denied code message,
       audit env ''authorization.denied'' (pn_authorityRevision (ar_principal request)) (Some (pn_identity (ar_principal request)))
         (Some (od_id (ar_operation request))) (truthy_text (ar_targetDigest request))
         [(''code'', JString code), (''audience'', JString (ar_audience request)),
          (''transport'', JString (transport_text (ar_transport request)))] s)"

text \<open>The admission checks that need no stored authority, as the code and message of the first that fails.\<close>

definition admission_denial :: "ApplicationAuthorizationRequest \<Rightarrow> (string \<times> string) option" where
  "admission_denial request =
     (let catalog = ar_catalog request; operation = ar_operation request; pr = ar_principal request;
          authority = od_authority operation
      in if oc_state catalog \<noteq> Active \<and> oc_state catalog \<noteq> Draining
         then Some (''AUTHORIZATION_CATALOG_INACTIVE'',
           ''Catalog '' @ oc_revision catalog @ '' is '' @ catalog_state_text (oc_state catalog) @ ''.'')
         else if \<not> list_ex (\<lambda>candidate. od_id candidate = od_id operation) (oc_operations catalog) \<or>
           pn_catalogRevision pr \<noteq> oc_revision catalog
         then Some (''AUTHORIZATION_OPERATION_MISMATCH'',
           ''Principal and operation must resolve through catalog '' @ oc_revision catalog @ ''.'')
         else if oa_classification authority = Unclassified
         then Some (''AUTHORIZATION_OPERATION_UNCLASSIFIED'', ''Operation '' @ od_id operation @ '' has no authority classification.'')
         else if pn_trustedContextDigest pr \<noteq> ar_trustedContextDigest request
         then Some (''AUTHORIZATION_CONTEXT_MISMATCH'', ''Trusted request context does not match the admitted principal.'')
         else if ar_audience request \<notin> set (pn_audience pr)
         then Some (''AUTHORIZATION_AUDIENCE_DENIED'',
           ''Principal '' @ pn_id pr @ '' was not admitted for audience '' @ ar_audience request @ ''.'')
         else if (case oa_audiences authority of None \<Rightarrow> False | Some allowed \<Rightarrow> ar_audience request \<notin> set allowed)
         then Some (''AUTHORIZATION_AUDIENCE_DENIED'',
           ''Audience '' @ ar_audience request @ '' is outside operation '' @ od_id operation @ ''.'')
         else if (case oa_transports authority of None \<Rightarrow> False | Some allowed \<Rightarrow> ar_transport request \<notin> set allowed)
         then Some (''AUTHORIZATION_TRANSPORT_DENIED'',
           ''Transport '' @ transport_text (ar_transport request) @ '' is outside operation '' @ od_id operation @ ''.'')
         else if oa_classification authority = ApplicationPolicy \<and> ar_applicationPolicyAllowed request \<noteq> Some True
         then Some (''AUTHORIZATION_POLICY_DENIED'', ''Application policy denied '' @ od_id operation @ ''.'')
         else None)"

definition needs_grant :: "ApplicationAuthorizationRequest \<Rightarrow> bool" where
  "needs_grant request = (oa_classification (od_authority (ar_operation request)) \<notin> {Public, ApplicationPolicy})"

definition permits :: "'a list option \<Rightarrow> 'a \<Rightarrow> bool" where
  "permits allowed x = (case allowed of None \<Rightarrow> True | Some xs \<Rightarrow> x \<in> set xs)"

definition role_permissions ::
  "ApplicationAuthorizationRequest \<Rightarrow> ApplicationAuthoritySnapshot \<Rightarrow> ApplicationPermissionRecord list" where
  "role_permissions request state =
     (let rolePermissionIds = concat (map rl_permissionIds (filter (\<lambda>role. unset (rl_retiredAt role) \<and>
            rl_name role \<in> set (default_to (pn_roles (ar_principal request)) [])) (sn_roles state)))
      in if \<not> needs_grant request then []
         else filter (\<lambda>permission. pm_id permission \<in> set rolePermissionIds \<and> unset (pm_retiredAt permission) \<and>
                pm_catalogRevision permission = oc_revision (ar_catalog request) \<and>
                od_id (ar_operation request) \<in> set (pm_operationIds permission) \<and>
                permits (pm_audiences permission) (ar_audience request) \<and>
                permits (pm_transports permission) (ar_transport request)) (sn_permissions state))"

definition grant_candidates ::
  "ApplicationAuthorizationRequest \<Rightarrow> ApplicationAuthoritySnapshot \<Rightarrow> ApplicationGrantRecord list" where
  "grant_candidates request state =
     (if \<not> needs_grant request then []
      else filter (\<lambda>grant. ref_id (gr_identity grant) = ref_id (pn_identity (ar_principal request)) \<and>
             gr_catalogRevision grant = oc_revision (ar_catalog request) \<and>
             od_id (ar_operation request) \<in> set (gr_operationIds grant) \<and>
             permits (gr_audiences grant) (ar_audience request) \<and>
             permits (gr_transports grant) (ar_transport request)) (sn_grants state))"

definition request_scopes :: "ApplicationAuthorizationRequest \<Rightarrow> ApplicationScopeExpression list" where
  "request_scopes request =
     [oa_defaultScope (od_authority (ar_operation request)), ar_target request] @ default_to (ar_scopeEvidence request) []"

definition live_grant ::
  "authority_env \<Rightarrow> int \<Rightarrow> ApplicationAuthorizationRequest \<Rightarrow> ApplicationAuthoritySnapshot \<Rightarrow> ApplicationGrantRecord option" where
  "live_grant env now request state =
     find (\<lambda>candidate. unset (gr_revokedAt candidate) \<and> \<not> isExpired env (gr_expiresAt candidate) now)
       (grant_candidates request state)"

definition matching_permission ::
  "authority_env \<Rightarrow> ApplicationAuthorizationRequest \<Rightarrow> ApplicationAuthoritySnapshot \<Rightarrow> ApplicationPermissionRecord option" where
  "matching_permission env request state =
     find (\<lambda>permission. \<not> is_none (intersectApplicationScopes (env_scope env) (request_scopes request @ [pm_scope permission])))
       (role_permissions request state)"

definition effective_scope ::
  "authority_env \<Rightarrow> ApplicationAuthorizationRequest \<Rightarrow> ApplicationGrantRecord option \<Rightarrow> ApplicationPermissionRecord option \<Rightarrow>
   ApplicationScopeExpression" where
  "effective_scope env request grant rolePermission =
     intersectApplicationScopes (env_scope env) (request_scopes request @
       (case grant of None \<Rightarrow> [] | Some g \<Rightarrow> [gr_scope g]) @ (case rolePermission of None \<Rightarrow> [] | Some p \<Rightarrow> [pm_scope p]))"

fun none_reason :: "ApplicationScopeExpression \<Rightarrow> string" where
  "none_reason (ScopeNone reason) = reason"
| "none_reason _ = ''undefined''"

text \<open>The checks on the stored authority, likewise.\<close>

definition authority_denial ::
  "authority_env \<Rightarrow> int \<Rightarrow> ApplicationAuthorizationRequest \<Rightarrow> ApplicationAuthoritySnapshot \<Rightarrow> (string \<times> string) option" where
  "authority_denial env now request state =
     (let candidates = grant_candidates request state; rolePermissions = role_permissions request state;
          grant = live_grant env now request state; rolePermission = matching_permission env request state;
          operationId = od_id (ar_operation request); scope = effective_scope env request grant rolePermission
      in if needs_grant request \<and> candidates = [] \<and> rolePermissions = []
         then Some (''AUTHORIZATION_NO_GRANT'',
           ''Principal '' @ ref_id (pn_identity (ar_principal request)) @ '' has no grant for '' @ operationId @ ''.'')
         else if grant = None \<and> rolePermission = None \<and> candidates = [] \<and> rolePermissions \<noteq> []
         then Some (''AUTHORIZATION_SCOPE_EMPTY'',
           ''Every role permission for '' @ operationId @ '' excludes the requested target.'')
         else if grant = None \<and> rolePermission = None \<and> list_ex (\<lambda>candidate. \<not> unset (gr_revokedAt candidate)) candidates
         then Some (''AUTHORIZATION_GRANT_REVOKED'', ''Every matching grant for '' @ operationId @ '' is revoked.'')
         else if grant = None \<and> rolePermission = None \<and>
           list_ex (\<lambda>candidate. isExpired env (gr_expiresAt candidate) now) candidates
         then Some (''AUTHORIZATION_GRANT_EXPIRED'', ''Every matching grant for '' @ operationId @ '' is expired.'')
         else if is_none scope
         then Some (''AUTHORIZATION_SCOPE_EMPTY'', ''Authority intersection is empty: '' @ none_reason scope @ ''.'')
         else None)"

definition live_reservation :: "ApplicationGrantReservation \<Rightarrow> bool" where
  "live_reservation r = (rs_state r \<notin> {Released, ReservationExpired})"

datatype reservation_outcome =
    NoReservation
  | Reuse ApplicationGrantReservation
  | NewReservation ApplicationGrantReservation
  | Exhausted

definition reserve ::
  "authority_env \<Rightarrow> int \<Rightarrow> ApplicationAuthorizationRequest \<Rightarrow> ApplicationAuthoritySnapshot \<Rightarrow> ApplicationGrantRecord option \<Rightarrow>
   string \<Rightarrow> authority_error + reservation_outcome" where
  "reserve env now request state grant reservationId =
     (case grant of
        None \<Rightarrow> Inr NoReservation
      | Some g \<Rightarrow>
          (case gr_maximumUses g of
             None \<Rightarrow> Inr NoReservation
           | Some maximumUses \<Rightarrow>
               (case (truthy_text (ar_idempotencyKey request), truthy_text (ar_commandId request), truthy_text (ar_targetDigest request)) of
                  (Some idempotencyKey, Some commandId, Some targetDigest) \<Rightarrow>
                    (case find (\<lambda>candidate. rs_grantId candidate = gr_id g \<and> rs_idempotencyKey candidate = idempotencyKey \<and>
                        rs_operationId candidate = od_id (ar_operation request) \<and> rs_targetDigest candidate = targetDigest)
                        (sn_reservations state) of
                       Some sameRetry \<Rightarrow> Inr (Reuse sameRetry)
                     | None \<Rightarrow>
                         (if count_reaches (length (filter (\<lambda>candidate. rs_grantId candidate = gr_id g \<and> live_reservation candidate)
                              (sn_reservations state))) maximumUses
                          then Inr Exhausted
                          else Inr (NewReservation
                            \<lparr>rs_id = reservationId, rs_grantId = gr_id g, rs_idempotencyKey = idempotencyKey, rs_commandId = commandId,
                             rs_operationId = od_id (ar_operation request), rs_targetDigest = targetDigest,
                             rs_authorityRevision = pn_authorityRevision (ar_principal request), rs_state = Reserved,
                             rs_reservedAt = env_iso env now, rs_updatedAt = env_iso env now, rs_uncertainEffect = False\<rparr>)))
                | _ \<Rightarrow> Inl (ApplicationAuthorityError ''AUTHORITY_RESERVATION_REQUIRED''
                    (''Bounded grant '' @ gr_id g @ '' requires idempotencyKey, commandId, and targetDigest.'')))))"

definition grant_receipt ::
  "authority_env \<Rightarrow> int \<Rightarrow> ApplicationAuthorizationRequest \<Rightarrow> ApplicationGrantRecord option \<Rightarrow> ApplicationPermissionRecord option \<Rightarrow>
   ApplicationGrantReservation option \<Rightarrow> string \<Rightarrow> ApplicationAuthorizationReceipt" where
  "grant_receipt env now request grant rolePermission reservation k =
     \<lparr>rc_id = k, rc_application = ar_application request, rc_operationId = od_id (ar_operation request),
      rc_operationVersion = od_version (ar_operation request), rc_catalogRevision = oc_revision (ar_catalog request),
      rc_authorityRevision = pn_authorityRevision (ar_principal request), rc_principal = ar_principal request,
      rc_trustedContextDigest = ar_trustedContextDigest request,
      rc_matchedPermissionIds =
        (let fromGrant = (case grant of None \<Rightarrow> [] | Some g \<Rightarrow> (case truthy_text (gr_permissionId g) of None \<Rightarrow> [] | Some p \<Rightarrow> [p]));
             fromRole = (case rolePermission of None \<Rightarrow> [] | Some p \<Rightarrow> [pm_id p])
         in fromGrant @ filter (\<lambda>p. p \<notin> set fromGrant) fromRole),
      rc_matchedGrantIds = (case grant of None \<Rightarrow> [] | Some g \<Rightarrow> [gr_id g]), rc_inputDigest = ar_inputDigest request,
      rc_target = ar_target request, rc_scopeEvidence = default_to (ar_scopeEvidence request) [],
      rc_audience = ar_audience request, rc_transport = ar_transport request, rc_admittedAt = env_iso env now,
      rc_expiresAt = truthy_text (pn_expiresAt (ar_principal request)), rc_reservationId = map_option rs_id reservation\<rparr>"

definition admit ::
  "authority_env \<Rightarrow> int \<Rightarrow> ApplicationAuthorizationRequest \<Rightarrow> ApplicationGrantRecord option \<Rightarrow> ApplicationPermissionRecord option \<Rightarrow>
   ApplicationGrantReservation option \<Rightarrow> authority_state \<Rightarrow> ApplicationAuthorizationResult \<times> authority_state" where
  "admit env now request grant rolePermission reservation s =
     (let (k, s1) = fresh_id env s; receipt = grant_receipt env now request grant rolePermission reservation k;
          s2 = (case truthy_text (ar_commandId request) of None \<Rightarrow> s1
                | Some commandId \<Rightarrow> putCatalogReference (oc_revision (ar_catalog request)) EnvelopeReference commandId s1)
      in (Allowed receipt reservation,
          audit env ''authorization.allowed'' (pn_authorityRevision (ar_principal request)) (Some (pn_identity (ar_principal request)))
            (Some (od_id (ar_operation request))) (truthy_text (ar_targetDigest request))
            [(''receiptId'', JString (rc_id receipt)), (''grantIds'', texts (rc_matchedGrantIds receipt))] s2))"

definition authorize ::
  "authority_env \<Rightarrow> ApplicationAuthorizationRequest \<Rightarrow> authority_state \<Rightarrow>
   authority_error + ApplicationAuthorizationResult \<times> authority_state" where
  "authorize env request s =
     (let (now, s1) = tick env s; state = snapshot s1
      in case admission_denial request of
           Some (code, message) \<Rightarrow> denyAuthorization env request code message s1
         | None \<Rightarrow>
             (case authority_denial env now request state of
                Some (code, message) \<Rightarrow> denyAuthorization env request code message s1
              | None \<Rightarrow>
                  (let grant = live_grant env now request state; rolePermission = matching_permission env request state;
                       (k, s2) = fresh_id env s1
                   in case reserve env now request state grant k of
                        Inl e \<Rightarrow> Inl e
                      | Inr NoReservation \<Rightarrow> Inr (admit env now request grant rolePermission None s1)
                      | Inr (Reuse reservation) \<Rightarrow> Inr (admit env now request grant rolePermission (Some reservation) s1)
                      | Inr Exhausted \<Rightarrow> denyAuthorization env request ''AUTHORIZATION_GRANT_EXHAUSTED''
                          (''Grant '' @ gr_id (the grant) @ '' has no remaining uses.'') s1
                      | Inr (NewReservation reservation) \<Rightarrow>
                          Inr (admit env now request grant rolePermission (Some reservation)
                            (audit env ''grant.reserved'' (pn_authorityRevision (ar_principal request))
                              (Some (pn_identity (ar_principal request))) (Some (od_id (ar_operation request)))
                              (truthy_text (ar_targetDigest request))
                              [(''grantId'', JString (gr_id (the grant))), (''reservationId'', JString (rs_id reservation))]
                              (putReservation reservation s2))))))"

definition transitionReservation ::
  "authority_env \<Rightarrow> string \<Rightarrow> reservation_state \<Rightarrow> bool option \<Rightarrow> authority_state \<Rightarrow>
   authority_error + ApplicationGrantReservation \<times> authority_state" where
  "transitionReservation env reservationId after uncertainEffect s =
     (case find (\<lambda>candidate. rs_id candidate = reservationId) (sn_reservations (snapshot s)) of
        None \<Rightarrow> Inl (ApplicationAuthorityError ''AUTHORITY_RESERVATION_NOT_FOUND''
          (''Reservation '' @ reservationId @ '' does not exist.''))
      | Some reservation \<Rightarrow>
          checked (assertReservationTransition (rs_state reservation) after)
            (let (t, s1) = tick env s;
                 updated = reservation\<lparr>rs_state := after, rs_updatedAt := env_iso env t,
                   rs_uncertainEffect := default_to uncertainEffect (rs_uncertainEffect reservation)\<rparr>
             in Inr (updated, putReservation updated s1)))"

section \<open>Receipts\<close>

fun boundary_text :: "ApplicationAuthorizationBoundary \<Rightarrow> string" where
  "boundary_text Admission = ''admission''"
| "boundary_text Enqueue = ''enqueue''"
| "boundary_text Execution = ''execution''"
| "boundary_text ProtectedStep = ''protected-step''"
| "boundary_text PreCommit = ''pre-commit''"
| "boundary_text ResultRead = ''result-read''"
| "boundary_text SubscriptionResume = ''subscription-resume''"

fun receipt_grants_denial ::
  "authority_env \<Rightarrow> int \<Rightarrow> string \<Rightarrow> string \<Rightarrow> ApplicationAuthoritySnapshot \<Rightarrow> string list \<Rightarrow> (string \<times> string) option" where
  "receipt_grants_denial env now receiptId boundary state [] = None"
| "receipt_grants_denial env now receiptId boundary state (grantId # grantIds) =
     (case find (\<lambda>candidate. gr_id candidate = grantId) (sn_grants state) of
        None \<Rightarrow> Some (''AUTHORIZATION_GRANT_REVOKED'',
          ''Receipt '' @ receiptId @ '' grant '' @ grantId @ '' is unavailable before '' @ boundary @ ''.'')
      | Some grant \<Rightarrow>
          (if \<not> unset (gr_revokedAt grant)
           then Some (''AUTHORIZATION_GRANT_REVOKED'',
             ''Receipt '' @ receiptId @ '' grant '' @ grantId @ '' is unavailable before '' @ boundary @ ''.'')
           else if isExpired env (gr_expiresAt grant) now
           then Some (''AUTHORIZATION_GRANT_EXPIRED'',
             ''Receipt '' @ receiptId @ '' grant '' @ grantId @ '' expired before '' @ boundary @ ''.'')
           else receipt_grants_denial env now receiptId boundary state grantIds))"

definition revalidateReceipt ::
  "authority_env \<Rightarrow> ApplicationAuthorizationReceipt \<Rightarrow> ApplicationOperationCatalog \<Rightarrow> ApplicationAuthorizationBoundary \<Rightarrow> string \<Rightarrow>
   authority_state \<Rightarrow> ApplicationAuthorizationResult \<times> authority_state" where
  "revalidateReceipt env receipt catalog boundary trustedContextDigest s =
     (let (now, s1) = tick env s
      in if oc_revision catalog \<noteq> rc_catalogRevision receipt \<or> (oc_state catalog \<noteq> Active \<and> oc_state catalog \<noteq> Draining)
         then (Denied ''AUTHORIZATION_CATALOG_INACTIVE''
           (''Receipt '' @ rc_id receipt @ '' references unavailable catalog '' @ rc_catalogRevision receipt @ ''.''), s1)
         else (case find (\<lambda>candidate. od_id candidate = rc_operationId receipt \<and> od_version candidate = rc_operationVersion receipt)
                 (oc_operations catalog) of
                 None \<Rightarrow> (Denied ''AUTHORIZATION_OPERATION_MISMATCH''
                   (''Receipt '' @ rc_id receipt @ '' references an unknown operation version.''), s1)
               | Some operation \<Rightarrow>
                   (if boundary \<notin> set (oa_checks (od_authority operation)) then (Allowed receipt None, s1)
                    else if rc_trustedContextDigest receipt \<noteq> trustedContextDigest \<or>
                      pn_trustedContextDigest (rc_principal receipt) \<noteq> trustedContextDigest
                    then (Denied ''AUTHORIZATION_CONTEXT_MISMATCH''
                      (''Receipt '' @ rc_id receipt @ '' trusted context changed before '' @ boundary_text boundary @ ''.''), s1)
                    else if isExpired env (case rc_expiresAt receipt of Some e \<Rightarrow> Some e
                        | None \<Rightarrow> pn_expiresAt (rc_principal receipt)) now
                    then (Denied ''AUTHORIZATION_GRANT_EXPIRED''
                      (''Receipt '' @ rc_id receipt @ '' expired before '' @ boundary_text boundary @ ''.''), s1)
                    else (case receipt_grants_denial env now (rc_id receipt) (boundary_text boundary) (snapshot s1)
                            (rc_matchedGrantIds receipt) of
                            Some (code, message) \<Rightarrow> (Denied code message, s1)
                          | None \<Rightarrow> (Allowed receipt None, s1)))))"

section \<open>Tombstones of external authority\<close>

definition createRevocationTombstone ::
  "authority_env \<Rightarrow> ApplicationRevocationTombstone \<Rightarrow> authority_state \<Rightarrow>
   authority_error + ApplicationRevocationTombstone \<times> authority_state" where
  "createRevocationTombstone env r s =
     checked (first_error
       [authority_throw (\<not> unset (tb_provenAt r) \<or> \<not> unset (tb_transferredByBreakGlassAt r)) ''AUTHORITY_REVOCATION_INVALID_STATE''
          (''New revocation tombstone '' @ tb_id r @ '' cannot already be completed.''),
        authority_throw (tb_obligations r = []) ''AUTHORITY_REVOCATION_INVALID_STATE''
          (''Revocation tombstone '' @ tb_id r @ '' requires at least one external neutralization obligation.''),
        validateScopeOrThrow (tb_scope r) (''tombstones.'' @ tb_id r @ ''.scope'')])
     (case find (\<lambda>candidate. tb_id candidate = tb_id r) (sn_tombstones (snapshot s)) of
        Some existing \<Rightarrow>
          (if same_text env tombstone_value existing r then Inr (existing, s)
           else Inl (ApplicationAuthorityError ''AUTHORITY_REVOCATION_CONFLICT''
             (''Revocation tombstone '' @ tb_id r @ '' already exists with different obligations.'')))
      | None \<Rightarrow> Inr (r, putTombstone r s))"

record obligation_observation =
  oo_state :: obligation_state
  oo_providerRevision :: "string option"
  oo_observedAt :: string
  oo_guaranteedExpiryAt :: "string option"
  oo_diagnostic :: "string option"

text \<open>\<open>{ ...candidate, ...observation }\<close>: the members the observation has replace those of the obligation.\<close>

definition observed :: "obligation_observation \<Rightarrow> ApplicationRevocationObligation \<Rightarrow> ApplicationRevocationObligation" where
  "observed observation candidate =
     candidate\<lparr>ob_state := oo_state observation,
       ob_providerRevision := (case oo_providerRevision observation of None \<Rightarrow> ob_providerRevision candidate | v \<Rightarrow> v),
       ob_observedAt := Some (oo_observedAt observation),
       ob_guaranteedExpiryAt := (case oo_guaranteedExpiryAt observation of None \<Rightarrow> ob_guaranteedExpiryAt candidate | v \<Rightarrow> v),
       ob_diagnostic := (case oo_diagnostic observation of None \<Rightarrow> ob_diagnostic candidate | v \<Rightarrow> v)\<rparr>"

definition obligation_complete :: "ApplicationRevocationObligation \<Rightarrow> bool" where
  "obligation_complete candidate =
     (ob_state candidate = Neutralized \<or> (ob_state candidate = ExpiryGuaranteed \<and> ob_guaranteedExpiryAt candidate \<noteq> None))"

definition observeRevocationObligation ::
  "authority_env \<Rightarrow> string \<Rightarrow> string \<Rightarrow> obligation_observation \<Rightarrow> authority_state \<Rightarrow>
   authority_error + ApplicationRevocationTombstone \<times> authority_state" where
  "observeRevocationObligation env tombstoneId projection observation s =
     (case find (\<lambda>candidate. tb_id candidate = tombstoneId) (sn_tombstones (snapshot s)) of
        None \<Rightarrow> Inl (ApplicationAuthorityError ''AUTHORITY_REVOCATION_UNAVAILABLE''
          (''Revocation tombstone '' @ tombstoneId @ '' does not exist.''))
      | Some tombstone \<Rightarrow>
          (if \<not> unset (tb_provenAt tombstone) \<or> \<not> unset (tb_transferredByBreakGlassAt tombstone) then Inr (tombstone, s)
           else checked (first_error
             [authority_throw (\<not> list_ex (\<lambda>candidate. ob_projection candidate = projection) (tb_obligations tombstone))
                ''AUTHORITY_REVOCATION_UNAVAILABLE''
                (''Revocation tombstone '' @ tombstoneId @ '' has no '' @ projection @ '' obligation.''),
              authority_throw (oo_state observation = ExpiryGuaranteed \<and> unset (oo_guaranteedExpiryAt observation))
                ''AUTHORITY_REVOCATION_INVALID_STATE''
                (''Expiry-guaranteed obligation '' @ projection @ '' requires guaranteedExpiryAt.'')])
             (let obligations = map (\<lambda>candidate. if ob_projection candidate = projection then observed observation candidate
                    else candidate) (tb_obligations tombstone);
                  complete = list_all obligation_complete obligations;
                  (provenAt, s1) = (if complete then (let (t, s') = tick env s in (Some (env_iso env t), s'))
                    else (tb_provenAt tombstone, s));
                  updated = tombstone\<lparr>tb_obligations := obligations, tb_provenAt := provenAt\<rparr>
              in Inr (updated, audit env (if complete then ''revocation.proven'' else ''revocation.obligation-neutralized'')
                   (tb_authorityRevision tombstone) None None None
                   [(''tombstoneId'', JString tombstoneId), (''projection'', JString projection),
                    (''state'', JString (obligation_state_text (oo_state observation)))] (putTombstone updated s1)))))"

definition transferRevocationByBreakGlass ::
  "authority_env \<Rightarrow> string \<Rightarrow> ApplicationIdentityReference \<Rightarrow> string \<Rightarrow> authority_state \<Rightarrow>
   authority_error + ApplicationRevocationTombstone \<times> authority_state" where
  "transferRevocationByBreakGlass env tombstoneId actor acknowledgement s =
     checked (authority_throw (trim acknowledgement = []) ''AUTHORITY_BREAK_GLASS_ACKNOWLEDGEMENT_REQUIRED''
       ''Break-glass authority transfer requires an explicit acknowledgement.'')
     (case find (\<lambda>candidate. tb_id candidate = tombstoneId) (sn_tombstones (snapshot s)) of
        None \<Rightarrow> Inl (ApplicationAuthorityError ''AUTHORITY_REVOCATION_UNAVAILABLE''
          (''Revocation tombstone '' @ tombstoneId @ '' does not exist.''))
      | Some tombstone \<Rightarrow>
          (if \<not> unset (tb_provenAt tombstone) then Inr (tombstone, s)
           else (let (t, s1) = tick env s;
                     updated = tombstone\<lparr>tb_transferredByBreakGlassAt := Some (env_iso env t),
                       tb_auditProvenance := tb_auditProvenance tombstone @ [acknowledgement]\<rparr>
                 in Inr (updated, audit env ''break-glass'' (tb_authorityRevision tombstone) (Some actor) None None
                      [(''tombstoneId'', JString tombstoneId), (''acknowledgement'', JString acknowledgement)]
                      (putTombstone updated s1)))))"

definition assertAuthorityTeardownSafe :: "string \<Rightarrow> authority_state \<Rightarrow> authority_error option" where
  "assertAuthorityTeardownSafe application s =
     (let pending = filter (\<lambda>tombstone. tb_application tombstone = application \<and> unset (tb_provenAt tombstone) \<and>
            unset (tb_transferredByBreakGlassAt tombstone)) (sn_tombstones (snapshot s))
      in authority_throw (pending \<noteq> []) ''AUTHORITY_REVOCATION_PENDING''
           (''Application '' @ application @ '' retains '' @ nat_to_string (length pending) @
            '' unproven revocation tombstone(s): '' @ js_join '', '' (map tb_id pending) @ ''.''))"

end
