(* ===== verification/Scope_Laws.thy ===== *)
theory Scope_Laws
  imports Scope_Algebra
begin

text \<open>
  What the scope algebra means. An interpretation decides the atoms (comparisons, targets,
  relationships and so on); \<open>scope_holds\<close> extends it to all expressions. Normalization keeps the
  meaning, intersection is conjunction, and the subset test only accepts narrower expressions. The
  laws are about plain expressions: their identities have distinct keys and their numbers print back.
\<close>

section \<open>Meaning\<close>

fun scope_holds :: "(jsval \<Rightarrow> bool) \<Rightarrow> ApplicationScopeExpression \<Rightarrow> bool" where
  "scope_holds atom ScopeAll = True"
| "scope_holds atom (ScopeNone reason) = False"
| "scope_holds atom (ScopeAnd es) = (\<forall>e \<in> set es. scope_holds atom e)"
| "scope_holds atom (ScopeOr es) = (\<exists>e \<in> set es. scope_holds atom e)"
| "scope_holds atom (ScopeNot e) = (\<not> scope_holds atom e)"
| "scope_holds atom e = atom (normalizeJson (scope_value e))"

definition plain_scope :: "scope_env \<Rightarrow> (string \<Rightarrow> js_number option) \<Rightarrow> ApplicationScopeExpression \<Rightarrow> bool" where
  "plain_scope env rd e = plain_json (prints_back (env_number env) rd) (scope_value e)"

lemma plain_scope_parts:
  "plain_scope env rd ScopeAll" "plain_scope env rd (ScopeNone reason)"
  "plain_scope env rd (ScopeAnd es) \<longleftrightarrow> (\<forall>e \<in> set es. plain_scope env rd e)"
  "plain_scope env rd (ScopeOr es) \<longleftrightarrow> (\<forall>e \<in> set es. plain_scope env rd e)"
  "plain_scope env rd (ScopeNot e) \<longleftrightarrow> plain_scope env rd e"
  by (auto simp: plain_scope_def)

section \<open>Equal texts have equal meaning\<close>

fun scope_kind :: "ApplicationScopeExpression \<Rightarrow> string" where
  "scope_kind ScopeAll = ''all''"
| "scope_kind (ScopeNone _) = ''none''"
| "scope_kind (ScopeTarget _ _) = ''target''"
| "scope_kind (ScopeAnd _) = ''and''"
| "scope_kind (ScopeOr _) = ''or''"
| "scope_kind (ScopeNot _) = ''not''"
| "scope_kind (ScopeCompare _ _ _) = ''compare''"
| "scope_kind (ScopeIn _ _) = ''in''"
| "scope_kind (ScopeRelationship _ _ _ _) = ''relationship''"
| "scope_kind (ScopeTransport _ _) = ''transport''"
| "scope_kind (ScopeAudience _) = ''audience''"
| "scope_kind (ScopeTrustedContext _ _) = ''trusted-context''"

lemma scope_value_kind: "\<exists>ob. scope_value e = JObject ((''kind'', JString (scope_kind e)) # ob)"
  by (cases e) simp_all

lemma same_member: "same_json (JObject xs) (JObject ys) \<Longrightarrow> (k, v) \<in> set xs \<Longrightarrow> (k, w) \<in> set ys \<Longrightarrow> same_json v w"
  by (erule same_json.cases) auto

lemma same_string: "same_json (JString s) (JString u) \<Longrightarrow> s = u"
  by (erule same_json.cases) auto

lemma same_elements: "same_json (JArray vs) (JArray ws) \<Longrightarrow> list_all2 same_json vs ws"
  by (erule same_json.cases) auto

lemma same_scope_kind: "same_json (scope_value a) (scope_value b) \<Longrightarrow> scope_kind a = scope_kind b"
proof -
  obtain xs ys where "scope_value a = JObject ((''kind'', JString (scope_kind a)) # xs)"
    "scope_value b = JObject ((''kind'', JString (scope_kind b)) # ys)"
    using scope_value_kind by metis
  then show "same_json (scope_value a) (scope_value b) \<Longrightarrow> ?thesis"
    using same_member [of _ _ "''kind''" "JString (scope_kind a)" "JString (scope_kind b)"] same_string by simp
qed

lemma same_atom_holds:
  assumes "same_json (scope_value a) (scope_value b)" and "plain_scope env rd a" and "plain_scope env rd b"
    and "scope_kind a \<notin> {''and'', ''or'', ''not''}"
  shows "scope_holds atom a = scope_holds atom b"
proof -
  have "normalizeJson (scope_value a) = normalizeJson (scope_value b)"
    using assms(1-3) unfolding plain_scope_def by (rule same_json_normalize)
  then show ?thesis
    using same_scope_kind [OF assms(1)] assms(4)
    by (cases a; cases b; simp only: scope_kind.simps scope_holds.simps) simp_all
qed

lemma same_scope_holds:
  assumes "same_json (scope_value a) (scope_value b)" and "plain_scope env rd a" and "plain_scope env rd b"
  shows "scope_holds atom a = scope_holds atom b"
  using assms
proof (induction a arbitrary: b)
  case (ScopeAnd es)
  then obtain fs where b: "b = ScopeAnd fs" using same_scope_kind [OF ScopeAnd.prems(1)] by (cases b) auto
  have "list_all2 same_json (map scope_value es) (map scope_value fs)"
    using ScopeAnd.prems(1) same_member [of _ _ "''expressions''"] unfolding b by (fastforce intro: same_elements)
  moreover have "plain_scope env rd e" if "e \<in> set es" for e
    using that ScopeAnd.prems(2) by (simp add: plain_scope_parts)
  moreover have "plain_scope env rd f" if "f \<in> set fs" for f
    using that ScopeAnd.prems(3) by (simp add: b plain_scope_parts)
  ultimately have "list_all2 (\<lambda>e f. scope_holds atom e = scope_holds atom f) es fs"
    using ScopeAnd.IH by (auto simp: list_all2_conv_all_nth)
  then show ?case unfolding b by (fastforce simp: list_all2_conv_all_nth all_set_conv_all_nth)
next
  case (ScopeOr es)
  then obtain fs where b: "b = ScopeOr fs" using same_scope_kind [OF ScopeOr.prems(1)] by (cases b) auto
  have "list_all2 same_json (map scope_value es) (map scope_value fs)"
    using ScopeOr.prems(1) same_member [of _ _ "''expressions''"] unfolding b by (fastforce intro: same_elements)
  moreover have "plain_scope env rd e" if "e \<in> set es" for e
    using that ScopeOr.prems(2) by (simp add: plain_scope_parts)
  moreover have "plain_scope env rd f" if "f \<in> set fs" for f
    using that ScopeOr.prems(3) by (simp add: b plain_scope_parts)
  ultimately have "list_all2 (\<lambda>e f. scope_holds atom e = scope_holds atom f) es fs"
    using ScopeOr.IH by (auto simp: list_all2_conv_all_nth)
  then show ?case unfolding b by (fastforce simp: list_all2_conv_all_nth set_conv_nth)
next
  case (ScopeNot e)
  then obtain f where b: "b = ScopeNot f" using same_scope_kind [OF ScopeNot.prems(1)] by (cases b) auto
  have "same_json (scope_value e) (scope_value f)"
    using ScopeNot.prems(1) unfolding b by (auto intro: same_member [of _ _ "''expression''"])
  with ScopeNot show ?case unfolding b by (simp add: plain_scope_parts)
qed (rule same_atom_holds, assumption+, simp)+

lemma normalized_scope_holds:
  assumes "normalizeJson (scope_value a) = normalizeJson (scope_value b)"
    and "plain_scope env rd a" and "plain_scope env rd b"
  shows "scope_holds atom a = scope_holds atom b"
  using same_scope_holds [OF _ assms(2,3)] normalize_same_json [OF assms(1)] assms(2,3)
  unfolding plain_scope_def by blast

section \<open>Normalization\<close>

lemma dedupe_fold:
  assumes "fold (dedupe_step key) xs (map key result, result) = (seen', result')"
  shows "set result \<subseteq> set result' \<and> set result' \<subseteq> set result \<union> set xs \<and> key ` set xs \<subseteq> key ` set result'"
  using assms
proof (induction xs arbitrary: result)
  case (Cons x xs)
  show ?case
  proof (cases "key x \<in> key ` set result")
    case True
    then have "fold (dedupe_step key) xs (map key result, result) = (seen', result')"
      using Cons.prems by (simp add: dedupe_step_def [of key x])
    from Cons.IH [OF this] True show ?thesis by fastforce
  next
    case False
    then have "fold (dedupe_step key) xs (map key (x # result), x # result) = (seen', result')"
      using Cons.prems by (simp add: dedupe_step_def [of key x])
    from Cons.IH [OF this] show ?thesis by fastforce
  qed
qed simp

definition scope_key :: "scope_env \<Rightarrow> ApplicationScopeExpression \<Rightarrow> string" where
  "scope_key env e = canonicalJson_core (env_compare env) (env_number env) (scope_value e)"

lemma deduplicateScopes_covers:
  "set (deduplicateScopes env es) \<subseteq> set es"
  "e \<in> set es \<Longrightarrow> \<exists>d \<in> set (deduplicateScopes env es). scope_key env d = scope_key env e"
proof -
  obtain seen result where res: "fold (dedupe_step (scope_key env)) es ([], []) = (seen, result)"
    by (metis surj_pair)
  have dedup: "set (deduplicateScopes env es) = set result"
    unfolding deduplicateScopes_def scope_key_def [symmetric] using res by simp
  have covers: "set result \<subseteq> set es" "scope_key env ` set es \<subseteq> scope_key env ` set result"
    using dedupe_fold [of "scope_key env" es "[]" seen result] res by simp_all
  from covers(1) show "set (deduplicateScopes env es) \<subseteq> set es" unfolding dedup .
  assume "e \<in> set es"
  then have "scope_key env e \<in> scope_key env ` set result" using covers(2) by blast
  then show "\<exists>d \<in> set (deduplicateScopes env es). scope_key env d = scope_key env e"
    unfolding dedup by (metis imageE)
qed

lemma deduplicateScopes_holds:
  assumes "\<forall>e \<in> set es. plain_scope env rd e"
  shows "(\<forall>e \<in> set (deduplicateScopes env es). scope_holds atom e) \<longleftrightarrow> (\<forall>e \<in> set es. scope_holds atom e)"
    and "(\<exists>e \<in> set (deduplicateScopes env es). scope_holds atom e) \<longleftrightarrow> (\<exists>e \<in> set es. scope_holds atom e)"
proof -
  have same: "\<exists>d \<in> set (deduplicateScopes env es). scope_holds atom d = scope_holds atom e" if e: "e \<in> set es" for e
  proof -
    obtain d where d: "d \<in> set (deduplicateScopes env es)" "scope_key env d = scope_key env e"
      using deduplicateScopes_covers(2) [OF e] by blast
    moreover have "plain_scope env rd d" "plain_scope env rd e"
      using assms e d(1) deduplicateScopes_covers(1) by blast+
    ultimately show ?thesis
      using normalized_scope_holds canonicalJson_core_determines unfolding plain_scope_def scope_key_def by blast
  qed
  then show "(\<forall>e \<in> set (deduplicateScopes env es). scope_holds atom e) \<longleftrightarrow> (\<forall>e \<in> set es. scope_holds atom e)"
    and "(\<exists>e \<in> set (deduplicateScopes env es). scope_holds atom e) \<longleftrightarrow> (\<exists>e \<in> set es. scope_holds atom e)"
    using deduplicateScopes_covers(1) by blast+
qed

lemma conjuncts_holds: "(\<forall>c \<in> set (conjuncts e). scope_holds atom c) \<longleftrightarrow> scope_holds atom e"
  by (cases e) simp_all

lemma disjuncts_holds: "(\<exists>c \<in> set (disjuncts e). scope_holds atom c) \<longleftrightarrow> scope_holds atom e"
  by (cases e) simp_all

lemma conjuncts_plain: "(\<forall>c \<in> set (conjuncts e). plain_scope env rd c) \<longleftrightarrow> plain_scope env rd e"
  by (cases e) (simp_all add: plain_scope_parts)

lemma disjuncts_plain: "(\<forall>c \<in> set (disjuncts e). plain_scope env rd c) \<longleftrightarrow> plain_scope env rd e"
  by (cases e) (simp_all add: plain_scope_parts)

lemma is_all_holds: "is_all e \<Longrightarrow> scope_holds atom e"
  by (cases e) simp_all

lemma is_none_fails: "is_none e \<Longrightarrow> \<not> scope_holds atom e"
  by (cases e) simp_all

lemma join_scopes_and:
  assumes "\<forall>e \<in> set es. plain_scope env rd e"
  shows "plain_scope env rd (join_scopes ScopeAnd ScopeAll env es) \<and>
    scope_holds atom (join_scopes ScopeAnd ScopeAll env es) = (\<forall>e \<in> set es. scope_holds atom e)"
  using assms deduplicateScopes_covers(1) [of env es] deduplicateScopes_holds(1) [OF assms, of atom]
  by (auto simp: join_scopes_def plain_scope_parts split: list.split)

lemma join_scopes_or:
  assumes "\<forall>e \<in> set es. plain_scope env rd e"
  shows "plain_scope env rd (join_scopes ScopeOr (ScopeNone reason) env es) \<and>
    scope_holds atom (join_scopes ScopeOr (ScopeNone reason) env es) = (\<exists>e \<in> set es. scope_holds atom e)"
  using assms deduplicateScopes_covers(1) [of env es] deduplicateScopes_holds(2) [OF assms, of atom]
  by (auto simp: join_scopes_def plain_scope_parts split: list.split)

lemma normalize_scope:
  assumes "plain_scope env rd e"
  shows "plain_scope env rd (normalizeApplicationScope env e) \<and>
    scope_holds atom (normalizeApplicationScope env e) = scope_holds atom e"
  using assms
proof (induction env e rule: normalizeApplicationScope.induct)
  case (1 env es)
  let ?parts = "concat (map conjuncts es)"
  let ?normal = "map (normalizeApplicationScope env) ?parts"
  let ?filtered = "filter (\<lambda>e. \<not> is_all e) ?normal"
  have part: "plain_scope env rd (normalizeApplicationScope env c) \<and>
      scope_holds atom (normalizeApplicationScope env c) = scope_holds atom c" if "c \<in> set ?parts" for c
    using 1 that conjuncts_plain by (fastforce simp: plain_scope_parts)
  have plain: "\<forall>e \<in> set ?filtered. plain_scope env rd e" using part by auto
  have "scope_holds atom (ScopeAnd es) \<longleftrightarrow> (\<forall>c \<in> set ?parts. scope_holds atom c)"
    using conjuncts_holds by fastforce
  also have "\<dots> \<longleftrightarrow> (\<forall>e \<in> set ?normal. scope_holds atom e)" using part by auto
  also have "\<dots> \<longleftrightarrow> (\<forall>e \<in> set ?filtered. scope_holds atom e)"
    using is_all_holds unfolding set_filter by blast
  finally have meaning: "scope_holds atom (ScopeAnd es) \<longleftrightarrow> (\<forall>e \<in> set ?filtered. scope_holds atom e)" .
  have unfold: "normalizeApplicationScope env (ScopeAnd es) =
      (case find is_none ?filtered of Some nothing \<Rightarrow> nothing | None \<Rightarrow> join_scopes ScopeAnd ScopeAll env ?filtered)"
    by (simp add: normalizeApplicationScope.simps(1) Let_def)
  show ?case
  proof (cases "find is_none ?filtered")
    case None
    then show ?thesis unfolding unfold meaning using join_scopes_and [OF plain, of atom] by simp
  next
    case (Some nothing)
    from find_SomeD [OF Some] plain is_none_fails [of nothing atom] show ?thesis
      unfolding unfold meaning Some by (simp del: set_filter) blast
  qed
next
  case (2 env es)
  let ?parts = "concat (map disjuncts es)"
  let ?normal = "map (normalizeApplicationScope env) ?parts"
  let ?filtered = "filter (\<lambda>e. \<not> is_none e) ?normal"
  have part: "plain_scope env rd (normalizeApplicationScope env c) \<and>
      scope_holds atom (normalizeApplicationScope env c) = scope_holds atom c" if "c \<in> set ?parts" for c
    using 2 that disjuncts_plain by (fastforce simp: plain_scope_parts)
  have plain: "\<forall>e \<in> set ?filtered. plain_scope env rd e" using part by auto
  have "scope_holds atom (ScopeOr es) \<longleftrightarrow> (\<exists>c \<in> set ?parts. scope_holds atom c)"
    using disjuncts_holds by fastforce
  also have "\<dots> \<longleftrightarrow> (\<exists>e \<in> set ?normal. scope_holds atom e)" using part by auto
  also have "\<dots> \<longleftrightarrow> (\<exists>e \<in> set ?filtered. scope_holds atom e)"
    using is_none_fails unfolding set_filter by blast
  finally have meaning: "scope_holds atom (ScopeOr es) \<longleftrightarrow> (\<exists>e \<in> set ?filtered. scope_holds atom e)" .
  have unfold: "normalizeApplicationScope env (ScopeOr es) =
      (if list_ex is_all ?filtered then ScopeAll else join_scopes ScopeOr (ScopeNone ''scope union is empty'') env ?filtered)"
    by (simp add: normalizeApplicationScope.simps(2) Let_def)
  show ?case
  proof (cases "list_ex is_all ?filtered")
    case True
    then show ?thesis
      unfolding unfold meaning using is_all_holds by (auto simp: list_ex_iff plain_scope_parts)
  next
    case False
    then show ?thesis unfolding unfold meaning using join_scopes_or [OF plain, of _ atom] by simp
  qed
qed simp_all

lemma intersect_scopes:
  assumes "\<forall>e \<in> set es. plain_scope env rd e"
  shows "plain_scope env rd (intersectApplicationScopes env es)"
    and "scope_holds atom (intersectApplicationScopes env es) = (\<forall>e \<in> set es. scope_holds atom e)"
  using normalize_scope [of env rd "ScopeAnd es" atom] assms
  by (simp_all add: intersectApplicationScopes_def plain_scope_parts)

section \<open>The subset test\<close>

lemma stable_scope_holds:
  assumes "stableJson env (scope_value a) = stableJson env (scope_value b)"
    and "plain_scope env rd a" and "plain_scope env rd b"
  shows "scope_holds atom a = scope_holds atom b"
  using assms stable_text_determines normalized_scope_holds unfolding stableJson_def plain_scope_def by blast

lemma case_scopes:
  "(case c of ScopeOr bs \<Rightarrow> A bs | _ \<Rightarrow>
     (case m of ScopeOr bs \<Rightarrow> B bs | ScopeAnd ps \<Rightarrow> C ps | _ \<Rightarrow> (case c of ScopeAnd ps \<Rightarrow> D ps | _ \<Rightarrow> False))) \<Longrightarrow>
   (\<exists>bs. c = ScopeOr bs \<and> A bs) \<or> (\<exists>bs. m = ScopeOr bs \<and> B bs) \<or> (\<exists>ps. m = ScopeAnd ps \<and> C ps) \<or>
   (\<exists>ps. c = ScopeAnd ps \<and> D ps)"
  by (cases c; cases m) simp_all

lemma subset_cases:
  assumes "isProvableScopeSubset env candidate maximum"
  shows "is_all maximum \<or> is_none candidate \<or>
    stableJson env (scope_value candidate) = stableJson env (scope_value maximum) \<or>
    (\<exists>branches. candidate = ScopeOr branches \<and> (\<forall>b \<in> set branches. isProvableScopeSubset env b maximum)) \<or>
    (\<exists>branches. maximum = ScopeOr branches \<and> (\<exists>b \<in> set branches. isProvableScopeSubset env candidate b)) \<or>
    (\<exists>parts. maximum = ScopeAnd parts \<and> (\<forall>p \<in> set parts. isProvableScopeSubset env candidate p)) \<or>
    (\<exists>parts. candidate = ScopeAnd parts \<and> (\<exists>p \<in> set parts. isProvableScopeSubset env p maximum))"
  using assms unfolding isProvableScopeSubset.simps [of env candidate maximum] list_all_iff list_ex_iff
  by (simp only: if_True if_False if_bool_eq_disj) (blast dest: case_scopes)

lemma subset_sound:
  assumes "isProvableScopeSubset env candidate maximum"
    and "plain_scope env rd candidate" and "plain_scope env rd maximum" and "scope_holds atom candidate"
  shows "scope_holds atom maximum"
  using assms
proof (induction "size candidate + size maximum" arbitrary: candidate maximum rule: less_induct)
  case less
  have smaller: "size e < size (ScopeAnd es) \<and> size e < size (ScopeOr es)" if "e \<in> set es" for e es
    using that by (simp add: less_Suc_eq_le size_list_estimation')
  consider "is_all maximum" | "is_none candidate"
    | "stableJson env (scope_value candidate) = stableJson env (scope_value maximum)"
    | branches where "candidate = ScopeOr branches" "\<forall>b \<in> set branches. isProvableScopeSubset env b maximum"
    | branches where "maximum = ScopeOr branches" "\<exists>b \<in> set branches. isProvableScopeSubset env candidate b"
    | parts where "maximum = ScopeAnd parts" "\<forall>p \<in> set parts. isProvableScopeSubset env candidate p"
    | parts where "candidate = ScopeAnd parts" "\<exists>p \<in> set parts. isProvableScopeSubset env p maximum"
    using subset_cases [OF less.prems(1)] by blast
  then show ?case
  proof cases
    case (4 branches)
    then show ?thesis using less smaller by (force simp: plain_scope_parts)
  next
    case (5 branches)
    then show ?thesis using less smaller by (force simp: plain_scope_parts)
  next
    case (6 parts)
    then show ?thesis using less smaller by (force simp: plain_scope_parts)
  next
    case (7 parts)
    then show ?thesis using less smaller by (force simp: plain_scope_parts)
  qed (use less.prems is_all_holds is_none_fails stable_scope_holds in blast)+
qed

section \<open>Properties\<close>

definition sample_env :: scope_env where
  "sample_env = \<lparr>env_compare = compareStrings, env_number = example_fmt\<rparr>"

definition own_post :: ApplicationScopeExpression where
  "own_post = ScopeCompare ''authorId'' OpEq (Reference SourcePrincipal ''identity.subject'')"

definition published_post :: ApplicationScopeExpression where
  "published_post = ScopeCompare ''published'' OpEq (Literal (ScalarBool True))"

definition first_post :: ApplicationScopeExpression where
  "first_post = ScopeTarget ''Post'' [(''id'', ScalarNumber (NInt 1))]"

lemmas sample_scopes = sample_env_def own_post_def published_post_def first_post_def

text \<open>
  C39: The intersection of scopes means their conjunction under every interpretation of the atoms:
  flattening, dropping \<open>all\<close>, collapsing to \<open>none\<close> and removing duplicates lose and add nothing.
\<close>

theorem scope_intersection_is_conjunction:
  assumes "\<forall>e \<in> set es. plain_scope env rd e"
  shows "scope_holds atom (intersectApplicationScopes env es) = (\<forall>e \<in> set es. scope_holds atom e) \<and>
    scope_holds atom (normalizeApplicationScope env (ScopeOr es)) = (\<exists>e \<in> set es. scope_holds atom e)"
  using intersect_scopes(2) [OF assms, of atom] normalize_scope [of env rd "ScopeOr es" atom] assms
  by (simp add: plain_scope_parts)

theorem scope_intersection_is_conjunction_witness:
  "\<forall>atom. scope_holds atom (intersectApplicationScopes sample_env [ScopeAll, own_post, own_post, first_post]) =
     (scope_holds atom own_post \<and> scope_holds atom first_post)"
proof -
  have "\<forall>e \<in> set [ScopeAll, own_post, own_post, first_post]. plain_scope sample_env example_rd e"
    by (simp add: plain_scope_def sample_scopes prints_back_def MAX_SAFE_INTEGER_def)
  from scope_intersection_is_conjunction [OF this] show ?thesis by simp
qed

lemma narrowing_sound:
  assumes "assertScopeNotBroader env candidate maximum k = None"
    and "plain_scope env rd candidate" and "plain_scope env rd maximum"
  shows "{atom. scope_holds atom candidate} \<subseteq> {atom. scope_holds atom maximum}"
proof -
  have "isProvableScopeSubset env (normalizeApplicationScope env candidate) (normalizeApplicationScope env maximum)"
    using assms(1) by (simp add: assertScopeNotBroader_def split: if_splits)
  then show ?thesis
    using subset_sound normalize_scope [OF assms(2)] normalize_scope [OF assms(3)] by blast
qed

text \<open>
  C40: Where the narrowing check of a grant, a delegation or an approved request accepts a scope, that
  scope implies its maximum under every interpretation of the atoms: authority is never widened
  through its scope.
\<close>

theorem narrowing_check_sound:
  assumes "assertScopeNotBroader env candidate maximum k = None"
    and "plain_scope env rd candidate" and "plain_scope env rd maximum"
  shows "{atom. scope_holds atom candidate} \<subseteq> {atom. scope_holds atom maximum}"
  using assms by (rule narrowing_sound)

theorem narrowing_check_sound_witness:
  "assertScopeNotBroader sample_env (ScopeAnd [own_post, published_post]) own_post ''g'' = None \<and>
   {atom. scope_holds atom (ScopeAnd [own_post, published_post])} \<subseteq> {atom. scope_holds atom own_post}"
proof -
  have "assertScopeNotBroader sample_env (ScopeAnd [own_post, published_post]) own_post ''g'' = None"
    by code_simp
  moreover have "plain_scope sample_env example_rd (ScopeAnd [own_post, published_post])"
    "plain_scope sample_env example_rd own_post"
    by (simp_all add: plain_scope_def sample_scopes)
  ultimately show ?thesis using narrowing_check_sound by blast
qed

text \<open>
  The narrowing check refuses a conjunction whose maximum is a union, even where the union is one of
  the conjuncts.
\<close>

theorem narrowed_union_refused:
  "assertScopeNotBroader sample_env (ScopeAnd [ScopeOr [ScopeAudience ''a'', ScopeAudience ''b''], ScopeAudience ''c''])
     (ScopeOr [ScopeAudience ''a'', ScopeAudience ''b'']) ''g'' \<noteq> None \<and>
   {atom. scope_holds atom (ScopeAnd [ScopeOr [ScopeAudience ''a'', ScopeAudience ''b''], ScopeAudience ''c''])} \<subseteq>
     {atom. scope_holds atom (ScopeOr [ScopeAudience ''a'', ScopeAudience ''b''])}"
proof
  show "assertScopeNotBroader sample_env (ScopeAnd [ScopeOr [ScopeAudience ''a'', ScopeAudience ''b''], ScopeAudience ''c''])
     (ScopeOr [ScopeAudience ''a'', ScopeAudience ''b'']) ''g'' \<noteq> None"
    by code_simp
qed auto

end
