(* ===== verification/Authority_Laws.thy ===== *)
theory Authority_Laws
  imports Authority_Decisions Scope_Laws
begin

text \<open>
  The library of laws of the authority service: what its checks establish, which parts of the state
  each operation leaves alone, and the invariant that every stored record stands under its id. The
  operations are gathered in \<open>authority_op\<close>; \<open>perform_op\<close> runs one as a transaction, \<open>run\<close> a sequence.
\<close>

named_theorems frame \<open>parts of the state an operation leaves alone\<close>

section \<open>Checks\<close>

lemma first_error_None [simp]: "first_error cs = None \<longleftrightarrow> (\<forall>c \<in> set cs. c = None)"
  by (induction cs rule: first_error.induct) simp_all

lemma checked_Inr [simp]: "checked c r = Inr x \<longleftrightarrow> c = None \<and> r = Inr x"
  by (cases c) (simp_all add: checked_def)

lemma authority_throw_None [simp]: "authority_throw b code message = None \<longleftrightarrow> \<not> b"
  by (simp add: authority_throw_def)

lemma assertSubset_None [simp]: "assertSubset shown requested maximum kind k = None \<longleftrightarrow> set requested \<subseteq> set maximum"
  by (auto simp: assertSubset_def Let_def filter_empty_conv)

definition narrower :: "'a list option \<Rightarrow> 'a list option \<Rightarrow> bool" where
  "narrower requested maximum = (case (requested, maximum) of (Some r, Some m) \<Rightarrow> set r \<subseteq> set m | _ \<Rightarrow> True)"

lemma assertAudiences_None [simp]: "assertAudiences requested maximum k = None \<longleftrightarrow> narrower requested maximum"
  by (simp add: assertAudiences_def narrower_def default_to_def split: option.split)

lemma assertTransports_None [simp]: "assertTransports requested maximum k = None \<longleftrightarrow> narrower requested maximum"
  by (simp add: assertTransports_def narrower_def default_to_def split: option.split)

section \<open>Operations\<close>

datatype authority_op =
    ReconcilePermissions string "ApplicationPermissionRecord list"
  | CreatePermission ApplicationPermissionRecord
  | CreateRole ApplicationRoleRecord
  | Reconcile ApplicationAuthorityManifest
  | ReconcileStatic ApplicationStaticAuthorityManifest string
  | RegisterOutcome ApplicationOutcomeDefinition
  | RequestGrant ApplicationGrantRequestRecord
  | Decide string ApplicationGrantDecision
  | Assign ApplicationGrantRecord
  | Bootstrap ApplicationStaticRoleBootstrapDefinition ApplicationIdentityReference
  | BootstrapRole ApplicationStaticRoleBootstrapDefinition
  | BreakGlass ApplicationBreakGlassRoleRequest
  | RevokeRole string ApplicationIdentityReference string
  | GrantedRoles ApplicationIdentityReference
  | Migrate ApplicationOperationCatalog ApplicationOperationCatalog string
  | MigrateGrant string ApplicationOperationCatalog ApplicationOperationCatalog string
  | Delegate ApplicationDelegationRecord ApplicationGrantRecord
  | Authorize ApplicationAuthorizationRequest
  | Transition string reservation_state "bool option"
  | Revalidate ApplicationAuthorizationReceipt ApplicationOperationCatalog ApplicationAuthorizationBoundary string
  | CreateTombstone ApplicationRevocationTombstone
  | Observe string string obligation_observation
  | Transfer string ApplicationIdentityReference string
  | RevokeGrant string string

fun perform_op :: "authority_env \<Rightarrow> authority_op \<Rightarrow> authority_state \<Rightarrow> authority_state" where
  "perform_op env (ReconcilePermissions revision desired) s = snd (transaction (reconcileApplicationPermissions env revision desired) s)"
| "perform_op env (CreatePermission r) s = snd (transaction (createRuntimePermission env r) s)"
| "perform_op env (CreateRole r) s = snd (transaction (createRuntimeRole env r) s)"
| "perform_op env (Reconcile manifest) s = snd (transaction (reconcileApplicationAuthority env manifest) s)"
| "perform_op env (ReconcileStatic manifest revision) s = snd (transaction (reconcileStaticAuthorityManifest env manifest revision) s)"
| "perform_op env (RegisterOutcome r) s = snd (transaction (registerOutcome env r) s)"
| "perform_op env (RequestGrant r) s = snd (transaction (requestGrant env r) s)"
| "perform_op env (Decide k decision) s = snd (transaction (decideGrantRequest env k decision) s)"
| "perform_op env (Assign r) s = snd (transaction (assignGrant env r) s)"
| "perform_op env (Bootstrap b identity) s = snd (transaction (bootstrapDeclaredRole env b identity) s)"
| "perform_op env (BootstrapRole b) s = snd (transaction (bootstrapRole env b) s)"
| "perform_op env (BreakGlass b) s = snd (transaction (assignBreakGlassRole env b) s)"
| "perform_op env (RevokeRole k identity reason) s = snd (transaction (revokeRoleForIdentity env k identity reason) s)"
| "perform_op env (GrantedRoles identity) s = snd (grantedRolesForIdentity env identity s)"
| "perform_op env (Migrate before to revision) s = snd (transaction (migrateCatalogAuthority env before to revision) s)"
| "perform_op env (MigrateGrant k before to revision) s = snd (migrateGrantCatalog env k before to revision s)"
| "perform_op env (Delegate r g) s = snd (transaction (delegate env r g) s)"
| "perform_op env (Authorize request) s = snd (transaction (authorize env request) s)"
| "perform_op env (Transition k after uncertain) s = snd (transaction (transitionReservation env k after uncertain) s)"
| "perform_op env (Revalidate receipt catalog boundary digest) s = snd (revalidateReceipt env receipt catalog boundary digest s)"
| "perform_op env (CreateTombstone r) s = snd (transaction (createRevocationTombstone env r) s)"
| "perform_op env (Observe k projection observation) s = snd (transaction (observeRevocationObligation env k projection observation) s)"
| "perform_op env (Transfer k actor acknowledgement) s = snd (transaction (transferRevocationByBreakGlass env k actor acknowledgement) s)"
| "perform_op env (RevokeGrant k reason) s = snd (transaction (revokeGrant env k reason) s)"

text \<open>Every operation of a sequence has its own environment: clock readings and ids are new each time.\<close>

definition run :: "(authority_env \<times> authority_op) list \<Rightarrow> authority_state \<Rightarrow> authority_state" where
  "run ops s = fold (\<lambda>(env, op). perform_op env op) ops s"

lemma run_simps [simp]: "run [] s = s" "run ((env, op) # ops) s = run ops (perform_op env op s)"
  by (simp_all add: run_def)

lemma transaction_cases:
  "snd (transaction work s) = s \<or> (\<exists>x. work s = Inr (x, snd (transaction work s)))"
  by (simp add: transaction_def split: sum.split prod.split)

text \<open>What a transaction preserves.\<close>

lemma transaction_keeps:
  assumes "\<And>x s'. work s = Inr (x, s') \<Longrightarrow> P s'" and "P s"
  shows "P (snd (transaction work s))"
  using transaction_cases [of work s] assms by metis

section \<open>Loops\<close>

lemma fold_keeps: "(\<And>x s. x \<in> set xs \<Longrightarrow> P s \<Longrightarrow> P (f x s)) \<Longrightarrow> P s \<Longrightarrow> P (fold f xs s)"
  by (induction xs arbitrary: s) simp_all

lemma each_keeps:
  assumes "each f xs s = Inr s'" and "\<And>x s s'. x \<in> set xs \<Longrightarrow> f x s = Inr s' \<Longrightarrow> P s \<Longrightarrow> P s'" and "P s"
  shows "P s'"
  using assms
proof (induction xs arbitrary: s)
  case (Cons x xs)
  then obtain s1 where "f x s = Inr s1" and rest: "each f xs s1 = Inr s'" by (auto split: sum.splits)
  then have "P s1" using Cons.prems(2) [of x s s1] Cons.prems(3) by simp
  then show ?case using Cons.IH [OF rest] Cons.prems(2) by (meson list.set_intros(2))
qed simp

lemma collect_keeps:
  assumes "collect f xs s = Inr (ys, s')" and "\<And>x y s s'. x \<in> set xs \<Longrightarrow> f x s = Inr (y, s') \<Longrightarrow> P s \<Longrightarrow> P s'" and "P s"
  shows "P s'"
  using assms
proof (induction xs arbitrary: s ys)
  case (Cons x xs)
  then obtain y s1 zs where "f x s = Inr (y, s1)" and rest: "collect f xs s1 = Inr (zs, s')"
    by (auto split: sum.splits)
  then have "P s1" using Cons.prems(2) [of x s y s1] Cons.prems(3) by simp
  then show ?case using Cons.IH [OF rest] Cons.prems(2) by (meson list.set_intros(2))
qed simp

section \<open>Frames\<close>

text \<open>The writes and the counters, each on its own part of the state.\<close>

lemmas writes = putPermission_def putRole_def putGrant_def putDelegation_def putRequest_def putApproval_def putOutcome_def
  putReservation_def putTombstone_def bump_def

lemma reservations_frame [frame]:
  "st_reservations (putPermission p s) = st_reservations s" "st_reservations (putRole r s) = st_reservations s"
  "st_reservations (putGrant g s) = st_reservations s" "st_reservations (putDelegation d s) = st_reservations s"
  "st_reservations (putRequest q s) = st_reservations s" "st_reservations (putApproval a s) = st_reservations s"
  "st_reservations (putOutcome u s) = st_reservations s" "st_reservations (putTombstone t s) = st_reservations s"
  by (simp_all add: writes)

lemma tombstones_frame [frame]:
  "st_tombstones (putPermission p s) = st_tombstones s" "st_tombstones (putRole r s) = st_tombstones s"
  "st_tombstones (putGrant g s) = st_tombstones s" "st_tombstones (putDelegation d s) = st_tombstones s"
  "st_tombstones (putRequest q s) = st_tombstones s" "st_tombstones (putApproval a s) = st_tombstones s"
  "st_tombstones (putOutcome u s) = st_tombstones s" "st_tombstones (putReservation v s) = st_tombstones s"
  by (simp_all add: writes)

lemma grants_frame [frame]:
  "st_grants (putPermission p s) = st_grants s" "st_grants (putRole r s) = st_grants s"
  "st_grants (putDelegation d s) = st_grants s" "st_grants (putRequest q s) = st_grants s"
  "st_grants (putApproval a s) = st_grants s" "st_grants (putOutcome u s) = st_grants s"
  "st_grants (putReservation v s) = st_grants s" "st_grants (putTombstone t s) = st_grants s"
  "st_grants (putGrant g s) = put_record gr_id g (st_grants s)"
  by (simp_all add: writes)

text \<open>Clock, ids, audit and catalog references touch no record.\<close>

definition same_records :: "authority_state \<Rightarrow> authority_state \<Rightarrow> bool" where
  "same_records s s' \<longleftrightarrow> st_permissions s' = st_permissions s \<and> st_roles s' = st_roles s \<and> st_grants s' = st_grants s \<and>
     st_delegations s' = st_delegations s \<and> st_requests s' = st_requests s \<and> st_approvals s' = st_approvals s \<and>
     st_outcomes s' = st_outcomes s \<and> st_reservations s' = st_reservations s \<and> st_tombstones s' = st_tombstones s \<and>
     st_revision s' = st_revision s"

lemma same_records_steps:
  "same_records s (snd (tick env s))" "same_records s (snd (fresh_id env s))"
  "same_records s (audit env kind revision actor operationId targetDigest details s)"
  "same_records s (putCatalogReference revision rk k s)" "same_records s (removeCatalogReference revision rk k s)"
  by (simp_all add: same_records_def tick_def fresh_id_def audit_def appendAudit_def putCatalogReference_def
      removeCatalogReference_def split: option.split)

lemma snapshot_same: "same_records s s' \<Longrightarrow> snapshot s' = snapshot s"
  by (simp add: same_records_def snapshot_def)

lemma same_records_frame [frame]:
  "st_reservations (snd (tick env s)) = st_reservations s" "st_reservations (snd (fresh_id env s)) = st_reservations s"
  "st_reservations (audit env kind revision actor operationId targetDigest details s) = st_reservations s"
  "st_reservations (putCatalogReference revision rk k s) = st_reservations s"
  "st_reservations (removeCatalogReference revision rk k s) = st_reservations s"
  "st_tombstones (snd (tick env s)) = st_tombstones s" "st_tombstones (snd (fresh_id env s)) = st_tombstones s"
  "st_tombstones (audit env kind revision actor operationId targetDigest details s) = st_tombstones s"
  "st_tombstones (putCatalogReference revision rk k s) = st_tombstones s"
  "st_tombstones (removeCatalogReference revision rk k s) = st_tombstones s"
  "st_grants (snd (tick env s)) = st_grants s" "st_grants (snd (fresh_id env s)) = st_grants s"
  "st_grants (audit env kind revision actor operationId targetDigest details s) = st_grants s"
  "st_grants (putCatalogReference revision rk k s) = st_grants s"
  "st_grants (removeCatalogReference revision rk k s) = st_grants s"
  using same_records_steps unfolding same_records_def by blast+

lemma snapshot_frame [simp]:
  "snapshot (snd (tick env s)) = snapshot s" "snapshot (snd (fresh_id env s)) = snapshot s"
  "snapshot (audit env kind revision actor operationId targetDigest details s) = snapshot s"
  "snapshot (putCatalogReference revision rk k s) = snapshot s"
  "snapshot (removeCatalogReference revision rk k s) = snapshot s"
  by (rule snapshot_same, rule same_records_steps)+

lemma tick_pair: "tick env s = (now, s1) \<longleftrightarrow> now = env_now env (st_reads s) \<and> s1 = snd (tick env s)"
  by (auto simp: tick_def)

lemma service_putGrant_frame [frame]:
  "st_grants (service_putGrant env g s) = put_record gr_id g (st_grants s)"
  "st_reservations (service_putGrant env g s) = st_reservations s"
  "st_tombstones (service_putGrant env g s) = st_tombstones s"
  by (simp_all add: service_putGrant_def Let_def frame split: option.split prod.split,
      auto simp: tick_pair frame)


text \<open>The operations that write reservations or tombstones.\<close>

fun writes_part :: "authority_op \<Rightarrow> bool" where
  "writes_part (Authorize _) = True"
| "writes_part (Transition _ _ _) = True"
| "writes_part (CreateTombstone _) = True"
| "writes_part (Observe _ _ _) = True"
| "writes_part (Transfer _ _ _) = True"
| "writes_part _ = False"

section \<open>Parts of the state an operation leaves alone\<close>

text \<open>
  A part \<open>f\<close> of the state that no write but those of reservations and tombstones touches: then no
  operation but those that write them does.
\<close>

locale untouched_part =
  fixes f :: "authority_state \<Rightarrow> 'p"
  assumes untouched:
      "f (putPermission p s) = f s" "f (putRole r s) = f s" "f (putGrant g s) = f s"
      "f (service_putGrant env g s) = f s" "f (putDelegation d s) = f s" "f (putRequest q s) = f s"
      "f (putApproval a s) = f s" "f (putOutcome u s) = f s" "f (snd (tick env s)) = f s"
      "f (snd (fresh_id env s)) = f s" "f (audit env kind revision actor oid td details s) = f s"
      "f (putCatalogReference revision rk k s) = f s" "f (removeCatalogReference revision rk k s) = f s"
begin

lemma untouched_fold: "(\<And>x s. f (g x s) = f s) \<Longrightarrow> f (fold g xs s) = f s"
  by (induction xs arbitrary: s) simp_all

lemma untouched_loops:
  "f (retire_permissions t ids ps s) = f s" "f (retire_roles t ids rs s) = f s" "f (revoke_undeclared env t ids gs s) = f s"
  "f (fold putPermission ps s) = f s" "f (fold (move_grant env before to) gs s) = f s"
  "f (fold (drop_expired_grant env r a) gs s) = f s"
  unfolding retire_permissions_def retire_roles_def revoke_undeclared_def
  by (rule untouched_fold, simp add: untouched move_grant_def drop_expired_grant_def)+

lemma untouched_audits:
  "f (fold (\<lambda>x. audit env kind revision (actor x) oid td (details x)) xs s) = f s"
  by (rule untouched_fold) (simp add: untouched)

lemma untouched_each:
  assumes "each g xs s = Inr s'" and "\<And>x s s'. g x s = Inr s' \<Longrightarrow> f s' = f s"
  shows "f s' = f s"
  by (rule each_keeps [OF assms(1), of "\<lambda>s'. f s' = f s"]) (simp_all add: assms(2))

lemma untouched_collect:
  assumes "collect g xs s = Inr (ys, s')" and "\<And>x y s s'. g x s = Inr (y, s') \<Longrightarrow> f s' = f s"
  shows "f s' = f s"
  by (rule collect_keeps [OF assms(1), of "\<lambda>s'. f s' = f s"]) (simp_all add: assms(2))

lemma untouched_tick: "tick env s = (now, s1) \<Longrightarrow> f s1 = f s"
  using untouched(9) [of env s] by simp

lemma reconcile_parts:
  "reconcile_permission env current revision p s = Inr s' \<Longrightarrow> f s' = f s"
  "reconcile_role env current ids role s = Inr s' \<Longrightarrow> f s' = f s"
  "reconcile_grant env grant s = Inr s' \<Longrightarrow> f s' = f s"
  by (auto simp: reconcile_permission_def reconcile_role_def reconcile_grant_def untouched Let_def
      dest: untouched_tick split: option.splits prod.splits if_splits)

lemma registerOutcome_part: "registerOutcome env r s = Inr (x, s') \<Longrightarrow> f s' = f s"
  by (auto simp: registerOutcome_def untouched Let_def split: option.splits)

lemma reconcile_part:
  assumes "reconcileApplicationAuthority env manifest s = Inr (x, s')"
  shows "f s' = f s"
proof -
  obtain s1 s2 s3 where steps:
      "each (reconcile_permission env (snapshot s) (mf_revision manifest)) (mf_permissions manifest) s = Inr s1"
      "each (reconcile_role env (snapshot s) (map pm_id (mf_permissions manifest))) (mf_roles manifest) s1 = Inr s2"
      "each (reconcile_grant env) (mf_grants manifest) s2 = Inr s3" and last: "f s' = f s3"
    using assms by (auto simp: reconcileApplicationAuthority_def Let_def untouched_loops
        dest: untouched_tick split: sum.splits prod.splits)
  show ?thesis
    using untouched_each [OF steps(1) reconcile_parts(1)] untouched_each [OF steps(2) reconcile_parts(2)]
      untouched_each [OF steps(3) reconcile_parts(3)] last by simp
qed

lemma reconcile_static_part:
  assumes "reconcileStaticAuthorityManifest env manifest revision s = Inr (x, s')"
  shows "f s' = f s"
proof -
  obtain m s1 s2 where steps: "s1 = snd (tick env s)"
      "each (\<lambda>outcome s. case registerOutcome env outcome s of Inl e \<Rightarrow> Inl e | Inr (_, s') \<Rightarrow> Inr s') (sm_outcomes manifest) s1 = Inr s2"
      "reconcileApplicationAuthority env m s2 = Inr (x, s')"
    using assms by (auto simp: reconcileStaticAuthorityManifest_def Let_def tick_pair split: sum.splits prod.splits)
  have "f s2 = f s1"
    by (rule untouched_each [OF steps(2)]) (auto dest: registerOutcome_part split: sum.splits)
  with steps reconcile_part [OF steps(3)] show ?thesis by (simp add: untouched)
qed

lemma reconcile_permissions_part:
  assumes "reconcileApplicationPermissions env revision desired s = Inr (x, s')"
  shows "f s' = f s"
  using assms
  by (auto simp: reconcileApplicationPermissions_def Let_def untouched_loops untouched
      dest!: untouched_tick untouched_each split: sum.splits prod.splits)

lemma request_parts:
  "createRuntimePermission env p s = Inr (x, s') \<Longrightarrow> f s' = f s"
  "createRuntimeRole env role s = Inr (y, s') \<Longrightarrow> f s' = f s"
  "requestGrant env q s = Inr (z, s') \<Longrightarrow> f s' = f s"
  "assignGrant env g s = Inr (w, s') \<Longrightarrow> f s' = f s"
  "revokeGrant env k reason s = Inr (w, s') \<Longrightarrow> f s' = f s"
  "delegate env d g s = Inr (v, s') \<Longrightarrow> f s' = f s"
  by (auto simp: createRuntimePermission_def createRuntimeRole_def requestGrant_def assignGrant_def revokeGrant_def delegate_def
      untouched Let_def dest: untouched_tick split: option.splits prod.splits if_splits)

lemma decide_part: "decideGrantRequest env k decision s = Inr (x, s') \<Longrightarrow> f s' = f s"
  by (auto simp: decideGrantRequest_def untouched Let_def dest: untouched_tick split: option.splits prod.splits if_splits)

lemma role_parts:
  "bootstrap_permission env state b admitted t k s = Inr (x, s') \<Longrightarrow> f s' = f s"
  "break_glass_permission env state b owner e t k s = Inr (x, s') \<Longrightarrow> f s' = f s"
  by (auto simp: bootstrap_permission_def break_glass_permission_def untouched Let_def
      dest: untouched_tick split: option.splits prod.splits)

lemma bootstrap_part: "bootstrapDeclaredRole env b admitted s = Inr (x, s') \<Longrightarrow> f s' = f s"
  by (auto simp: bootstrapDeclaredRole_def Let_def dest: untouched_tick dest!: untouched_collect [OF _ role_parts(1)]
      split: option.splits prod.splits if_splits)

lemma break_glass_part: "assignBreakGlassRole env b s = Inr (x, s') \<Longrightarrow> f s' = f s"
  by (auto simp: assignBreakGlassRole_def Let_def untouched dest: untouched_tick dest!: untouched_collect [OF _ role_parts(2)]
      split: option.splits prod.splits if_splits sum.splits)

lemma revoke_role_part: "revokeRoleForIdentity env k identity reason s = Inr (x, s') \<Longrightarrow> f s' = f s"
  by (auto simp: revokeRoleForIdentity_def dest!: untouched_collect [OF _ request_parts(5)] split: option.splits)

lemma migrate_part: "migrateCatalogAuthority env before to revision s = Inr (x, s') \<Longrightarrow> f s' = f s"
  by (auto simp: migrateCatalogAuthority_def Let_def untouched_loops untouched_audits
      dest!: untouched_tick split: sum.splits prod.splits)

lemma reading_parts:
  "f (snd (grantedRolesForIdentity env identity s)) = f s"
  "f (snd (revalidateReceipt env receipt catalog boundary digest s)) = f s"
  by (auto simp: grantedRolesForIdentity_def revalidateReceipt_def Let_def dest!: untouched_tick split: prod.split option.split)

lemma migrate_grant_part: "f (snd (migrateGrantCatalog env k before to revision s)) = f s"
  by (auto simp: migrateGrantCatalog_def Let_def transaction_def dest!: migrate_part split: option.splits sum.splits prod.splits)

lemmas parts = reconcile_part reconcile_static_part reconcile_permissions_part registerOutcome_part request_parts decide_part
  bootstrap_part break_glass_part revoke_role_part migrate_part

lemma bootstrap_role_part: "bootstrapRole env b s = Inr (x, s') \<Longrightarrow> f s' = f s"
  by (auto simp: bootstrapRole_def dest: bootstrap_part)

lemma perform_part: "\<not> writes_part op \<Longrightarrow> f (perform_op env op s) = f s"
  by (cases op) (auto intro!: transaction_keeps [of _ _ "\<lambda>s'. f s' = f s"] simp: reading_parts migrate_grant_part
      dest: parts bootstrap_role_part)

end

interpretation reservations: untouched_part st_reservations
  by unfold_locales (simp_all add: frame)

interpretation tombstones: untouched_part st_tombstones
  by unfold_locales (simp_all add: frame)

lemma tombstone_reservations:
  "createRevocationTombstone env r s = Inr (x, s') \<Longrightarrow> st_reservations s' = st_reservations s"
  "observeRevocationObligation env k projection observation s = Inr (y, s') \<Longrightarrow> st_reservations s' = st_reservations s"
  "transferRevocationByBreakGlass env k actor acknowledgement s = Inr (y, s') \<Longrightarrow> st_reservations s' = st_reservations s"
  by (auto simp: createRevocationTombstone_def observeRevocationObligation_def transferRevocationByBreakGlass_def Let_def frame
      dest!: reservations.untouched_tick split: option.splits prod.splits if_splits)

lemma fresh_pair: "fresh_id env s = (k, s1) \<longleftrightarrow> k = env_id env (st_ids s) \<and> s1 = snd (fresh_id env s)"
  by (auto simp: fresh_id_def)

lemma admit_frame [frame]:
  "st_reservations (snd (admit env now request grant permission reservation s)) = st_reservations s"
  "st_tombstones (snd (admit env now request grant permission reservation s)) = st_tombstones s"
  "st_grants (snd (admit env now request grant permission reservation s)) = st_grants s"
  by (auto simp: admit_def Let_def fresh_pair frame split: prod.split option.split)

lemma fst_admit:
  "\<exists>k. fst (admit env now request grant permission reservation s) =
     Allowed (grant_receipt env now request grant permission reservation k) reservation"
  by (auto simp: admit_def Let_def split: prod.split)

end
