(* ===== verification/Authority_Grants.thy ===== *)
theory Authority_Grants
  imports Authority_Laws
begin

text \<open>
  The laws of authorization: what a decision to allow rests on, how often a bounded grant can be used,
  and what becomes of a grant and of the receipts it backs.
\<close>

section \<open>The outcomes of an authorization\<close>

text \<open>The receipt an allowed request gets, and the reservation that goes with it.\<close>

definition allowed_with ::
  "authority_env \<Rightarrow> ApplicationAuthorizationRequest \<Rightarrow> authority_state \<Rightarrow> ApplicationAuthorizationReceipt \<Rightarrow>
   ApplicationGrantReservation option \<Rightarrow> bool" where
  "allowed_with env request s receipt reservation \<longleftrightarrow>
     (let now = env_now env (st_reads s); state = snapshot s
      in admission_denial request = None \<and> authority_denial env now request state = None \<and>
         (\<exists>k. receipt = grant_receipt env now request (live_grant env now request state) (matching_permission env request state)
            reservation k))"

lemma same_records_deny: "denyAuthorization env request code message s = Inr (result, s') \<Longrightarrow>
    result = Denied code message \<and> same_records s s'"
  using same_records_steps(3) by (auto simp: denyAuthorization_def)

lemma same_records_trans: "same_records s1 s2 \<Longrightarrow> same_records s2 s3 \<Longrightarrow> same_records s1 s3"
  by (simp add: same_records_def)

lemma same_records_admit: "same_records s (snd (admit env now request grant permission reservation s))"
proof -
  obtain k s1 where fresh: "fresh_id env s = (k, s1)" by fastforce
  then have "same_records s s1" using same_records_steps(2) by (metis snd_conv)
  then have "same_records s (case truthy_text (ar_commandId request) of None \<Rightarrow> s1
      | Some commandId \<Rightarrow> putCatalogReference (oc_revision (ar_catalog request)) EnvelopeReference commandId s1)" (is "same_records s ?s2")
    using same_records_trans same_records_steps(4) by (auto split: option.split)
  then have "same_records s (audit env ''authorization.allowed'' (pn_authorityRevision (ar_principal request))
      (Some (pn_identity (ar_principal request))) (Some (od_id (ar_operation request))) (truthy_text (ar_targetDigest request))
      details ?s2)" for details
    using same_records_trans same_records_steps(3) by blast
  then show ?thesis by (simp add: admit_def fresh Let_def)
qed

lemma admit_outcome:
  assumes "(result, s') = admit env now request grant permission reservation s"
  shows "same_records s s' \<and> (\<exists>k. result = Allowed (grant_receipt env now request grant permission reservation k) reservation)"
  using assms same_records_admit fst_admit by (metis fst_conv snd_conv)

definition reserved_state ::
  "authority_env \<Rightarrow> ApplicationAuthorizationRequest \<Rightarrow> ApplicationGrantRecord option \<Rightarrow> ApplicationGrantReservation \<Rightarrow>
   authority_state \<Rightarrow> authority_state" where
  "reserved_state env request grant reservation s =
     audit env ''grant.reserved'' (pn_authorityRevision (ar_principal request)) (Some (pn_identity (ar_principal request)))
       (Some (od_id (ar_operation request))) (truthy_text (ar_targetDigest request))
       [(''grantId'', JString (gr_id (the grant))), (''reservationId'', JString (rs_id reservation))] (putReservation reservation s)"

lemma reserved_state_frame:
  "st_reservations (reserved_state env request grant r s) = put_record rs_id r (st_reservations s)"
  "st_grants (reserved_state env request grant r s) = st_grants s"
  "st_tombstones (reserved_state env request grant r s) = st_tombstones s"
  by (simp_all add: reserved_state_def frame) (simp add: writes)

lemma authorize_denied:
  assumes "authorize env request s = Inr (result, s')"
    and "admission_denial request \<noteq> None \<or> authority_denial env (env_now env (st_reads s)) request (snapshot s) \<noteq> None"
  shows "\<exists>code message. result = Denied code message \<and> same_records s s'"
proof -
  obtain code message where "denyAuthorization env request code message (snd (tick env s)) = Inr (result, s')"
    using assms by (cases "admission_denial request") (auto simp: authorize_def Let_def tick_def snapshot_def split: prod.splits)
  then show ?thesis using same_records_deny same_records_trans [OF same_records_steps(1)] by blast
qed

lemma authorize_admitted:
  assumes "admission_denial request = None" and "authority_denial env (env_now env (st_reads s)) request (snapshot s) = None"
  defines "now \<equiv> env_now env (st_reads s)" and "state \<equiv> snapshot s"
  defines "grant \<equiv> live_grant env now request state" and "permission \<equiv> matching_permission env request state"
  shows "authorize env request s =
    (case reserve env now request state grant (env_id env (st_ids s)) of
       Inl e \<Rightarrow> Inl e
     | Inr NoReservation \<Rightarrow> Inr (admit env now request grant permission None (snd (tick env s)))
     | Inr (Reuse reservation) \<Rightarrow> Inr (admit env now request grant permission (Some reservation) (snd (tick env s)))
     | Inr Exhausted \<Rightarrow> denyAuthorization env request ''AUTHORIZATION_GRANT_EXHAUSTED''
         (''Grant '' @ gr_id (the grant) @ '' has no remaining uses.'') (snd (tick env s))
     | Inr (NewReservation reservation) \<Rightarrow>
         Inr (admit env now request grant permission (Some reservation)
           (reserved_state env request grant reservation (snd (fresh_id env (snd (tick env s)))))))"
proof -
  obtain s1 where tick: "tick env s = (now, s1)" by (simp add: tick_def now_def)
  then have snap: "snapshot s1 = snapshot s" using snapshot_frame(1) [of env s] by simp
  have "st_ids s1 = st_ids s" using tick by (auto simp: tick_def)
  then obtain s2 where "fresh_id env s1 = (env_id env (st_ids s), s2)" by (simp add: fresh_id_def)
  with tick snap show ?thesis
    using assms(1,2) unfolding authorize_def reserved_state_def grant_def permission_def state_def
    by (simp add: Let_def now_def [symmetric] split: sum.split reservation_outcome.split)
qed

lemma authorize_outcome:
  assumes "authorize env request s = Inr (result, s')"
  defines "now \<equiv> env_now env (st_reads s)" and "state \<equiv> snapshot s"
  obtains (denied) code message where "result = Denied code message" "same_records s s'"
  | (allowed) receipt reservation where "result = Allowed receipt reservation" "allowed_with env request s receipt reservation"
      "same_records s s'"
  | (reserved) receipt r k where "result = Allowed receipt (Some r)" "allowed_with env request s receipt (Some r)"
      "reserve env now request state (live_grant env now request state) k = Inr (NewReservation r)"
      "st_reservations s' = put_record rs_id r (st_reservations s)" "st_grants s' = st_grants s" "st_tombstones s' = st_tombstones s"
proof (cases "admission_denial request = None \<and> authority_denial env (env_now env (st_reads s)) request (snapshot s) = None")
  case False
  then show ?thesis using authorize_denied [OF assms(1)] denied by blast
next
  case True
  let ?grant = "live_grant env now request state" and ?permission = "matching_permission env request state"
  note run = authorize_admitted [of request env s, folded now_def state_def, unfolded assms(1)]
  have pass: "allowed_with env request s (grant_receipt env now request ?grant ?permission reservation k) reservation" for k reservation
    using True unfolding allowed_with_def Let_def now_def state_def by blast
  have here: "same_records (snd (tick env s)) s' \<Longrightarrow> same_records s s'"
    using same_records_trans [OF same_records_steps(1)] .
  show ?thesis
  proof (cases "reserve env now request state ?grant (env_id env (st_ids s))")
    case (Inl e)
    with run True show ?thesis by (simp add: now_def state_def)
  next
    case (Inr outcome)
    note run = run [unfolded Inr]
    show ?thesis
    proof (cases outcome)
      case NoReservation
      with run True have "(result, s') = admit env now request ?grant ?permission None (snd (tick env s))" by (simp add: now_def state_def)
      from admit_outcome [OF this] pass here show ?thesis using allowed by metis
    next
      case (Reuse r)
      with run True have "(result, s') = admit env now request ?grant ?permission (Some r) (snd (tick env s))" by (simp add: now_def state_def)
      from admit_outcome [OF this] pass here show ?thesis using allowed by metis
    next
      case (NewReservation r)
      let ?s3 = "reserved_state env request ?grant r (snd (fresh_id env (snd (tick env s))))"
      from NewReservation run True have "(result, s') = admit env now request ?grant ?permission (Some r) ?s3" by (simp add: now_def state_def)
      from admit_outcome [OF this] obtain k where out: "same_records ?s3 s'"
          "result = Allowed (grant_receipt env now request ?grant ?permission (Some r) k) (Some r)" by blast
      have "st_reservations s' = put_record rs_id r (st_reservations s)" "st_grants s' = st_grants s" "st_tombstones s' = st_tombstones s"
        using out(1) unfolding same_records_def by (simp_all add: reserved_state_frame frame)
      with out(2) pass Inr NewReservation show ?thesis using reserved by metis
    next
      case Exhausted
      with run True have "denyAuthorization env request ''AUTHORIZATION_GRANT_EXHAUSTED''
          (''Grant '' @ gr_id (the ?grant) @ '' has no remaining uses.'') (snd (tick env s)) = Inr (result, s')" by (simp add: now_def state_def)
      from same_records_deny [OF this] here show ?thesis using denied by blast
    qed
  qed
qed

end
