(* ===== verification/Authority_Writes.thy ===== *)
theory Authority_Writes
  imports Authority_Grants
begin

text \<open>
  What the operations write to the grants. The locale \<open>grant_writes\<close> states what a property of the
  stored grants needs so that every operation keeps it: it survives the writes the property permits,
  and it permits new grants, revocations and migrations. Its two interpretations are that every grant
  stands under its id and that a grant keeps a fact, such as being revoked, until an operation rewrites it.
\<close>

section \<open>Maps of records\<close>

definition keyed :: "('r \<Rightarrow> string) \<Rightarrow> (string \<times> 'r) list \<Rightarrow> bool" where
  "keyed key m \<longleftrightarrow> distinct (map fst m) \<and> (\<forall>(k, r) \<in> set m. key r = k)"

lemma keyed_Nil [simp]: "keyed key []"
  by (simp add: keyed_def)

lemma put_lookup: "map_of (put_record key r m) = (map_of m)(key r \<mapsto> r)"
  by (simp add: put_record_def update_conv')

lemma keyed_put:
  assumes "keyed key m"
  shows "keyed key (put_record key r m)"
proof -
  have "set (AList.update (key r) r m) \<subseteq> insert (key r, r) (set m)"
    by (induction m) auto
  then show ?thesis
    using assms by (fastforce simp: keyed_def put_record_def distinct_update)
qed

lemma find_keyed:
  assumes "keyed key m"
  shows "find (\<lambda>r. key r = k) (map snd m) = map_of m k"
  using assms by (induction m) (auto simp: keyed_def)

lemma keyed_member:
  assumes "keyed key m"
  shows "r \<in> set (map snd m) \<longleftrightarrow> map_of m (key r) = Some r"
proof
  assume "r \<in> set (map snd m)"
  then obtain k where k: "(k, r) \<in> set m" by auto
  then have "k = key r" using assms unfolding keyed_def by blast
  with k show "map_of m (key r) = Some r" using assms unfolding keyed_def by simp
next
  assume "map_of m (key r) = Some r"
  then show "r \<in> set (map snd m)" by (force dest: map_of_SomeD)
qed

section \<open>The contract\<close>

text \<open>The grant ids an operation may write whatever the state is.\<close>

fun writes_id :: "authority_op \<Rightarrow> string \<Rightarrow> bool" where
  "writes_id (Decide k decision) i = (\<exists>g. gd_grant decision = Some g \<and> gr_id g = i)"
| "writes_id (Reconcile manifest) i = (i \<in> gr_id ` set (mf_grants manifest))"
| "writes_id (ReconcileStatic manifest revision) i = (i \<in> sg_id ` set (sm_grants manifest))"
| "writes_id (Bootstrap b identity) i = (\<exists>p. i = sb_id b @ '':'' @ p)"
| "writes_id (BootstrapRole b) i = (\<exists>p. i = sb_id b @ '':'' @ p)"
| "writes_id (BreakGlass b) i =
     (\<exists>p. i = ''application-role-break-glass:'' @ sb_roleId (bg_request b) @ '':'' @ sb_id (bg_request b) @ '':'' @ p)"
| "writes_id _ i = False"

locale grant_writes =
  fixes P :: "(string \<times> ApplicationGrantRecord) list \<Rightarrow> bool" and ok :: "ApplicationGrantRecord \<Rightarrow> bool"
  assumes put: "P m \<Longrightarrow> ok g \<Longrightarrow> P (put_record gr_id g m)"
    and assigned: "P m \<Longrightarrow> gr_id g \<notin> gr_id ` set (map snd m) \<Longrightarrow> ok g"
    and revoked: "P m \<Longrightarrow> g \<in> set (map snd m) \<Longrightarrow> unset (gr_revokedAt g) \<Longrightarrow>
      ok (g\<lparr>gr_revokedAt := Some t, gr_reason := reason\<rparr>)"
    and migrated: "P m \<Longrightarrow> g \<in> set (map snd m) \<Longrightarrow> unset (gr_revokedAt g) \<Longrightarrow>
      ok (g\<lparr>gr_operationIds := ids, gr_catalogRevision := revision, gr_authorityRevision := authority\<rparr>)"
begin

definition admits_op :: "authority_op \<Rightarrow> bool" where
  "admits_op op \<longleftrightarrow> (\<forall>g. writes_id op (gr_id g) \<longrightarrow> ok g)"

lemma writes_other:
  "P (st_grants s) \<Longrightarrow> reconcile_permission env current revision p s = Inr s' \<Longrightarrow> P (st_grants s')"
  "P (st_grants s) \<Longrightarrow> reconcile_role env current ids role s = Inr s' \<Longrightarrow> P (st_grants s')"
  "P (st_grants s) \<Longrightarrow> registerOutcome env r s = Inr (x, s') \<Longrightarrow> P (st_grants s')"
  "P (st_grants s) \<Longrightarrow> createRuntimePermission env p s = Inr (y, s') \<Longrightarrow> P (st_grants s')"
  "P (st_grants s) \<Longrightarrow> createRuntimeRole env role s = Inr (z, s') \<Longrightarrow> P (st_grants s')"
  "P (st_grants s) \<Longrightarrow> requestGrant env q s = Inr (w, s') \<Longrightarrow> P (st_grants s')"
  "P (st_grants s) \<Longrightarrow> delegate env d g s = Inr (v, s') \<Longrightarrow> P (st_grants s')"
  "P (st_grants s) \<Longrightarrow> transitionReservation env k after uncertain s = Inr (u, s') \<Longrightarrow> P (st_grants s')"
  "P (st_grants s) \<Longrightarrow> createRevocationTombstone env tb s = Inr (t, s') \<Longrightarrow> P (st_grants s')"
  "P (st_grants s) \<Longrightarrow> observeRevocationObligation env k projection observation s = Inr (t, s') \<Longrightarrow> P (st_grants s')"
  "P (st_grants s) \<Longrightarrow> transferRevocationByBreakGlass env k actor acknowledgement s = Inr (t, s') \<Longrightarrow> P (st_grants s')"
  by (auto simp: reconcile_permission_def reconcile_role_def registerOutcome_def createRuntimePermission_def createRuntimeRole_def
      requestGrant_def delegate_def transitionReservation_def createRevocationTombstone_def observeRevocationObligation_def
      transferRevocationByBreakGlass_def Let_def tick_pair frame split: option.splits prod.splits if_splits)

lemma authorize_writes: "P (st_grants s) \<Longrightarrow> authorize env request s = Inr (result, s') \<Longrightarrow> P (st_grants s')"
  by (erule authorize_outcome) (simp_all add: same_records_def)

lemma service_put: "P (st_grants s) \<Longrightarrow> ok g \<Longrightarrow> P (st_grants (service_putGrant env g s))"
  by (simp add: frame put)

lemma assign_writes:
  assumes "P (st_grants s)" and "assignGrant env r s = Inr (x, s')"
  shows "P (st_grants s')"
proof (cases "find (\<lambda>candidate. gr_id candidate = gr_id r) (map snd (st_grants s))")
  case None
  then have "ok r" by (intro assigned [OF assms(1)]) (auto simp: find_None_iff)
  then show ?thesis
    using assms None by (auto simp: assignGrant_def snapshot_def Let_def tick_pair frame intro: put split: prod.splits)
next
  case (Some g)
  then show ?thesis using assms by (auto simp: assignGrant_def snapshot_def split: if_splits)
qed

lemma revoke_writes:
  assumes "P (st_grants s)" and "revokeGrant env k reason s = Inr (x, s')"
  shows "P (st_grants s')"
proof -
  obtain g where g: "find (\<lambda>candidate. gr_id candidate = k) (map snd (st_grants s)) = Some g"
    using assms(2) by (auto simp: revokeGrant_def snapshot_def split: option.splits)
  then have "g \<in> set (map snd (st_grants s))" by (auto simp: find_Some_iff)
  note ok = revoked [OF assms(1) this]
  show ?thesis
    using assms g by (auto simp: revokeGrant_def snapshot_def Let_def tick_pair frame intro!: put ok split: prod.splits if_splits)
qed

lemma decide_writes:
  assumes "P (st_grants s)" and "admits_op (Decide k decision)" and "decideGrantRequest env k decision s = Inr (x, s')"
  shows "P (st_grants s')"
proof -
  have "ok g" if "gd_grant decision = Some g" for g using assms(2) that by (simp add: admits_op_def)
  with assms(1,3) show ?thesis
    by (auto simp: decideGrantRequest_def Let_def tick_pair frame intro: put split: option.splits prod.splits if_splits)
qed

lemma reconcile_grant_writes:
  assumes "P (st_grants s)" and "ok grant" and "reconcile_grant env grant s = Inr s'"
  shows "P (st_grants s')"
  using assms by (auto simp: reconcile_grant_def Let_def tick_pair frame intro: put split: option.splits prod.splits if_splits)

lemma revoke_undeclared_writes:
  assumes "P m" and "set grants \<subseteq> set (map snd m)" and "P (st_grants s)"
  shows "P (st_grants (revoke_undeclared env t ids grants s))"
  unfolding revoke_undeclared_def
proof (rule fold_keeps [where P = "\<lambda>s. P (st_grants s)"])
  fix g and s :: authority_state assume "g \<in> set grants" and s: "P (st_grants s)"
  then have g: "g \<in> set (map snd m)" using assms(2) by blast
  have "ok (g\<lparr>gr_revokedAt := Some t\<rparr>)" if "unset (gr_revokedAt g)"
    using revoked [OF assms(1) g that, where t = t and reason = "gr_reason g"] by simp
  with s show "P (st_grants (if gr_origin g = ApplicationOrigin \<and> unset (gr_revokedAt g) \<and> gr_id g \<notin> set ids
      then service_putGrant env (g\<lparr>gr_revokedAt := Some t\<rparr>) s else s))"
    by (simp add: service_put)
qed (use assms(3) in simp)

lemma retire_writes:
  "st_grants (retire_permissions t ids ps s) = st_grants s" "st_grants (retire_roles t ids rs s) = st_grants s"
  "st_grants (fold putPermission ps s) = st_grants s"
  unfolding retire_permissions_def retire_roles_def
  by (rule fold_keeps [where P = "\<lambda>s'. st_grants s' = st_grants s"], simp_all add: frame)+

lemma reconcile_writes:
  assumes "P (st_grants s)" and "\<forall>g \<in> set (mf_grants manifest). ok g"
    and "reconcileApplicationAuthority env manifest s = Inr (x, s')"
  shows "P (st_grants s')"
proof -
  obtain s1 s2 s3 t where steps:
      "each (reconcile_permission env (snapshot s) (mf_revision manifest)) (mf_permissions manifest) s = Inr s1"
      "each (reconcile_role env (snapshot s) (map pm_id (mf_permissions manifest))) (mf_roles manifest) s1 = Inr s2"
      "each (reconcile_grant env) (mf_grants manifest) s2 = Inr s3"
      "s' = revoke_undeclared env t (map gr_id (mf_grants manifest)) (sn_grants (snapshot s))
        (retire_roles t (map rl_id (mf_roles manifest)) (sn_roles (snapshot s))
          (retire_permissions t (map pm_id (mf_permissions manifest)) (sn_permissions (snapshot s)) (snd (tick env s3))))"
    using assms(3) by (auto simp: reconcileApplicationAuthority_def Let_def tick_pair split: sum.splits prod.splits)
  have "P (st_grants s1)"
    by (rule each_keeps [OF steps(1), of "\<lambda>s. P (st_grants s)"]) (use assms(1) writes_other(1) in blast)+
  then have "P (st_grants s2)"
    by (rule each_keeps [OF steps(2), of "\<lambda>s. P (st_grants s)", rotated]) (use writes_other(2) in blast)
  then have "P (st_grants s3)"
    by (rule each_keeps [OF steps(3), of "\<lambda>s. P (st_grants s)", rotated]) (use assms(2) reconcile_grant_writes in blast)
  then show ?thesis
    unfolding steps(4) by (intro revoke_undeclared_writes [OF assms(1)]) (simp_all add: snapshot_def retire_writes frame)
qed

lemma static_writes:
  assumes "P (st_grants s)" and "admits_op (ReconcileStatic manifest revision)"
    and "reconcileStaticAuthorityManifest env manifest revision s = Inr (x, s')"
  shows "P (st_grants s')"
proof -
  define now where "now = env_iso env (env_now env (st_reads s))"
  define m where "m = \<lparr>mf_revision = sm_revision manifest,
    mf_permissions = map (static_permission (sm_revision manifest) revision now (snapshot s)) (sm_permissions manifest),
    mf_roles = map (static_role now (snapshot s)) (sm_roles manifest),
    mf_grants = map (static_grant revision now (snapshot s)) (sm_grants manifest)\<rparr>"
  obtain s2 where steps:
      "each (\<lambda>outcome s. case registerOutcome env outcome s of Inl e \<Rightarrow> Inl e | Inr (_, s') \<Rightarrow> Inr s') (sm_outcomes manifest)
        (snd (tick env s)) = Inr s2"
      "reconcileApplicationAuthority env m s2 = Inr (x, s')"
    using assms(3) by (auto simp: reconcileStaticAuthorityManifest_def Let_def tick_pair m_def now_def split: sum.splits prod.splits)
  have "P (st_grants s2)"
    by (rule each_keeps [OF steps(1), of "\<lambda>s. P (st_grants s)"])
      (use assms(1) writes_other(3) in \<open>auto simp: frame split: sum.splits\<close>)
  moreover have "ok g" if "g \<in> set (mf_grants m)" for g
    using that assms(2) by (auto simp: admits_op_def static_grant_def Let_def m_def)
  ultimately show ?thesis using reconcile_writes [OF _ _ steps(2)] by blast
qed

lemma permissions_writes:
  assumes "P (st_grants s)" and "reconcileApplicationPermissions env revision desired s = Inr (x, s')"
  shows "P (st_grants s')"
proof -
  have "st_grants s' = st_grants s"
    using assms(2) each_keeps [where P = "\<lambda>s'. st_grants s' = st_grants s"]
    by (fastforce simp: reconcileApplicationPermissions_def Let_def retire_writes tick_pair frame split: sum.splits prod.splits)
  with assms(1) show ?thesis by simp
qed

lemma bootstrap_writes:
  assumes "P (st_grants s)" and "admits_op (Bootstrap b admitted)" and "bootstrapDeclaredRole env b admitted s = Inr (x, s')"
  shows "P (st_grants s')"
proof -
  have ok: "ok g" if "gr_id g = sb_id b @ '':'' @ p" for g p using assms(2) that by (auto simp: admits_op_def)
  have step: "P (st_grants s2)" if "bootstrap_permission env state b admitted t k s1 = Inr (y, s2)" and "P (st_grants s1)" for state t k s1 y s2
    using that by (auto simp: bootstrap_permission_def role_grant_def Let_def tick_pair frame intro!: put ok split: option.splits prod.splits)
  show ?thesis
    using assms(1,3) collect_keeps [where P = "\<lambda>s. P (st_grants s)", OF _ step]
    by (fastforce simp: bootstrapDeclaredRole_def Let_def tick_pair frame split: option.splits prod.splits if_splits)
qed

definition break_glass_owner :: "ApplicationBreakGlassRoleRequest \<Rightarrow> string" where
  "break_glass_owner b = ''application-role-break-glass:'' @ sb_roleId (bg_request b) @ '':'' @ sb_id (bg_request b)"

lemma break_glass_collects:
  assumes "assignBreakGlassRole env b s = Inr (x, s')"
  shows "st_grants s' = st_grants s \<or> (\<exists>r e t ids ys s2. st_grants s' = st_grants s2 \<and>
      collect (break_glass_permission env (snapshot s) r (break_glass_owner b) e t) ids (snd (tick env s)) = Inr (ys, s2))"
proof -
  obtain now s1 where tick: "tick env s = (now, s1)" by fastforce
  then have s1: "s1 = snd (tick env s)" by simp
  then have "st_grants s1 = st_grants s" by (simp add: frame)
  with assms show ?thesis
    unfolding assignBreakGlassRole_def Let_def tick break_glass_owner_def [symmetric] s1 [symmetric]
    by (auto simp: break_glass_owner_def [symmetric] frame split: option.splits prod.splits if_splits sum.splits)
qed

lemma break_glass_writes:
  assumes "P (st_grants s)" and "admits_op (BreakGlass b)" and "assignBreakGlassRole env b s = Inr (x, s')"
  shows "P (st_grants s')"
proof -
  have ok: "ok g" if "gr_id g = break_glass_owner b @ '':'' @ p" for g p
    using assms(2) that by (auto simp: admits_op_def break_glass_owner_def)
  have step: "P (st_grants s2)" if "break_glass_permission env state r (break_glass_owner b) e t k s1 = Inr (y, s2)" and "P (st_grants s1)"
    for state r e t k s1 y s2
    using that by (auto simp: break_glass_permission_def role_grant_def Let_def tick_pair frame intro!: put ok split: option.splits prod.splits)
  from break_glass_collects [OF assms(3)] show ?thesis
  proof (elim disjE exE conjE)
    fix r e t ids ys s2
    assume same: "st_grants s' = st_grants s2"
      and loop: "collect (break_glass_permission env (snapshot s) r (break_glass_owner b) e t) ids (snd (tick env s)) = Inr (ys, s2)"
    have "P (st_grants s2)" by (rule collect_keeps [OF loop, of "\<lambda>s. P (st_grants s)"]) (use step assms(1) in \<open>auto simp: frame\<close>)
    with same show ?thesis by simp
  qed (use assms(1) in simp)
qed

lemma revoke_role_writes:
  assumes "P (st_grants s)" and "revokeRoleForIdentity env k identity reason s = Inr (x, s')"
  shows "P (st_grants s')"
proof -
  obtain gs :: "ApplicationGrantRecord list" where "collect (\<lambda>grant. revokeGrant env (gr_id grant) reason) gs s = Inr (x, s')"
    using assms(2) by (cases "find (\<lambda>candidate. rl_id candidate = k) (sn_roles (snapshot s))") (auto simp: revokeRoleForIdentity_def)
  from collect_keeps [OF this, of "\<lambda>s. P (st_grants s)"] show ?thesis using assms(1) revoke_writes by blast
qed

lemma migrated_all:
  "map_result f xs = Inr ys \<Longrightarrow> \<forall>y \<in> set ys. \<exists>x \<in> set xs. f x = Inr y"
  by (induction xs arbitrary: ys) (auto split: sum.splits)

lemma migrate_grant_Inr:
  "migrate_grant changes revision authority g = Inr g' \<Longrightarrow>
   \<exists>ids. g' = g\<lparr>gr_operationIds := ids, gr_catalogRevision := revision, gr_authorityRevision := authority\<rparr>"
  by (auto simp: migrate_grant_def split: sum.splits)

lemma migrate_loops:
  "st_grants (fold (move_grant env before to) gs s) = fold (put_record gr_id) gs (st_grants s)"
  "st_grants (fold (drop_expired_grant env r a) gs s) = st_grants s"
  "st_grants (fold (\<lambda>x. audit env kind revision (actor x) oid td (details x)) gs s) = st_grants s"
  by (induction gs arbitrary: s) (simp_all add: move_grant_def drop_expired_grant_def frame)

lemma migrate_steps:
  assumes "migrateCatalogAuthority env before to revision s = Inr (x, s')"
  obtains gs where "\<forall>g' \<in> set gs. \<exists>g ids. g \<in> set (map snd (st_grants s)) \<and> unset (gr_revokedAt g) \<and>
      g' = g\<lparr>gr_operationIds := ids, gr_catalogRevision := oc_revision to, gr_authorityRevision := revision\<rparr>"
    and "st_grants s' = fold (put_record gr_id) gs (st_grants s)"
proof -
  obtain gs where
      moved: "map_result (migrate_grant (cr_changes (compareApplicationOperationCatalogs before to no_references)) (oc_revision to) revision)
        (filter (\<lambda>grant. unset (gr_revokedAt grant) \<and> \<not> isExpired env (gr_expiresAt grant) (env_now env (st_reads s)) \<and>
           gr_catalogRevision grant = oc_revision before) (map snd (st_grants s))) = Inr gs"
    and "st_grants s' = fold (put_record gr_id) gs (st_grants s)"
    using assms unfolding migrateCatalogAuthority_def Let_def
    by (auto simp: tick_pair frame migrate_loops retire_writes snapshot_def split: sum.splits prod.splits)
  moreover have "\<forall>g' \<in> set gs. \<exists>g ids. g \<in> set (map snd (st_grants s)) \<and> unset (gr_revokedAt g) \<and>
      g' = g\<lparr>gr_operationIds := ids, gr_catalogRevision := oc_revision to, gr_authorityRevision := revision\<rparr>"
    using migrated_all [OF moved] migrate_grant_Inr by fastforce
  ultimately show ?thesis using that by blast
qed

lemma migrate_writes:
  assumes "P (st_grants s)" and "migrateCatalogAuthority env before to revision s = Inr (x, s')"
  shows "P (st_grants s')"
proof -
  obtain gs where gs: "\<forall>g' \<in> set gs. \<exists>g ids. g \<in> set (map snd (st_grants s)) \<and> unset (gr_revokedAt g) \<and>
      g' = g\<lparr>gr_operationIds := ids, gr_catalogRevision := oc_revision to, gr_authorityRevision := revision\<rparr>"
    and s': "st_grants s' = fold (put_record gr_id) gs (st_grants s)" by (rule migrate_steps [OF assms(2)])
  have "ok g'" if "g' \<in> set gs" for g'
  proof -
    from gs that obtain g ids where "g \<in> set (map snd (st_grants s))" "unset (gr_revokedAt g)"
      "g' = g\<lparr>gr_operationIds := ids, gr_catalogRevision := oc_revision to, gr_authorityRevision := revision\<rparr>" by blast
    then show ?thesis using migrated [OF assms(1)] by blast
  qed
  then show ?thesis unfolding s' by (intro fold_keeps [where P = P]) (simp_all add: put assms(1))
qed

lemma reading_writes:
  "st_grants (snd (grantedRolesForIdentity env identity s)) = st_grants s"
  "st_grants (snd (revalidateReceipt env receipt catalog boundary digest s)) = st_grants s"
  by (auto simp: grantedRolesForIdentity_def revalidateReceipt_def Let_def tick_pair frame split: prod.split option.split)

lemma migrate_grant_writes: "P (st_grants s) \<Longrightarrow> P (st_grants (snd (migrateGrantCatalog env k before to revision s)))"
  by (auto simp: migrateGrantCatalog_def Let_def transaction_def dest: migrate_writes split: option.splits sum.splits prod.splits)

lemma bootstrap_role_writes:
  assumes "P (st_grants s)" and "admits_op (BootstrapRole b)" and "bootstrapRole env b s = Inr (x, s')"
  shows "P (st_grants s')"
  using assms bootstrap_writes [of s b "sb_identity b" env x s'] by (auto simp: bootstrapRole_def admits_op_def)

lemma reconcile_op_writes:
  assumes "P (st_grants s)" and "admits_op (Reconcile manifest)" and "reconcileApplicationAuthority env manifest s = Inr (x, s')"
  shows "P (st_grants s')"
  using assms reconcile_writes [OF assms(1) _ assms(3)] by (auto simp: admits_op_def)

lemmas every_write = writes_other authorize_writes assign_writes revoke_writes decide_writes reconcile_op_writes static_writes
  permissions_writes bootstrap_writes bootstrap_role_writes break_glass_writes revoke_role_writes migrate_writes

theorem perform_writes:
  assumes "P (st_grants s)" and "admits_op op"
  shows "P (st_grants (perform_op env op s))"
proof -
  note keeps = transaction_keeps [where P = "\<lambda>s. P (st_grants s)", OF _ assms(1)]
  show ?thesis
    using assms by (cases op) (auto intro!: keeps simp: reading_writes migrate_grant_writes dest: every_write)
qed

theorem run_writes:
  assumes "P (st_grants s)" and "\<forall>(env, op) \<in> set ops. admits_op op"
  shows "P (st_grants (run ops s))"
  using assms by (induction ops arbitrary: s) (auto simp: perform_writes)

end

end
