(* ===== verification/Authority_Kept.thy ===== *)
theory Authority_Kept
  imports Authority_Writes
begin

text \<open>
  Facts that outlive the operations of the authority service: every grant and every reservation stands
  under its id; a revoked grant stays revoked, a bootstrap lease keeps its owner and its identity and a
  bounded grant its bound until an operation names the grant itself; a bounded grant is never used more
  often than it allows.
\<close>

section \<open>Facts about one grant\<close>

interpretation grant_keys: grant_writes "keyed gr_id" "\<lambda>_. True"
  by unfold_locales (simp_all add: keyed_put)

lemma grants_keyed: "keyed gr_id (st_grants s) \<Longrightarrow> keyed gr_id (st_grants (run ops s))"
  using grant_keys.run_writes [of s ops] by (simp add: grant_keys.admits_op_def split: prod.split)

text \<open>A fact \<open>Q\<close> about the grant \<open>k\<close> that its revocation and its migration keep.\<close>

definition stored_with :: "string \<Rightarrow> (ApplicationGrantRecord \<Rightarrow> bool) \<Rightarrow> (string \<times> ApplicationGrantRecord) list \<Rightarrow> bool" where
  "stored_with k Q m \<longleftrightarrow> keyed gr_id m \<and> (\<exists>g. map_of m k = Some g \<and> Q g)"

locale kept_fact =
  fixes Q :: "ApplicationGrantRecord \<Rightarrow> bool"
  assumes revocation: "Q g \<Longrightarrow> unset (gr_revokedAt g) \<Longrightarrow> Q (g\<lparr>gr_revokedAt := Some t, gr_reason := reason\<rparr>)"
    and migration: "Q g \<Longrightarrow> unset (gr_revokedAt g) \<Longrightarrow>
      Q (g\<lparr>gr_operationIds := ids, gr_catalogRevision := revision, gr_authorityRevision := authority\<rparr>)"
begin

lemma stored_fact: "stored_with k Q m \<Longrightarrow> g \<in> set (map snd m) \<Longrightarrow> gr_id g = k \<Longrightarrow> Q g"
  using keyed_member [of gr_id m g] by (auto simp: stored_with_def)

lemma contract: "grant_writes (stored_with k Q) (\<lambda>g. gr_id g = k \<longrightarrow> Q g)"
proof
  fix m and g :: ApplicationGrantRecord assume "stored_with k Q m" and "gr_id g = k \<longrightarrow> Q g"
  then show "stored_with k Q (put_record gr_id g m)" by (auto simp: stored_with_def keyed_put put_lookup)
next
  fix m and g :: ApplicationGrantRecord assume "stored_with k Q m" and "gr_id g \<notin> gr_id ` set (map snd m)"
  moreover from this obtain g0 where "(k, g0) \<in> set m" and "keyed gr_id m" by (auto simp: stored_with_def dest: map_of_SomeD)
  then have "k \<in> gr_id ` set (map snd m)" by (force simp: keyed_def)
  ultimately show "gr_id g = k \<longrightarrow> Q g" by auto
next
  fix m and g :: ApplicationGrantRecord and t reason assume "stored_with k Q m" and "g \<in> set (map snd m)" and "unset (gr_revokedAt g)"
  then show "gr_id (g\<lparr>gr_revokedAt := Some t, gr_reason := reason\<rparr>) = k \<longrightarrow> Q (g\<lparr>gr_revokedAt := Some t, gr_reason := reason\<rparr>)"
    using stored_fact revocation by simp
next
  fix m and g :: ApplicationGrantRecord and ids revision authority assume "stored_with k Q m" and "g \<in> set (map snd m)" and "unset (gr_revokedAt g)"
  then show "gr_id (g\<lparr>gr_operationIds := ids, gr_catalogRevision := revision, gr_authorityRevision := authority\<rparr>) = k \<longrightarrow>
      Q (g\<lparr>gr_operationIds := ids, gr_catalogRevision := revision, gr_authorityRevision := authority\<rparr>)"
    using stored_fact migration by simp
qed

end

sublocale kept_fact \<subseteq> grant: grant_writes "stored_with k Q" "\<lambda>g. gr_id g = k \<longrightarrow> Q g" for k
  by (rule contract)

context kept_fact
begin

lemma kept_by_perform:
  "stored_with k Q (st_grants s) \<Longrightarrow> \<not> writes_id op k \<Longrightarrow> stored_with k Q (st_grants (perform_op env op s))"
  by (rule grant.perform_writes) (auto simp: grant.admits_op_def)

lemma kept_by_run:
  "stored_with k Q (st_grants s) \<Longrightarrow> \<forall>(env, op) \<in> set ops. \<not> writes_id op k \<Longrightarrow> stored_with k Q (st_grants (run ops s))"
  by (rule grant.run_writes) (auto simp: grant.admits_op_def)

end

interpretation revoked_grant: kept_fact "\<lambda>g. \<not> unset (gr_revokedAt g)"
  by unfold_locales simp_all

interpretation leased_grant: kept_fact "\<lambda>g. gr_lifecycleOwner g = Some owner \<and> gr_identity g = identity" for owner identity
  by unfold_locales simp_all

interpretation bounded_grant: kept_fact "\<lambda>g. gr_maximumUses g = Some n" for n
  by unfold_locales simp_all

section \<open>Reservations\<close>

text \<open>The live uses of a grant: the reservations that were neither released nor expired.\<close>

definition uses :: "authority_state \<Rightarrow> string \<Rightarrow> nat" where
  "uses s k = length (filter (\<lambda>r. rs_grantId r = k \<and> live_reservation r) (map snd (st_reservations s)))"

lemma put_counts:
  "length (filter Q (map snd (put_record key r m))) \<le> length (filter Q (map snd m)) + (if Q r then 1 else 0)"
  unfolding put_record_def by (induction m) auto

lemma put_replaces:
  assumes "map_of m (key r) = Some r0" and "Q r \<Longrightarrow> Q r0"
  shows "length (filter Q (map snd (put_record key r m))) \<le> length (filter Q (map snd m))"
  using assms unfolding put_record_def by (induction m) (auto split: if_splits)

lemma live_grant_stored:
  "live_grant env now request (snapshot s) = Some g \<Longrightarrow> g \<in> set (map snd (st_grants s)) \<and> unset (gr_revokedAt g) \<and>
     \<not> isExpired env (gr_expiresAt g) now \<and> g \<in> set (grant_candidates request (snapshot s))"
  unfolding live_grant_def by (drule find_SomeD) (auto simp: grant_candidates_def snapshot_def split: if_splits)

lemma authorize_reserves:
  assumes "authorize env request s = Inr (result, s')"
  shows "st_reservations s' = st_reservations s \<or>
    (\<exists>g r n. st_reservations s' = put_record rs_id r (st_reservations s) \<and> g \<in> set (map snd (st_grants s)) \<and>
       rs_grantId r = gr_id g \<and> gr_maximumUses g = Some n \<and> \<not> count_reaches (uses s (gr_id g)) n)"
  using assms
proof (cases rule: authorize_outcome)
  case (reserved receipt r k)
  then obtain g where g: "live_grant env (env_now env (st_reads s)) request (snapshot s) = Some g"
    by (auto simp: reserve_def split: option.splits)
  then have "g \<in> set (map snd (st_grants s))" using live_grant_stored by blast
  moreover from reserved(3) g obtain n where "gr_maximumUses g = Some n" "rs_grantId r = gr_id g" "\<not> count_reaches (uses s (gr_id g)) n"
    by (auto simp: reserve_def uses_def snapshot_def split: option.splits if_splits)
  ultimately show ?thesis using reserved(4) by blast
qed (simp_all add: same_records_def)

lemma transition_replaces:
  assumes "transitionReservation env k after uncertain s = Inr (x, s')" and "keyed rs_id (st_reservations s)"
  obtains r0 r where "st_reservations s' = put_record rs_id r (st_reservations s)"
    and "map_of (st_reservations s) (rs_id r) = Some r0" and "rs_grantId r = rs_grantId r0"
    and "live_reservation r \<longrightarrow> live_reservation r0"
proof -
  obtain r0 where "map_of (st_reservations s) k = Some r0" and r0: "find (\<lambda>c. rs_id c = k) (map snd (st_reservations s)) = Some r0"
    using assms find_keyed [OF assms(2)] by (auto simp: transitionReservation_def snapshot_def split: option.splits)
  moreover from r0 have "rs_id r0 = k" by (auto simp: find_Some_iff)
  moreover have "st_reservations s' = put_record rs_id x (st_reservations s)" "rs_id x = k" "rs_grantId x = rs_grantId r0"
      "rs_state x = after" "assertReservationTransition (rs_state r0) after = None"
    using assms(1) r0 \<open>rs_id r0 = k\<close> by (auto simp: transitionReservation_def snapshot_def Let_def tick_pair frame writes split: prod.splits)
  moreover from this have "live_reservation x \<longrightarrow> live_reservation r0"
    by (cases "rs_state r0") (auto simp: live_reservation_def assertReservationTransition_def split: if_splits)
  ultimately show ?thesis using that [of x r0] by simp
qed

text \<open>What one operation does to the reservations of the grant \<open>k\<close>: at most one new use, while the bound is not reached.\<close>

definition use_step :: "string \<Rightarrow> authority_state \<Rightarrow> authority_state \<Rightarrow> bool" where
  "use_step k s s' \<longleftrightarrow> keyed rs_id (st_reservations s') \<and>
     (uses s' k \<le> uses s k \<or>
      (\<exists>g n. map_of (st_grants s) k = Some g \<and> gr_maximumUses g = Some n \<and> \<not> count_reaches (uses s k) n \<and>
         uses s' k \<le> Suc (uses s k)))"

lemma use_step_same:
  "keyed rs_id (st_reservations s) \<Longrightarrow> st_reservations s' = st_reservations s \<Longrightarrow> use_step k s s'"
  by (simp add: use_step_def uses_def)

lemma authorize_use_step:
  assumes "authorize env request s = Inr (x, s')" and "keyed rs_id (st_reservations s)" and "keyed gr_id (st_grants s)"
  shows "use_step k s s'"
  using authorize_reserves [OF assms(1)]
proof (elim disjE exE conjE)
  fix g r n assume *: "st_reservations s' = put_record rs_id r (st_reservations s)" "g \<in> set (map snd (st_grants s))"
    "rs_grantId r = gr_id g" "gr_maximumUses g = Some n" "\<not> count_reaches (uses s (gr_id g)) n"
  then have "uses s' k \<le> uses s k + (if gr_id g = k then 1 else 0)"
    using put_counts [of "\<lambda>r. rs_grantId r = k \<and> live_reservation r" rs_id r "st_reservations s"]
    by (auto simp: uses_def split: if_splits)
  with * keyed_member [OF assms(3)] show ?thesis
    using assms(2) by (cases "gr_id g = k") (auto simp: use_step_def keyed_put)
qed (rule use_step_same [OF assms(2)])

lemma transition_use_step:
  assumes "transitionReservation env j after uncertain s = Inr (x, s')" and "keyed rs_id (st_reservations s)"
  shows "use_step k s s'"
proof -
  obtain r0 r where *: "st_reservations s' = put_record rs_id r (st_reservations s)"
      "map_of (st_reservations s) (rs_id r) = Some r0" "rs_grantId r = rs_grantId r0"
      "live_reservation r \<longrightarrow> live_reservation r0" by (rule transition_replaces [OF assms])
  then have "uses s' k \<le> uses s k" unfolding uses_def *(1) by (intro put_replaces [where key = rs_id and ?r0.0 = r0]) auto
  with * show ?thesis using assms(2) by (simp add: use_step_def keyed_put)
qed

lemma perform_use_step:
  assumes "keyed rs_id (st_reservations s)" and "keyed gr_id (st_grants s)"
  shows "use_step k s (perform_op env op s)"
proof (cases "writes_part op")
  case True
  have same: "use_step k s s" using assms(1) by (simp add: use_step_same)
  note keeps = transaction_keeps [where P = "use_step k s", OF _ same]
  from True show ?thesis
    by (cases op) (auto intro!: keeps intro: authorize_use_step transition_use_step use_step_same assms tombstone_reservations)
qed (simp add: use_step_same [OF assms(1)] reservations.perform_part)

theorem run_uses:
  assumes "keyed rs_id (st_reservations s)" and "stored_with k (\<lambda>g. gr_maximumUses g = Some (NInt n)) (st_grants s)"
    and "int (uses s k) \<le> n" and "\<forall>(env, op) \<in> set ops. \<not> writes_id op k"
  shows "int (uses (run ops s) k) \<le> n"
  using assms
proof (induction ops arbitrary: s)
  case (Cons e ops)
  obtain env op where e: "e = (env, op)" by fastforce
  have step: "use_step k s (perform_op env op s)"
    using Cons.prems by (intro perform_use_step) (simp_all add: stored_with_def)
  then have "int (uses (perform_op env op s) k) \<le> n"
    using Cons.prems(2,3) by (auto simp: use_step_def stored_with_def)
  moreover have "stored_with k (\<lambda>g. gr_maximumUses g = Some (NInt n)) (st_grants (perform_op env op s))"
    using Cons.prems e by (intro bounded_grant.kept_by_perform) simp_all
  ultimately show ?case using Cons.IH step Cons.prems(4) e by (simp add: use_step_def)
qed simp

lemma reservations_keyed:
  assumes "keyed rs_id (st_reservations s)" and "keyed gr_id (st_grants s)"
  shows "keyed rs_id (st_reservations (run ops s))"
  using assms
proof (induction ops arbitrary: s)
  case (Cons e ops)
  obtain env op where e: "e = (env, op)" by fastforce
  have "keyed gr_id (st_grants (perform_op env op s))" using grants_keyed [OF Cons.prems(2), of "[(env, op)]"] by simp
  then show ?case using Cons perform_use_step [OF Cons.prems] e by (simp add: use_step_def)
qed simp

section \<open>Tombstones\<close>

definition tombstone_ok :: "ApplicationRevocationTombstone \<Rightarrow> bool" where
  "tombstone_ok t \<longleftrightarrow> unset (tb_provenAt t) \<or> list_all obligation_complete (tb_obligations t)"

definition tombstones_ok :: "authority_state \<Rightarrow> bool" where
  "tombstones_ok s \<longleftrightarrow> (\<forall>t \<in> set (map snd (st_tombstones s)). tombstone_ok t)"

lemma put_tombstone_ok:
  assumes "tombstones_ok s" and "tombstone_ok t" and "st_tombstones s' = put_record tb_id t (st_tombstones s)"
  shows "tombstones_ok s'"
proof -
  have "set (map snd (put_record tb_id t m)) \<subseteq> insert t (set (map snd m))" for m
    unfolding put_record_def by (induction m) auto
  then show ?thesis using assms unfolding tombstones_ok_def by fastforce
qed

lemma create_tombstone_ok:
  assumes "tombstones_ok s" and "createRevocationTombstone env r s = Inr (x, s')"
  shows "tombstones_ok s'"
  using assms put_tombstone_ok [OF assms(1), of r s']
  by (auto simp: createRevocationTombstone_def tombstone_ok_def writes split: option.splits if_splits)

lemma transfer_tombstone_ok:
  assumes "tombstones_ok s" and "transferRevocationByBreakGlass env k actor acknowledgement s = Inr (x, s')"
  shows "tombstones_ok s'"
proof -
  obtain t where t: "find (\<lambda>c. tb_id c = k) (map snd (st_tombstones s)) = Some t"
    using assms(2) by (auto simp: transferRevocationByBreakGlass_def snapshot_def split: option.splits)
  then have "tombstone_ok t" using assms(1) find_SomeD [OF t] unfolding tombstones_ok_def by blast
  then show ?thesis
    using assms t put_tombstone_ok [OF assms(1), of x s']
    by (auto simp: transferRevocationByBreakGlass_def snapshot_def tombstone_ok_def Let_def tick_pair frame writes
        split: prod.splits if_splits)
qed

lemma observe_tombstone_ok:
  assumes "tombstones_ok s" and "observeRevocationObligation env k projection observation s = Inr (x, s')"
  shows "tombstones_ok s'"
proof -
  obtain t where t: "find (\<lambda>c. tb_id c = k) (map snd (st_tombstones s)) = Some t"
    using assms(2) by (auto simp: observeRevocationObligation_def snapshot_def split: option.splits)
  then have "tombstone_ok t" using assms(1) find_SomeD [OF t] unfolding tombstones_ok_def by blast
  then show ?thesis
    using assms t put_tombstone_ok [OF assms(1), of x s']
    by (auto simp: observeRevocationObligation_def snapshot_def tombstone_ok_def Let_def tick_pair frame writes
        split: prod.splits if_splits)
qed

lemma run_tombstones_ok: "tombstones_ok s \<Longrightarrow> tombstones_ok (run ops s)"
proof (induction ops arbitrary: s)
  case (Cons e ops)
  obtain env op where e: "e = (env, op)" by fastforce
  have "tombstones_ok (perform_op env op s)"
  proof (cases "writes_part op")
    case True
    note keeps = transaction_keeps [where P = tombstones_ok, OF _ Cons.prems]
    have same: "tombstones_ok s'" if "st_tombstones s' = st_tombstones s" for s' using that Cons.prems by (simp add: tombstones_ok_def)
    have "st_tombstones s' = st_tombstones s" if "authorize env request s = Inr (x, s')" for request x s'
      using that by (cases rule: authorize_outcome) (simp_all add: same_records_def)
    moreover have "st_tombstones s' = st_tombstones s" if "transitionReservation env k after uncertain s = Inr (x, s')" for k after uncertain x s'
      using that by (auto simp: transitionReservation_def Let_def tick_pair frame split: option.splits prod.splits)
    ultimately show ?thesis
      using True Cons.prems by (cases op) (auto intro!: keeps intro: same create_tombstone_ok transfer_tombstone_ok observe_tombstone_ok)
  qed (use Cons.prems in \<open>simp add: tombstones_ok_def tombstones.perform_part\<close>)
  then show ?case using Cons.IH e by simp
qed simp

section \<open>Bootstrap leases\<close>

text \<open>A role that was bootstrapped once: no further bootstrap of the role writes a grant.\<close>

lemma bootstrap_again:
  assumes "stored_with k (\<lambda>g. gr_lifecycleOwner g = Some (applicationRoleBootstrapOwner (sb_roleId b)) \<and> gr_identity g = identity) (st_grants s)"
    and "bootstrapDeclaredRole env b admitted s = Inr (gs, s')"
  shows "st_grants s' = st_grants s \<and> (\<not> sameIdentity identity admitted \<longrightarrow> gs = [])"
proof -
  obtain g where g: "g \<in> set (map snd (st_grants s))" "gr_identity g = identity"
      "gr_lifecycleOwner g = Some (applicationRoleBootstrapOwner (sb_roleId b))"
    using assms(1) by (force simp: stored_with_def dest: map_of_SomeD)
  let ?historical = "filter (\<lambda>grant. gr_lifecycleOwner grant = Some (applicationRoleBootstrapOwner (sb_roleId b))) (map snd (st_grants s))"
  have g: "g \<in> set ?historical" using g by simp
  then have "?historical \<noteq> []" by (metis length_pos_if_in_set length_0_conv less_numeral_extra(3))
  moreover have "\<not> list_all (\<lambda>grant. sameIdentity (gr_identity grant) admitted) ?historical" if "\<not> sameIdentity identity admitted"
    using g that \<open>gr_identity g = identity\<close> by (auto simp: list_all_iff)
  ultimately show ?thesis
    using assms(2) by (auto simp: bootstrapDeclaredRole_def snapshot_def Let_def tick_pair frame split: option.splits prod.splits if_splits)
qed

end
