(* ===== verification/Authority_Derivation.thy ===== *)
theory Authority_Derivation
  imports Authority_Kept
begin

text \<open>
  Where authority comes from: the grant or the role permission an allowed request rests on, the issuer's
  grant and the permission a runtime grant derives from, the request an approved grant stays within, and
  what the reconciliation of a manifest leaves in the repository.
\<close>

section \<open>What an allowed request rests on\<close>

definition covers :: "ApplicationAuthorizationRequest \<Rightarrow> ApplicationGrantRecord \<Rightarrow> bool" where
  "covers request g \<longleftrightarrow> ref_id (gr_identity g) = ref_id (pn_identity (ar_principal request)) \<and>
     gr_catalogRevision g = oc_revision (ar_catalog request) \<and> od_id (ar_operation request) \<in> set (gr_operationIds g) \<and>
     permits (gr_audiences g) (ar_audience request) \<and> permits (gr_transports g) (ar_transport request)"

definition role_covers :: "ApplicationAuthorizationRequest \<Rightarrow> ApplicationRoleRecord \<Rightarrow> ApplicationPermissionRecord \<Rightarrow> bool" where
  "role_covers request role p \<longleftrightarrow> unset (rl_retiredAt role) \<and> unset (pm_retiredAt p) \<and>
     (\<exists>names. pn_roles (ar_principal request) = Some names \<and> rl_name role \<in> set names) \<and> pm_id p \<in> set (rl_permissionIds role) \<and>
     pm_catalogRevision p = oc_revision (ar_catalog request) \<and> od_id (ar_operation request) \<in> set (pm_operationIds p) \<and>
     permits (pm_audiences p) (ar_audience request) \<and> permits (pm_transports p) (ar_transport request)"

lemma candidates_cover:
  "g \<in> set (grant_candidates request (snapshot s)) \<Longrightarrow> g \<in> set (map snd (st_grants s)) \<and> covers request g"
  by (auto simp: grant_candidates_def snapshot_def covers_def split: if_splits)

lemma role_permissions_cover:
  "p \<in> set (role_permissions request (snapshot s)) \<Longrightarrow>
   p \<in> set (map snd (st_permissions s)) \<and> (\<exists>role \<in> set (map snd (st_roles s)). role_covers request role p)"
proof -
  assume p: "p \<in> set (role_permissions request (snapshot s))"
  then obtain role where "role \<in> set (map snd (st_roles s))" "unset (rl_retiredAt role)" "pm_id p \<in> set (rl_permissionIds role)"
      "rl_name role \<in> set (default_to (pn_roles (ar_principal request)) [])"
    by (fastforce simp: role_permissions_def snapshot_def Let_def split: if_splits)
  moreover from this(4) obtain names where "pn_roles (ar_principal request) = Some names" "rl_name role \<in> set names"
    by (cases "pn_roles (ar_principal request)") (simp_all add: default_to_def)
  ultimately have "role_covers request role p"
    using p by (auto simp: role_permissions_def role_covers_def Let_def split: if_splits)
  then show ?thesis
    using p \<open>role \<in> set (map snd (st_roles s))\<close> by (auto simp: role_permissions_def snapshot_def Let_def split: if_splits)
qed

lemma live_grant_None:
  assumes "live_grant env now request state = None"
  shows "\<forall>g \<in> set (grant_candidates request state). \<not> unset (gr_revokedAt g) \<or> isExpired env (gr_expiresAt g) now"
  using assms by (auto simp: live_grant_def find_None_iff)

text \<open>The authority an allowed request was given: a live grant that covers it, or a permission of a role.\<close>

lemma authority_found:
  assumes "authority_denial env now request (snapshot s) = None" and "needs_grant request"
  shows "(\<exists>g. live_grant env now request (snapshot s) = Some g) \<or> (\<exists>p. matching_permission env request (snapshot s) = Some p)"
proof (rule ccontr)
  assume "\<not> ?thesis"
  then have none: "live_grant env now request (snapshot s) = None" "matching_permission env request (snapshot s) = None" by auto
  from assms none have "grant_candidates request (snapshot s) \<noteq> []"
    by (auto simp: authority_denial_def Let_def split: if_splits)
  then obtain g where "g \<in> set (grant_candidates request (snapshot s))" by (meson list.set_sel(1))
  with live_grant_None [OF none(1)] assms none show False
    by (auto simp: authority_denial_def Let_def list_ex_iff split: if_splits)
qed

lemma admission_facts:
  assumes "admission_denial request = None"
  shows "oc_state (ar_catalog request) \<in> {Active, Draining}"
    and "\<exists>operation \<in> set (oc_operations (ar_catalog request)). od_id operation = od_id (ar_operation request)"
    and "pn_catalogRevision (ar_principal request) = oc_revision (ar_catalog request)"
    and "oa_classification (od_authority (ar_operation request)) \<noteq> Unclassified"
    and "pn_trustedContextDigest (ar_principal request) = ar_trustedContextDigest request"
    and "ar_audience request \<in> set (pn_audience (ar_principal request))"
    and "permits (oa_audiences (od_authority (ar_operation request))) (ar_audience request)"
    and "permits (oa_transports (od_authority (ar_operation request))) (ar_transport request)"
    and "oa_classification (od_authority (ar_operation request)) = ApplicationPolicy \<longrightarrow> ar_applicationPolicyAllowed request = Some True"
  using assms by (auto simp: admission_denial_def Let_def permits_def list_ex_iff split: if_splits option.splits)

lemma allowed_facts:
  assumes "authorize env request s = Inr (Allowed receipt reservation, s')"
  shows "allowed_with env request s receipt reservation"
  using assms by (cases rule: authorize_outcome) auto

lemma allowed_authority:
  assumes "allowed_with env request s receipt reservation" and "needs_grant request"
  defines "now \<equiv> env_now env (st_reads s)"
  shows "(\<exists>g \<in> set (map snd (st_grants s)). rc_matchedGrantIds receipt = [gr_id g] \<and> covers request g \<and> unset (gr_revokedAt g) \<and>
            \<not> isExpired env (gr_expiresAt g) now) \<or>
         (\<exists>p \<in> set (map snd (st_permissions s)). \<exists>role \<in> set (map snd (st_roles s)). rc_matchedGrantIds receipt = [] \<and>
            pm_id p \<in> set (rc_matchedPermissionIds receipt) \<and> role_covers request role p)"
proof (cases "live_grant env now request (snapshot s)")
  case (Some g)
  then have "rc_matchedGrantIds receipt = [gr_id g]"
    using assms(1) by (auto simp: allowed_with_def Let_def grant_receipt_def now_def)
  with live_grant_stored [OF Some] candidates_cover show ?thesis by blast
next
  case None
  then obtain p where p: "matching_permission env request (snapshot s) = Some p"
    using authority_found [OF _ assms(2), of env now s] assms(1) by (simp add: allowed_with_def Let_def now_def) blast
  then have "p \<in> set (role_permissions request (snapshot s))"
    unfolding matching_permission_def by (drule_tac find_SomeD) simp
  moreover have "rc_matchedGrantIds receipt = []" "pm_id p \<in> set (rc_matchedPermissionIds receipt)"
    using None p assms(1) by (auto simp: allowed_with_def Let_def grant_receipt_def now_def)
  ultimately show ?thesis using role_permissions_cover by blast
qed

lemma allowed_scope:
  assumes "allowed_with env request s receipt reservation"
  defines "now \<equiv> env_now env (st_reads s)"
  shows "\<not> is_none (effective_scope env request (live_grant env now request (snapshot s)) (matching_permission env request (snapshot s)))"
  using assms by (auto simp: allowed_with_def authority_denial_def Let_def split: if_splits)

section \<open>Where a runtime grant comes from\<close>

text \<open>A grant that narrows another record's operations, audiences and transports, and its scope under every reading of the atoms.\<close>

definition narrows :: "ApplicationGrantRecord \<Rightarrow> string list \<Rightarrow> ApplicationScopeExpression \<Rightarrow> bool" where
  "narrows g operationIds scope \<longleftrightarrow> set (gr_operationIds g) \<subseteq> set operationIds \<and>
     {atom. scope_holds atom (gr_scope g)} \<subseteq> {atom. scope_holds atom scope}"

definition plain_authority :: "authority_env \<Rightarrow> (string \<Rightarrow> js_number option) \<Rightarrow> authority_state \<Rightarrow> bool" where
  "plain_authority env rd s \<longleftrightarrow> (\<forall>p \<in> set (map snd (st_permissions s)). plain_scope (env_scope env) rd (pm_scope p)) \<and>
     (\<forall>g \<in> set (map snd (st_grants s)). plain_scope (env_scope env) rd (gr_scope g)) \<and>
     (\<forall>d \<in> set (map snd (st_delegations s)). plain_scope (env_scope env) rd (dl_scope d)) \<and>
     (\<forall>q \<in> set (map snd (st_requests s)). plain_scope (env_scope env) rd (gq_scope q))"

lemma permission_found: "find_permission k (snapshot s) = Some p \<Longrightarrow>
    p \<in> set (map snd (st_permissions s)) \<and> pm_id p = k \<and> unset (pm_retiredAt p)"
  unfolding find_permission_def by (drule find_SomeD) (simp add: snapshot_def)

lemma issuer_found: "issuer_grant env now r (snapshot s) k = Some g \<Longrightarrow>
    g \<in> set (map snd (st_grants s)) \<and> ref_id (gr_identity g) = ref_id (gr_issuedBy r) \<and> gr_canGrant g = Some True \<and>
    unset (gr_revokedAt g) \<and> \<not> isExpired env (gr_expiresAt g) now \<and> gr_catalogRevision g = gr_catalogRevision r \<and>
    gr_permissionId g = Some k"
  unfolding issuer_grant_def by (drule find_SomeD) (simp add: snapshot_def)

lemma valid_runtime_grant:
  assumes "validateGrant env now g (snapshot s) True = None"
  obtains p ig where "find_permission (pm_id p) (snapshot s) = Some p" and "gr_permissionId g = Some (pm_id p)"
    and "validate_permission env g p True = None"
    and "issuer_grant env now g (snapshot s) (pm_id p) = Some ig" and "validate_issuer env g ig = None"
    and "validate_shape g = None" and "validate_delegation env now g (snapshot s) = None" and "validate_outcome g (snapshot s) = None"
proof -
  obtain k p where k: "truthy_text (gr_permissionId g) = Some k" and p: "find_permission k (snapshot s) = Some p"
    using assms by (auto simp: validateGrant_def Let_def split: option.splits)
  then have "gr_permissionId g = Some k" by (auto simp: truthy_text_def split: option.splits if_splits)
  moreover have "pm_id p = k" using permission_found [OF p] by simp
  ultimately show ?thesis
    using assms k p that by (auto simp: validateGrant_def Let_def split: option.splits)
qed

text \<open>The permission and the issuer's grant a runtime grant derives from.\<close>

definition derives ::
  "authority_env \<Rightarrow> int \<Rightarrow> ApplicationGrantRecord \<Rightarrow> ApplicationPermissionRecord \<Rightarrow> ApplicationGrantRecord \<Rightarrow> bool" where
  "derives env now g p ig \<longleftrightarrow> unset (pm_retiredAt p) \<and> pm_grantable p \<and> gr_permissionId g = Some (pm_id p) \<and>
     gr_catalogRevision g = pm_catalogRevision p \<and> narrows g (pm_operationIds p) (pm_scope p) \<and>
     ref_id (gr_identity ig) = ref_id (gr_issuedBy g) \<and> gr_canGrant ig = Some True \<and> gr_permissionId ig = Some (pm_id p) \<and>
     gr_catalogRevision ig = gr_catalogRevision g \<and> unset (gr_revokedAt ig) \<and> \<not> isExpired env (gr_expiresAt ig) now \<and>
     narrows g (gr_operationIds ig) (gr_scope ig)"

lemma validated_grant_derives:
  assumes valid: "validateGrant env now g (snapshot s) True = None"
    and plain: "plain_authority env rd s" "plain_scope (env_scope env) rd (gr_scope g)"
  shows "\<exists>p \<in> set (map snd (st_permissions s)). \<exists>ig \<in> set (map snd (st_grants s)). derives env now g p ig"
proof -
  obtain p ig where p: "find_permission (pm_id p) (snapshot s) = Some p" "gr_permissionId g = Some (pm_id p)"
      "validate_permission env g p True = None"
    and ig: "issuer_grant env now g (snapshot s) (pm_id p) = Some ig" "validate_issuer env g ig = None"
    by (rule valid_runtime_grant [OF valid])
  note stored = permission_found [OF p(1)] issuer_found [OF ig(1)]
  have scopes: "plain_scope (env_scope env) rd (pm_scope p)" "plain_scope (env_scope env) rd (gr_scope ig)"
    using stored plain(1) unfolding plain_authority_def by blast+
  have "narrows g (pm_operationIds p) (pm_scope p)"
    unfolding narrows_def using p(3) by (intro conjI narrowing_sound [OF _ plain(2) scopes(1)]) (auto simp: validate_permission_def)
  moreover have "narrows g (gr_operationIds ig) (gr_scope ig)"
    unfolding narrows_def using ig(2) by (intro conjI narrowing_sound [OF _ plain(2) scopes(2)]) (auto simp: validate_issuer_def)
  ultimately have "derives env now g p ig"
    using stored p(2,3) unfolding derives_def by (simp add: validate_permission_def)
  then show ?thesis using stored by blast
qed

lemma validated_shape: "validateGrant env now g state requireGrantable = None \<Longrightarrow> gr_origin g = RuntimeOrigin \<Longrightarrow>
    ref_id (gr_identity g) \<noteq> ref_id (gr_issuedBy g)"
  by (auto simp: validateGrant_def validate_shape_def Let_def)

lemma fresh_key: "k \<notin> key ` A \<longleftrightarrow> (\<forall>x \<in> A. key x \<noteq> k)"
  by auto

lemma assigned_grant:
  assumes "assignGrant env g s = Inr (x, s')" and "gr_id g \<notin> gr_id ` set (map snd (st_grants s))"
  shows "validateGrant env (env_now env (st_reads s)) g (snapshot s) (gr_origin g = RuntimeOrigin) = None \<and>
    map_of (st_grants s') = (map_of (st_grants s))(gr_id g \<mapsto> g)"
proof -
  have "find (\<lambda>candidate. gr_id candidate = gr_id g) (sn_grants (snapshot s)) = None"
    using assms(2) unfolding fresh_key by (auto simp: find_None_iff snapshot_def)
  then show ?thesis
    using assms(1) by (auto simp: assignGrant_def Let_def tick_pair frame put_lookup split: prod.splits)
qed

section \<open>Decisions\<close>

text \<open>The bounds of a request that the grant of an approval keeps to.\<close>

definition within_request :: "ApplicationGrantRequestRecord \<Rightarrow> ApplicationGrantRecord \<Rightarrow> bool" where
  "within_request q g \<longleftrightarrow> ref_id (gr_identity g) = ref_id (gq_requester q) \<and> narrows g (gq_operationIds q) (gq_scope q) \<and>
     (case gq_requestedMaximumUses q of None \<Rightarrow> True | Some limit \<Rightarrow> \<exists>m. gr_maximumUses g = Some m \<and> \<not> num_greater m limit) \<and>
     (case truthy_text (gq_requestedExpiresAt q) of None \<Rightarrow> True | Some limit \<Rightarrow> \<exists>e. gr_expiresAt g = Some e \<and> e \<le> limit) \<and>
     gr_outcomeId g = gq_requiredOutcomeId q"

lemma decided_within_request:
  assumes "decided_grant_error env now (snapshot s) q g = None"
    and "plain_scope (env_scope env) rd (gr_scope g)" and "plain_scope (env_scope env) rd (gq_scope q)"
  shows "within_request q g"
proof -
  have "narrows g (gq_operationIds q) (gq_scope q)"
    unfolding narrows_def using assms(1) by (intro conjI narrowing_sound [OF _ assms(2,3)]) (auto simp: decided_grant_error_def Let_def)
  moreover have "\<exists>e. gr_expiresAt g = Some e \<and> e \<le> limit" if "truthy_text (gq_requestedExpiresAt q) = Some limit" for limit
    using assms(1) that by (cases "gr_expiresAt g") (auto simp: decided_grant_error_def Let_def truthy_text_def split: option.splits if_splits)
  ultimately show ?thesis
    using assms(1) by (auto simp: within_request_def decided_grant_error_def Let_def split: option.splits)
qed

lemma decided_grant:
  assumes "decideGrantRequest env k decision s = Inr (q', s')" and "gd_grant decision = Some g"
    and "find (\<lambda>candidate. gq_id candidate = k) (map snd (st_requests s)) = Some q" and "gq_state q = RequestPending"
  shows "decided_grant_error env (env_now env (st_reads s)) (snapshot s) q g = None \<and> ap_approve (gd_approval decision) \<and>
    ref_id (ap_approver (gd_approval decision)) \<noteq> ref_id (gq_requester q) \<and> gq_state q' = RequestApproved \<and>
    map_of (st_grants s') = (map_of (st_grants s))(gr_id g \<mapsto> g)"
  using assms by (auto simp: decideGrantRequest_def snapshot_def Let_def tick_pair frame put_lookup split: prod.splits)

section \<open>Reconciliation\<close>

lemma reconciled_grant:
  assumes "reconcile_grant env g s = Inr s'" and "keyed gr_id (st_grants s)"
  shows "keyed gr_id (st_grants s') \<and> (\<exists>g'. same_text env grant_value g' g \<and> map_of (st_grants s') = (map_of (st_grants s))(gr_id g \<mapsto> g'))
    \<and> (\<forall>g0. map_of (st_grants s) (gr_id g) = Some g0 \<longrightarrow> gr_origin g0 = ApplicationOrigin)"
proof -
  have runtime: "gr_origin g0 = ApplicationOrigin" if "map_of (st_grants s) (gr_id g) = Some g0" for g0
  proof -
    have "g0 \<in> set (map snd (st_grants s)) \<and> gr_id g0 = gr_id g"
      using that assms(2) find_keyed [OF assms(2), of "gr_id g"] find_SomeD by fastforce
    then show ?thesis
      using assms(1) by (cases "gr_origin g0") (auto simp: reconcile_grant_def Let_def snapshot_def list_ex_iff split: prod.splits)
  qed
  show ?thesis
  proof (cases "map_of (st_grants s) (gr_id g)")
    case None
    then have "st_grants s' = put_record gr_id g (st_grants s)"
      using assms find_keyed [OF assms(2), of "gr_id g"]
      by (auto simp: reconcile_grant_def Let_def snapshot_def tick_pair frame split: prod.splits)
    with None assms(2) show ?thesis by (auto simp: keyed_put put_lookup same_text_def)
  next
    case (Some g0)
    then have "st_grants s' = st_grants s \<and> same_text env grant_value g0 g \<or> st_grants s' = put_record gr_id g (st_grants s)"
      using assms find_keyed [OF assms(2), of "gr_id g"]
      by (auto simp: reconcile_grant_def Let_def snapshot_def tick_pair frame split: prod.splits if_splits)
    moreover have "map_of (st_grants s) = (map_of (st_grants s))(gr_id g \<mapsto> g0)" using Some by auto
    ultimately show ?thesis using Some runtime assms(2) by (auto simp: keyed_put put_lookup same_text_def)
  qed
qed

definition settled :: "authority_env \<Rightarrow> ApplicationGrantRecord list \<Rightarrow> authority_state \<Rightarrow> authority_state \<Rightarrow> bool" where
  "settled env gs s s' \<longleftrightarrow> keyed gr_id (st_grants s') \<and>
     (\<forall>g \<in> set gs. (\<exists>g'. same_text env grant_value g' g \<and> map_of (st_grants s') (gr_id g) = Some g') \<and>
        (\<forall>g0. map_of (st_grants s) (gr_id g) = Some g0 \<longrightarrow> gr_origin g0 = ApplicationOrigin)) \<and>
     (\<forall>k. k \<notin> gr_id ` set gs \<longrightarrow> map_of (st_grants s') k = map_of (st_grants s) k)"

lemma reconciled_grants:
  assumes "each (reconcile_grant env) gs s = Inr s'" and "keyed gr_id (st_grants s)" and "distinct (map gr_id gs)"
  shows "settled env gs s s'"
  using assms
proof (induction gs arbitrary: s)
  case (Cons h gs)
  then obtain s1 where s1: "reconcile_grant env h s = Inr s1" "each (reconcile_grant env) gs s1 = Inr s'" by (auto split: sum.splits)
  from reconciled_grant [OF s1(1) Cons.prems(2)] obtain h' where h': "keyed gr_id (st_grants s1)" "same_text env grant_value h' h"
      "map_of (st_grants s1) = (map_of (st_grants s))(gr_id h \<mapsto> h')"
      "\<forall>g0. map_of (st_grants s) (gr_id h) = Some g0 \<longrightarrow> gr_origin g0 = ApplicationOrigin" by blast
  have IH: "settled env gs s1 s'" using Cons.IH [OF s1(2) h'(1)] Cons.prems(3) by simp
  have fresh: "gr_id h \<notin> gr_id ` set gs" using Cons.prems(3) by simp
  then have "gr_id g \<noteq> gr_id h" if "g \<in> set gs" for g using that by (metis imageI)
  with IH h' fresh show ?case unfolding settled_def by simp
qed (simp add: settled_def)

lemma revoked_undeclared:
  assumes "distinct (map gr_id gs)"
  shows "map_of (st_grants (revoke_undeclared env t ids gs s)) k =
    (case find (\<lambda>g. gr_id g = k \<and> gr_origin g = ApplicationOrigin \<and> unset (gr_revokedAt g) \<and> k \<notin> set ids) gs of
       Some g \<Rightarrow> Some (g\<lparr>gr_revokedAt := Some t\<rparr>) | None \<Rightarrow> map_of (st_grants s) k)"
  using assms
proof (induction gs arbitrary: s)
  case (Cons h gs)
  have "find (\<lambda>g. gr_id g = k \<and> gr_origin g = ApplicationOrigin \<and> unset (gr_revokedAt g) \<and> k \<notin> set ids) gs = None" if "gr_id h = k"
    using Cons.prems that unfolding list.map distinct.simps list.set_map fresh_key by (auto simp: find_None_iff)
  with Cons show ?case by (auto simp: revoke_undeclared_def frame put_lookup split: option.split)
qed (simp add: revoke_undeclared_def)

lemma keyed_ids: "keyed key m \<Longrightarrow> map key (map snd m) = map fst m"
  by (auto simp: keyed_def)

lemma find_keyed_where:
  "keyed key m \<Longrightarrow> find (\<lambda>r. key r = k \<and> R r) (map snd m) = (case map_of m k of None \<Rightarrow> None | Some r \<Rightarrow> if R r then Some r else None)"
proof (induction m)
  case (Cons e m)
  obtain i r where e: "e = (i, r)" by fastforce
  with Cons.prems have "keyed key m" "key r = i" "map_of m i = None" by (auto simp: keyed_def map_of_eq_None_iff)
  with Cons.IH e show ?case by (auto split: option.split)
qed simp

lemma reconcile_keeps_grants:
  "reconcile_permission env current revision p s = Inr s' \<Longrightarrow> st_grants s' = st_grants s"
  "reconcile_role env current ids role s = Inr s' \<Longrightarrow> st_grants s' = st_grants s"
  by (auto simp: reconcile_permission_def reconcile_role_def Let_def frame split: option.splits if_splits)

text \<open>What a reconciled manifest leaves of the grants.\<close>

lemma reconcile_settles:
  assumes "reconcileApplicationAuthority env manifest s = Inr (x, s')" and "keyed gr_id (st_grants s)"
    and "distinct (map gr_id (mf_grants manifest))"
  obtains t where "\<forall>g \<in> set (mf_grants manifest). \<exists>g'. same_text env grant_value g' g \<and> map_of (st_grants s') (gr_id g) = Some g'"
    and "\<forall>k g. map_of (st_grants s) k = Some g \<longrightarrow> gr_origin g = RuntimeOrigin \<longrightarrow> map_of (st_grants s') k = Some g"
    and "\<forall>k g. map_of (st_grants s) k = Some g \<longrightarrow> k \<notin> gr_id ` set (mf_grants manifest) \<longrightarrow> gr_origin g = ApplicationOrigin \<longrightarrow>
      map_of (st_grants s') k = Some (if unset (gr_revokedAt g) then g\<lparr>gr_revokedAt := Some t\<rparr> else g)"
proof -
  obtain s1 s2 s3 t where steps:
      "each (reconcile_permission env (snapshot s) (mf_revision manifest)) (mf_permissions manifest) s = Inr s1"
      "each (reconcile_role env (snapshot s) (map pm_id (mf_permissions manifest))) (mf_roles manifest) s1 = Inr s2"
      "each (reconcile_grant env) (mf_grants manifest) s2 = Inr s3"
      "s' = revoke_undeclared env t (map gr_id (mf_grants manifest)) (sn_grants (snapshot s))
        (retire_roles t (map rl_id (mf_roles manifest)) (sn_roles (snapshot s))
          (retire_permissions t (map pm_id (mf_permissions manifest)) (sn_permissions (snapshot s)) (snd (tick env s3))))"
    using assms(1) by (auto simp: reconcileApplicationAuthority_def Let_def tick_pair split: sum.splits prod.splits)
  have "st_grants s1 = st_grants s"
    by (rule each_keeps [OF steps(1), of "\<lambda>s'. st_grants s' = st_grants s"]) (simp_all add: reconcile_keeps_grants(1))
  then have same: "st_grants s2 = st_grants s"
    by (intro each_keeps [OF steps(2), of "\<lambda>s'. st_grants s' = st_grants s"]) (simp_all add: reconcile_keeps_grants(2))
  have s3: "settled env (mf_grants manifest) s s3"
    using reconciled_grants [OF steps(3) _ assms(3)] assms(2) same by (simp add: settled_def)
  have ids: "distinct (map gr_id (map snd (st_grants s)))" using assms(2) keyed_ids [OF assms(2)] by (simp only: keyed_def)
  let ?undeclared = "\<lambda>k. k \<notin> gr_id ` set (mf_grants manifest)"
  have look: "map_of (st_grants s') k = (case map_of (st_grants s) k of
      Some g \<Rightarrow> if gr_origin g = ApplicationOrigin \<and> unset (gr_revokedAt g) \<and> ?undeclared k then Some (g\<lparr>gr_revokedAt := Some t\<rparr>)
        else map_of (st_grants s3) k
    | None \<Rightarrow> map_of (st_grants s3) k)" for k
  proof -
    note found = find_keyed_where [OF assms(2), of k "\<lambda>g. gr_origin g = ApplicationOrigin \<and> unset (gr_revokedAt g) \<and> ?undeclared k"]
    show ?thesis unfolding steps(4)
      by (simp only: snapshot_def revoked_undeclared [OF ids] grant_keys.retire_writes frame list.set_map
          ApplicationAuthoritySnapshot.select_convs found) (simp split: option.split)
  qed
  show ?thesis
  proof (rule that [of t])
    show "\<forall>g \<in> set (mf_grants manifest). \<exists>g'. same_text env grant_value g' g \<and> map_of (st_grants s') (gr_id g) = Some g'"
      using s3 by (auto simp: look settled_def split: option.split)
    show "\<forall>k g. map_of (st_grants s) k = Some g \<longrightarrow> gr_origin g = RuntimeOrigin \<longrightarrow> map_of (st_grants s') k = Some g"
    proof (intro allI impI)
      fix k g assume k: "map_of (st_grants s) k = Some g" "gr_origin g = RuntimeOrigin"
      then have "?undeclared k" using s3 by (auto simp: settled_def)
      then show "map_of (st_grants s') k = Some g" using s3 k by (simp add: look settled_def)
    qed
    show "\<forall>k g. map_of (st_grants s) k = Some g \<longrightarrow> ?undeclared k \<longrightarrow> gr_origin g = ApplicationOrigin \<longrightarrow>
        map_of (st_grants s') k = Some (if unset (gr_revokedAt g) then g\<lparr>gr_revokedAt := Some t\<rparr> else g)"
      using s3 by (auto simp: look settled_def)
  qed
qed

end
