(* ===== verification/Authority_Properties.thy ===== *)
theory Authority_Properties
  imports Authority_Derivation
begin

text \<open>
  The properties of the authority service, over every state its operations lead to from an empty
  repository: \<open>authority_after ops\<close> is the state after the operations \<open>ops\<close>, each under its own
  environment. The samples at the front of the second half are the concrete inputs of the witnesses.
\<close>

section \<open>Grants that are revoked\<close>

lemma receipt_denied:
  assumes "find (\<lambda>candidate. gr_id candidate = k) (sn_grants state) = Some g" and "\<not> unset (gr_revokedAt g)" and "k \<in> set ids"
  shows "receipt_grants_denial env now receiptId boundary state ids \<noteq> None"
  using assms(3)
proof (induction ids)
  case (Cons i ids)
  then show ?case using assms(1,2) by (cases "i = k") (auto split: option.split)
qed simp

lemma revoked_receipt_denied:
  assumes "stored_with k (\<lambda>g. \<not> unset (gr_revokedAt g)) (st_grants s)" and "k \<in> set (rc_matchedGrantIds receipt)"
    and "find (\<lambda>candidate. od_id candidate = rc_operationId receipt \<and> od_version candidate = rc_operationVersion receipt)
      (oc_operations catalog) = Some operation"
    and "boundary \<in> set (oa_checks (od_authority operation))"
  shows "\<exists>code message. fst (revalidateReceipt env receipt catalog boundary digest s) = Denied code message"
proof -
  obtain g where g: "keyed gr_id (st_grants s)" "map_of (st_grants s) k = Some g" "\<not> unset (gr_revokedAt g)"
    using assms(1) by (auto simp: stored_with_def)
  then have "find (\<lambda>candidate. gr_id candidate = k) (sn_grants (snapshot s)) = Some g"
    by (simp add: snapshot_def find_keyed)
  note denied = receipt_denied [OF this g(3) assms(2)]
  obtain now s1 where tick: "tick env s = (now, s1)" "snapshot s1 = snapshot s"
    using snapshot_frame(1) [of env s] by (metis prod.collapse)
  obtain code message where "receipt_grants_denial env now (rc_id receipt) (boundary_text boundary) (snapshot s)
      (rc_matchedGrantIds receipt) = Some (code, message)"
    using denied [of env now "rc_id receipt" "boundary_text boundary"] by auto
  with tick show ?thesis
    using assms(3,4) by (auto simp: revalidateReceipt_def Let_def)
qed

lemma revoked_grant_unmatched:
  assumes "stored_with k (\<lambda>g. \<not> unset (gr_revokedAt g)) (st_grants s)" and "allowed_with env request s receipt reservation"
  shows "k \<notin> set (rc_matchedGrantIds receipt)"
proof
  assume "k \<in> set (rc_matchedGrantIds receipt)"
  then obtain g where "live_grant env (env_now env (st_reads s)) request (snapshot s) = Some g" "gr_id g = k"
    using assms(2) by (auto simp: allowed_with_def Let_def grant_receipt_def split: option.splits)
  then show False
    using live_grant_stored revoked_grant.stored_fact [OF assms(1)] by blast
qed

section \<open>Leases\<close>

fun bootstraps :: "authority_op \<Rightarrow> string option" where
  "bootstraps (Bootstrap b admitted) = Some (sb_roleId b)"
| "bootstraps (BootstrapRole b) = Some (sb_roleId b)"
| "bootstraps _ = None"

abbreviation lease :: "string \<Rightarrow> ApplicationIdentityReference \<Rightarrow> ApplicationGrantRecord \<Rightarrow> bool" where
  "lease role identity g \<equiv> gr_lifecycleOwner g = Some (applicationRoleBootstrapOwner role) \<and> gr_identity g = identity"

lemma lease_kept_by_perform:
  assumes "stored_with k (lease role identity) (st_grants s)" and "\<not> writes_id op k \<or> bootstraps op = Some role"
  shows "stored_with k (lease role identity) (st_grants (perform_op env op s))"
proof (cases "bootstraps op = Some role")
  case True
  note keeps = transaction_keeps [where P = "\<lambda>s'. st_grants s' = st_grants s"]
  have "st_grants (perform_op env op s) = st_grants s"
    using True assms(1) by (cases op) (auto intro!: keeps simp: bootstrapRole_def dest: bootstrap_again [rotated])
  with assms(1) show ?thesis by simp
qed (use assms leased_grant.kept_by_perform in blast)

lemma lease_kept:
  assumes "stored_with k (lease role identity) (st_grants s)" and "\<forall>(env, op) \<in> set ops. \<not> writes_id op k \<or> bootstraps op = Some role"
  shows "stored_with k (lease role identity) (st_grants (run ops s))"
  using assms by (induction ops arbitrary: s) (auto simp: lease_kept_by_perform)

lemma initial_keyed:
  "keyed gr_id (st_grants (run ops InMemoryApplicationAuthorityRepository))"
  "keyed rs_id (st_reservations (run ops InMemoryApplicationAuthorityRepository))"
  by (rule grants_keyed reservations_keyed, simp_all add: InMemoryApplicationAuthorityRepository_def)+

section \<open>Samples\<close>

definition sample_authority :: authority_env where
  "sample_authority = \<lparr>env_scope = sample_env, env_now = (\<lambda>n. 1000 + int n), env_id = (\<lambda>n. ''id'' @ nat_to_string n),
     env_date = (\<lambda>t. if t = ''early'' then Some 0 else if t = ''late'' then Some 90000 else None), env_iso = (\<lambda>_. ''now'')\<rparr>"

definition person :: "string \<Rightarrow> ApplicationIdentityReference" where
  "person k = \<lparr>ref_id = k, ref_kind = ''user'', ref_issuer = ''issuer'', ref_subject = k\<rparr>"

definition edit_permission :: ApplicationPermissionRecord where
  "edit_permission = \<lparr>pm_id = ''edit'', pm_name = ''Edit'', pm_origin = ApplicationOrigin, pm_manifestRevision = Some ''m1'',
     pm_catalogRevision = ''c1'', pm_operationIds = [''post.update''], pm_scope = ScopeAudience ''w'', pm_transports = None,
     pm_audiences = None, pm_grantable = True, pm_lifecycleOwner = None, pm_createdAt = ''now'', pm_retiredAt = None\<rparr>"

definition editor_role :: ApplicationRoleRecord where
  "editor_role = \<lparr>rl_id = ''editor'', rl_name = ''Editor'', rl_origin = ApplicationOrigin, rl_permissionIds = [''edit''],
     rl_lifecycleOwner = None, rl_createdAt = ''now'', rl_retiredAt = None\<rparr>"

definition edit_grant :: "string \<Rightarrow> string \<Rightarrow> ApplicationGrantRecord" where
  "edit_grant k holder = \<lparr>gr_id = k, gr_origin = ApplicationOrigin, gr_identity = person holder, gr_permissionId = Some ''edit'',
     gr_operationIds = [''post.update''], gr_scope = ScopeAudience ''w'', gr_audiences = None, gr_transports = None,
     gr_issuedBy = person ''root'', gr_canGrant = None, gr_delegationId = None, gr_lifecycleOwner = None, gr_reason = None,
     gr_maximumUses = None, gr_expiresAt = None, gr_outcomeId = None, gr_catalogRevision = ''c1'', gr_authorityRevision = ''1'',
     gr_createdAt = ''now'', gr_revokedAt = None\<rparr>"

definition edit_manifest :: ApplicationAuthorityManifest where
  "edit_manifest = \<lparr>mf_revision = ''m1'', mf_permissions = [edit_permission], mf_roles = [editor_role],
     mf_grants = [(edit_grant ''lead'' ''ann'')\<lparr>gr_canGrant := Some True\<rparr>, (edit_grant ''once'' ''bob'')\<lparr>gr_maximumUses := Some (NInt 1)\<rparr>]\<rparr>"

abbreviation authority_after :: "(authority_env \<times> authority_op) list \<Rightarrow> authority_state" where
  "authority_after ops \<equiv> run ops InMemoryApplicationAuthorityRepository"

definition declared :: "(authority_env \<times> authority_op) list" where
  "declared = [(sample_authority, Reconcile edit_manifest)]"

definition edit_operation :: ApplicationOperationDescriptor where
  "edit_operation = \<lparr>od_id = ''post.update'', od_version = ''1'', od_name = ''update'', od_kind = ''command'', od_input = ''{}'',
     od_output = ''{}'', od_target = Some ''Post'', od_authority = \<lparr>oa_classification = RuntimeGrantable, oa_grantable = True, oa_delegable = True,
       oa_checks = [Admission, Execution], oa_defaultScope = ScopeAll, oa_audiences = None, oa_transports = None\<rparr>, od_replaces = None\<rparr>"

definition edit_catalog :: ApplicationOperationCatalog where
  "edit_catalog = \<lparr>oc_application = ''app'', oc_revision = ''c1'', oc_digest = ''d'', oc_state = Active, oc_operations = [edit_operation],
     oc_predecessor = None, oc_stagedAt = None, oc_activatedAt = None, oc_drainingAt = None, oc_retiredAt = None\<rparr>"

definition edit_request :: "string \<Rightarrow> ApplicationAuthorizationRequest" where
  "edit_request who = \<lparr>ar_application = ''app'', ar_catalog = edit_catalog, ar_operation = edit_operation,
     ar_principal = \<lparr>pn_id = who, pn_identity = person who, pn_authenticationMethod = ''oidc'', pn_audience = [''web''], pn_roles = None,
       pn_attributes = None, pn_trustedContextDigest = ''t'', pn_catalogRevision = ''c1'', pn_authorityRevision = ''1'',
       pn_admittedAt = ''now'', pn_expiresAt = None\<rparr>,
     ar_target = ScopeAll, ar_scopeEvidence = None, ar_audience = ''web'', ar_transport = Http, ar_inputDigest = ''i'',
     ar_trustedContextDigest = ''t'', ar_idempotencyKey = Some ''k'', ar_commandId = Some ''c'', ar_targetDigest = Some ''p1'',
     ar_applicationPolicyAllowed = None\<rparr>"

lemma declared_state:
  "map fst (st_grants (authority_after declared)) = [''lead'', ''once''] \<and>
   map_of (st_grants (authority_after declared)) ''lead'' = Some ((edit_grant ''lead'' ''ann'')\<lparr>gr_canGrant := Some True\<rparr>) \<and>
   map_of (st_grants (authority_after declared)) ''once'' = Some ((edit_grant ''once'' ''bob'')\<lparr>gr_maximumUses := Some (NInt 1)\<rparr>) \<and>
   st_permissions (authority_after declared) = [(''edit'', edit_permission)] \<and> st_reservations (authority_after declared) = [] \<and>
   st_delegations (authority_after declared) = [] \<and> st_requests (authority_after declared) = []"
  by code_simp

section \<open>Properties\<close>

text \<open>
  C7: A request is allowed only by authority that is live when it is decided. The catalog is active or
  draining and has the operation, the operation is classified, the principal was admitted for the
  audience and in the trusted context, and audience and transport are ones the operation admits; an
  operation left to the application's policy was allowed by it. An operation that needs a grant got
  one: the receipt names a stored grant of the principal's identity, neither revoked nor expired, for
  this catalog revision, operation, audience and transport, or a permission of a role the principal
  has, of which neither is retired.
\<close>

theorem authorize_allows_only_live_authority:
  assumes "authorize env request s = Inr (Allowed receipt reservation, s')"
  shows "oc_state (ar_catalog request) \<in> {Active, Draining} \<and>
    od_id (ar_operation request) \<in> set (map od_id (oc_operations (ar_catalog request))) \<and>
    pn_catalogRevision (ar_principal request) = oc_revision (ar_catalog request) \<and>
    oa_classification (od_authority (ar_operation request)) \<noteq> Unclassified \<and>
    pn_trustedContextDigest (ar_principal request) = ar_trustedContextDigest request \<and>
    ar_audience request \<in> set (pn_audience (ar_principal request)) \<and>
    permits (oa_audiences (od_authority (ar_operation request))) (ar_audience request) \<and>
    permits (oa_transports (od_authority (ar_operation request))) (ar_transport request) \<and>
    (oa_classification (od_authority (ar_operation request)) = ApplicationPolicy \<longrightarrow> ar_applicationPolicyAllowed request = Some True) \<and>
    (needs_grant request \<longrightarrow>
      (\<exists>g \<in> set (map snd (st_grants s)). rc_matchedGrantIds receipt = [gr_id g] \<and> covers request g \<and> unset (gr_revokedAt g) \<and>
         \<not> isExpired env (gr_expiresAt g) (env_now env (st_reads s))) \<or>
      (\<exists>p \<in> set (map snd (st_permissions s)). \<exists>role \<in> set (map snd (st_roles s)). rc_matchedGrantIds receipt = [] \<and>
         pm_id p \<in> set (rc_matchedPermissionIds receipt) \<and> role_covers request role p)) \<and>
    rc_operationId receipt = od_id (ar_operation request) \<and> rc_principal receipt = ar_principal request \<and>
    rc_inputDigest receipt = ar_inputDigest request"
proof -
  note allowed = allowed_facts [OF assms]
  then have "admission_denial request = None" by (simp add: allowed_with_def Let_def)
  note admitted = admission_facts [OF this]
  have "rc_operationId receipt = od_id (ar_operation request) \<and> rc_principal receipt = ar_principal request \<and>
      rc_inputDigest receipt = ar_inputDigest request"
    using allowed by (auto simp: allowed_with_def Let_def grant_receipt_def)
  moreover have "od_id (ar_operation request) \<in> set (map od_id (oc_operations (ar_catalog request)))"
    using admitted(2) by (metis image_eqI list.set_map)
  ultimately show ?thesis
    using admitted(1,3-9) allowed_authority [OF allowed] by blast
qed

lemma sample_allowed:
  "case authorize sample_authority (edit_request ''bob'') (authority_after declared) of
     Inr (Allowed r (Some _), s) \<Rightarrow> rc_matchedGrantIds r = [''once''] | _ \<Rightarrow> False"
  by code_simp

theorem authorize_allows_only_live_authority_witness:
  "\<exists>receipt reservation s'. authorize sample_authority (edit_request ''bob'') (authority_after declared) =
       Inr (Allowed receipt reservation, s') \<and> rc_matchedGrantIds receipt = [''once''] \<and>
     (\<exists>g. gr_id g = ''once'' \<and> covers (edit_request ''bob'') g \<and> unset (gr_revokedAt g))"
proof -
  obtain receipt r s' where ok: "authorize sample_authority (edit_request ''bob'') (authority_after declared) = Inr (Allowed receipt (Some r), s')"
      "rc_matchedGrantIds receipt = [''once'']"
    using sample_allowed by (auto split: sum.splits prod.splits ApplicationAuthorizationResult.splits option.splits)
  have "needs_grant (edit_request ''bob'')" by (simp add: needs_grant_def edit_request_def edit_operation_def)
  with authorize_allows_only_live_authority [OF ok(1)] ok(2)
  have "\<exists>g. gr_id g = ''once'' \<and> covers (edit_request ''bob'') g \<and> unset (gr_revokedAt g)" by auto
  with ok show ?thesis by blast
qed

text \<open>
  C8: A bounded grant is never used more often than it allows. From any state in which the grant has
  its bound and no more live uses than it, whatever operations follow, in any order, as long as none
  rewrites the grant itself, its live reservations stay within the bound. (A retry with the idempotency
  key, operation and target of an earlier request is the same use.)
\<close>

theorem bounded_grant_use:
  assumes "map_of (st_grants (authority_after earlier)) k = Some g" and "gr_maximumUses g = Some (NInt n)"
    and "int (uses (authority_after earlier) k) \<le> n" and "\<forall>(env, op) \<in> set later. \<not> writes_id op k"
  shows "int (uses (authority_after (earlier @ later)) k) \<le> n"
proof -
  have "authority_after (earlier @ later) = run later (authority_after earlier)" by (simp add: run_def)
  then show ?thesis
    using run_uses [of "authority_after earlier" k n later] initial_keyed [of earlier] assms by (simp add: stored_with_def)
qed

theorem bounded_grant_use_witness:
  "int (uses (authority_after (declared @ [(sample_authority, Authorize (edit_request ''bob'')),
     (sample_authority, Authorize ((edit_request ''bob'')\<lparr>ar_idempotencyKey := Some ''again''\<rparr>))])) ''once'') \<le> 1"
  by (rule bounded_grant_use) (use declared_state in \<open>auto simp: uses_def\<close>)

text \<open>
  C10: Runtime grants derive. A runtime grant that is assigned was issued by someone else than its
  holder, names a grantable permission that is not retired, and its issuer holds a live grant of that
  permission with the right to grant; the new grant has no operation that the permission or the
  issuer's grant lacks, and its scope implies both of theirs under every reading of the atoms. It is
  the only grant that changes.
\<close>

theorem assigned_grant_derives:
  assumes "assignGrant env g s = Inr (x, s')" and "gr_origin g = RuntimeOrigin" and "gr_id g \<notin> gr_id ` set (map snd (st_grants s))"
    and "plain_authority env rd s" and "plain_scope (env_scope env) rd (gr_scope g)"
  shows "ref_id (gr_identity g) \<noteq> ref_id (gr_issuedBy g) \<and>
    (\<exists>p \<in> set (map snd (st_permissions s)). \<exists>ig \<in> set (map snd (st_grants s)). derives env (env_now env (st_reads s)) g p ig) \<and>
    map_of (st_grants s') = (map_of (st_grants s))(gr_id g \<mapsto> g)"
proof -
  have assigned: "validateGrant env (env_now env (st_reads s)) g (snapshot s) True = None"
      "map_of (st_grants s') = (map_of (st_grants s))(gr_id g \<mapsto> g)"
    using assigned_grant [OF assms(1,3)] assms(2) by simp_all
  from validated_shape [OF this(1) assms(2)] validated_grant_derives [OF this(1) assms(4,5)] this(2) show ?thesis by blast
qed

definition runtime_grant :: ApplicationGrantRecord where
  "runtime_grant = (edit_grant ''new'' ''cat'')\<lparr>gr_origin := RuntimeOrigin, gr_issuedBy := person ''ann'', gr_expiresAt := Some ''late''\<rparr>"

lemma sample_assigned:
  "case assignGrant sample_authority runtime_grant (authority_after declared) of Inr r \<Rightarrow> True | _ \<Rightarrow> False"
  by code_simp

lemma declared_grants:
  "st_grants (authority_after declared) =
     [(''lead'', (edit_grant ''lead'' ''ann'')\<lparr>gr_canGrant := Some True\<rparr>), (''once'', (edit_grant ''once'' ''bob'')\<lparr>gr_maximumUses := Some (NInt 1)\<rparr>)]"
proof -
  obtain a b where "st_grants (authority_after declared) = [(''lead'', a), (''once'', b)]"
    using declared_state by (auto simp: map_eq_Cons_conv)
  with declared_state show ?thesis by simp
qed

lemma plain_audience: "plain_scope sample_env rd (ScopeAudience a)"
  by (simp add: plain_scope_def sample_scopes)

lemma declared_plain: "plain_authority sample_authority rd (authority_after declared)"
  using declared_state
  by (simp add: plain_authority_def declared_grants edit_permission_def edit_grant_def sample_authority_def plain_audience)

theorem assigned_grant_derives_witness:
  "\<exists>x s'. assignGrant sample_authority runtime_grant (authority_after declared) = Inr (x, s') \<and>
     (\<exists>p ig. derives sample_authority (env_now sample_authority (st_reads (authority_after declared))) runtime_grant p ig) \<and>
     map_of (st_grants s') ''new'' = Some runtime_grant"
proof -
  obtain x s' where ok: "assignGrant sample_authority runtime_grant (authority_after declared) = Inr (x, s')"
    using sample_assigned by (auto split: sum.splits)
  have "gr_id runtime_grant = ''new''" "gr_origin runtime_grant = RuntimeOrigin"
      "plain_scope (env_scope sample_authority) rd (gr_scope runtime_grant)" for rd
    by (simp_all add: runtime_grant_def edit_grant_def sample_authority_def plain_audience)
  moreover have "''new'' \<notin> gr_id ` set (map snd (st_grants (authority_after declared)))"
    by (simp add: declared_grants edit_grant_def)
  ultimately show ?thesis using assigned_grant_derives [OF ok _ _ declared_plain] ok by auto
qed

text \<open>
  C11: Approvals stay within the request. A decision that materializes a grant for a pending request is
  an approval by someone else than the requester; the grant goes to the requester, within the
  operations and the scope, the uses and the expiry that were asked for and with the required outcome,
  and it derives from its issuer's authority as any runtime grant does.
\<close>

theorem approved_grant_within_request:
  assumes "decideGrantRequest env k decision s = Inr (q', s')" and "gd_grant decision = Some g"
    and "find (\<lambda>candidate. gq_id candidate = k) (map snd (st_requests s)) = Some q" and "gq_state q = RequestPending"
    and "plain_authority env rd s" and "plain_scope (env_scope env) rd (gr_scope g)"
  shows "ap_approve (gd_approval decision) \<and> ref_id (ap_approver (gd_approval decision)) \<noteq> ref_id (gq_requester q) \<and>
    gq_state q' = RequestApproved \<and> within_request q g \<and>
    (\<exists>p \<in> set (map snd (st_permissions s)). \<exists>ig \<in> set (map snd (st_grants s)). derives env (env_now env (st_reads s)) g p ig) \<and>
    map_of (st_grants s') = (map_of (st_grants s))(gr_id g \<mapsto> g)"
proof -
  note decided = decided_grant [OF assms(1-4)]
  have "q \<in> set (map snd (st_requests s))" using find_SomeD [OF assms(3)] by simp
  then have "plain_scope (env_scope env) rd (gq_scope q)" using assms(5) unfolding plain_authority_def by blast
  with decided have "within_request q g" using decided_within_request assms(6) by blast
  moreover have "validateGrant env (env_now env (st_reads s)) g (snapshot s) True = None"
    using decided by (simp add: decided_grant_error_def Let_def)
  ultimately show ?thesis using decided validated_grant_derives [OF _ assms(5,6)] by blast
qed

definition edit_ask :: ApplicationGrantRequestRecord where
  "edit_ask = \<lparr>gq_id = ''q'', gq_requester = person ''cat'', gq_operationIds = [''post.update''], gq_scope = ScopeAudience ''w'',
     gq_audiences = None, gq_transports = None, gq_reason = ''work'', gq_evidence = None, gq_requestedExpiresAt = Some ''late'',
     gq_requestedMaximumUses = Some (NInt 3), gq_requiredOutcomeId = None, gq_approvalPolicyId = ''policy'', gq_state = RequestPending,
     gq_createdAt = ''now'', gq_decidedAt = None\<rparr>"

definition edit_approval :: ApplicationGrantDecision where
  "edit_approval = \<lparr>gd_approval = \<lparr>ap_id = ''a'', ap_requestId = ''q'', ap_approver = person ''eve'', ap_approve = True, ap_reason = None,
       ap_evidence = None, ap_decidedAt = ''now''\<rparr>,
     gd_grant = Some (runtime_grant\<lparr>gr_maximumUses := Some (NInt 2)\<rparr>)\<rparr>"

definition asked :: "(authority_env \<times> authority_op) list" where
  "asked = declared @ [(sample_authority, RequestGrant edit_ask)]"

lemma asked_evaluated:
  "st_requests (authority_after asked) = [(''q'', edit_ask)] \<and> st_grants (authority_after asked) = st_grants (authority_after declared) \<and>
   st_permissions (authority_after asked) = [(''edit'', edit_permission)] \<and> st_delegations (authority_after asked) = []"
  by code_simp

lemmas asked_state = asked_evaluated [THEN conjunct1] asked_evaluated [THEN conjunct2, THEN conjunct1]
  asked_evaluated [THEN conjunct2, THEN conjunct2, THEN conjunct1] asked_evaluated [THEN conjunct2, THEN conjunct2, THEN conjunct2]

lemma sample_approved:
  "case decideGrantRequest sample_authority ''q'' edit_approval (authority_after asked) of Inr r \<Rightarrow> True | _ \<Rightarrow> False"
  by code_simp

theorem approved_grant_within_request_witness:
  "\<exists>q' s'. decideGrantRequest sample_authority ''q'' edit_approval (authority_after asked) = Inr (q', s') \<and>
     gq_state q' = RequestApproved \<and> within_request edit_ask (runtime_grant\<lparr>gr_maximumUses := Some (NInt 2)\<rparr>)"
proof -
  obtain q' s' where ok: "decideGrantRequest sample_authority ''q'' edit_approval (authority_after asked) = Inr (q', s')"
    using sample_approved by (auto split: sum.splits)
  have "plain_authority sample_authority rd (authority_after asked)" for rd
    using declared_plain [of rd] by (simp add: plain_authority_def asked_state edit_ask_def edit_permission_def sample_authority_def plain_audience)
  then show ?thesis
    using approved_grant_within_request [OF ok, of "runtime_grant\<lparr>gr_maximumUses := Some (NInt 2)\<rparr>" edit_ask] ok
    by (simp add: edit_approval_def asked_state edit_ask_def runtime_grant_def edit_grant_def sample_authority_def plain_audience)
qed

text \<open>
  C9: Revocation is final. Once a grant is revoked, and whatever operations follow that do not name the
  grant's own id as a new grant, no authorization rests on it, and a receipt that rests on it is
  denied at every boundary its operation declares a check for.
\<close>

theorem revoked_grant_stays_dead:
  assumes "map_of (st_grants (authority_after earlier)) k = Some g" and "\<not> unset (gr_revokedAt g)"
    and "\<forall>(env, op) \<in> set later. \<not> writes_id op k"
  shows "(authorize env request (authority_after (earlier @ later)) = Inr (Allowed receipt reservation, s') \<longrightarrow>
      k \<notin> set (rc_matchedGrantIds receipt)) \<and>
    (k \<in> set (rc_matchedGrantIds held) \<and>
     find (\<lambda>candidate. od_id candidate = rc_operationId held \<and> od_version candidate = rc_operationVersion held)
       (oc_operations catalog) = Some operation \<and> boundary \<in> set (oa_checks (od_authority operation)) \<longrightarrow>
      (\<exists>code message. fst (revalidateReceipt env held catalog boundary digest (authority_after (earlier @ later))) = Denied code message))"
proof -
  have "authority_after (earlier @ later) = run later (authority_after earlier)" by (simp add: run_def)
  then have dead: "stored_with k (\<lambda>g. \<not> unset (gr_revokedAt g)) (st_grants (authority_after (earlier @ later)))"
    using revoked_grant.kept_by_run [of k "authority_after earlier" later] initial_keyed [of earlier] assms
    by (simp add: stored_with_def)
  show ?thesis using revoked_grant_unmatched [OF dead allowed_facts] revoked_receipt_denied [OF dead] by blast
qed

definition left :: "(authority_env \<times> authority_op) list" where
  "left = declared @ [(sample_authority, RevokeGrant ''once'' ''left'')]"

lemma left_state:
  "case map_of (st_grants (authority_after left)) ''once'' of Some g \<Rightarrow> \<not> unset (gr_revokedAt g) | None \<Rightarrow> False"
  by code_simp

definition held_receipt :: ApplicationAuthorizationReceipt where
  "held_receipt = grant_receipt sample_authority 0 (edit_request ''bob'') (Some (edit_grant ''once'' ''bob'')) None None ''r''"

theorem revoked_grant_stays_dead_witness:
  "\<exists>code message. fst (revalidateReceipt sample_authority held_receipt edit_catalog Execution ''t''
     (authority_after (left @ [(sample_authority, Authorize (edit_request ''bob''))]))) = Denied code message"
proof -
  obtain g where g: "map_of (st_grants (authority_after left)) ''once'' = Some g" "\<not> unset (gr_revokedAt g)"
    using left_state by (auto split: option.splits)
  have "find (\<lambda>candidate. od_id candidate = rc_operationId held_receipt \<and> od_version candidate = rc_operationVersion held_receipt)
      (oc_operations edit_catalog) = Some edit_operation" "Execution \<in> set (oa_checks (od_authority edit_operation))"
      "''once'' \<in> set (rc_matchedGrantIds held_receipt)"
    by (simp_all add: held_receipt_def grant_receipt_def edit_catalog_def edit_request_def edit_grant_def edit_operation_def)
  then show ?thesis
    using revoked_grant_stays_dead [OF g, of "[(sample_authority, Authorize (edit_request ''bob''))]"] by fastforce
qed

text \<open>
  C34: A declared role is bootstrapped once. After the first bootstrap of a role gave its identity a
  lease, and whatever operations follow that do not overwrite that grant, further bootstraps of the role
  among them, a bootstrap of the role writes no grant, and it returns none to another identity, even
  after the lease was revoked or expired.
\<close>

theorem role_bootstrapped_once:
  assumes "map_of (st_grants (authority_after earlier)) k = Some g"
    and "gr_lifecycleOwner g = Some (applicationRoleBootstrapOwner (sb_roleId b))"
    and "\<forall>(env, op) \<in> set later. \<not> writes_id op k \<or> bootstraps op = Some (sb_roleId b)"
    and "bootstrapDeclaredRole env b admitted (authority_after (earlier @ later)) = Inr (gs, s')"
  shows "st_grants s' = st_grants (authority_after (earlier @ later)) \<and> (\<not> sameIdentity (gr_identity g) admitted \<longrightarrow> gs = [])"
proof -
  have "authority_after (earlier @ later) = run later (authority_after earlier)" by (simp add: run_def)
  then have "stored_with k (lease (sb_roleId b) (gr_identity g)) (st_grants (authority_after (earlier @ later)))"
    using lease_kept [of k "sb_roleId b" "gr_identity g" "authority_after earlier" later] initial_keyed [of earlier] assms(1-3)
    by (simp add: stored_with_def)
  then show ?thesis using bootstrap_again assms(4) by blast
qed

definition editor_bootstrap :: "string \<Rightarrow> ApplicationStaticRoleBootstrapDefinition" where
  "editor_bootstrap who = \<lparr>sb_id = ''boot'', sb_roleId = ''editor'', sb_identity = person who, sb_issuedBy = person ''root'',
     sb_reason = ''first''\<rparr>"

definition bootstrapped :: "(authority_env \<times> authority_op) list" where
  "bootstrapped = declared @ [(sample_authority, Bootstrap (editor_bootstrap ''dan'') (person ''dan''))]"

definition revoked_lease :: "(authority_env \<times> authority_op) list" where
  "revoked_lease = [(sample_authority, RevokeGrant ''boot:edit'' ''left''), (sample_authority, Bootstrap (editor_bootstrap ''dan'') (person ''dan''))]"

lemma bootstrapped_state:
  "case map_of (st_grants (authority_after bootstrapped)) ''boot:edit'' of None \<Rightarrow> False
   | Some g \<Rightarrow> gr_lifecycleOwner g = Some (applicationRoleBootstrapOwner ''editor'') \<and> gr_identity g = person ''dan''"
  by code_simp

lemma sample_bootstrap:
  "case bootstrapDeclaredRole sample_authority (editor_bootstrap ''eve'') (person ''eve'') (authority_after (bootstrapped @ revoked_lease)) of
     Inr r \<Rightarrow> True | _ \<Rightarrow> False"
  by code_simp

theorem role_bootstrapped_once_witness:
  "\<exists>s'. bootstrapDeclaredRole sample_authority (editor_bootstrap ''eve'') (person ''eve'') (authority_after (bootstrapped @ revoked_lease)) =
     Inr ([], s') \<and> st_grants s' = st_grants (authority_after (bootstrapped @ revoked_lease))"
proof -
  obtain gs s' where ok: "bootstrapDeclaredRole sample_authority (editor_bootstrap ''eve'') (person ''eve'')
      (authority_after (bootstrapped @ revoked_lease)) = Inr (gs, s')"
    using sample_bootstrap by (auto split: sum.splits)
  obtain g where g: "map_of (st_grants (authority_after bootstrapped)) ''boot:edit'' = Some g"
      "gr_lifecycleOwner g = Some (applicationRoleBootstrapOwner ''editor'')" "gr_identity g = person ''dan''"
    using bootstrapped_state by (auto split: option.splits)
  have "\<not> sameIdentity (person ''dan'') (person ''eve'')" by (simp add: sameIdentity_def person_def)
  with role_bootstrapped_once [OF g(1) _ _ ok] g(2,3) ok show ?thesis
    by (auto simp: editor_bootstrap_def revoked_lease_def)
qed





text \<open>
  C36: Teardown is safe. When the check before the teardown of an application passes, every revocation
  tombstone of the application was transferred by break-glass, or each of its obligations is neutralized
  or has a guaranteed expiry: nothing but observations of the obligations makes a tombstone proven.
\<close>

theorem teardown_only_after_neutralization:
  assumes "assertAuthorityTeardownSafe application (authority_after ops) = None"
    and "tombstone \<in> set (map snd (st_tombstones (authority_after ops)))" and "tb_application tombstone = application"
  shows "\<not> unset (tb_transferredByBreakGlassAt tombstone) \<or> list_all obligation_complete (tb_obligations tombstone)"
proof -
  have "tombstones_ok (authority_after ops)"
    by (rule run_tombstones_ok) (simp add: tombstones_ok_def InMemoryApplicationAuthorityRepository_def)
  then have "tombstone_ok tombstone" using assms(2) unfolding tombstones_ok_def by blast
  moreover have "\<not> unset (tb_provenAt tombstone) \<or> \<not> unset (tb_transferredByBreakGlassAt tombstone)"
    using assms by (auto simp: assertAuthorityTeardownSafe_def Let_def snapshot_def filter_empty_conv)
  ultimately show ?thesis by (auto simp: tombstone_ok_def)
qed

definition token_tombstone :: ApplicationRevocationTombstone where
  "token_tombstone = \<lparr>tb_id = ''t'', tb_application = ''app'', tb_authorityRevision = ''1'', tb_identityIds = [''bob''],
     tb_operationIds = [''post.update''], tb_scope = ScopeAll,
     tb_obligations = [\<lparr>ob_projection = ''oauth'', ob_kind = ''token'', ob_state = ObligationPending, ob_providerRevision = None,
       ob_observedAt = None, ob_guaranteedExpiryAt = None, ob_diagnostic = None\<rparr>],
     tb_createdAt = ''now'', tb_provenAt = None, tb_transferredByBreakGlassAt = None, tb_auditProvenance = []\<rparr>"

definition neutralized :: "(authority_env \<times> authority_op) list" where
  "neutralized = [(sample_authority, CreateTombstone token_tombstone), (sample_authority, Observe ''t'' ''oauth''
     \<lparr>oo_state = Neutralized, oo_providerRevision = None, oo_observedAt = ''now'', oo_guaranteedExpiryAt = None, oo_diagnostic = None\<rparr>)]"

lemma neutralized_state:
  "assertAuthorityTeardownSafe ''app'' (authority_after neutralized) = None"
  "map (\<lambda>(k, t). (k, tb_application t, unset (tb_transferredByBreakGlassAt t))) (st_tombstones (authority_after neutralized)) =
     [(''t'', ''app'', True)]"
  by code_simp+

theorem teardown_only_after_neutralization_witness:
  "\<exists>tombstone. snd ` set (st_tombstones (authority_after neutralized)) = {tombstone} \<and>
     list_all obligation_complete (tb_obligations tombstone)"
proof -
  obtain t where t: "st_tombstones (authority_after neutralized) = [(''t'', t)]" "tb_application t = ''app''"
      "unset (tb_transferredByBreakGlassAt t)"
    using neutralized_state(2) by (auto simp: map_eq_Cons_conv)
  then show ?thesis using teardown_only_after_neutralization [OF neutralized_state(1), of t] by simp
qed

end
