(* ===== verification/Authority_Findings.thy ===== *)
theory Authority_Findings
  imports Authority_Properties
begin

text \<open>
  Places where the authority service does not do what its design document,
  \<^verbatim>\<open>docs/rfp-v07-operation-authority.md\<close>, asks of it: each is a run of the model on concrete records.
\<close>

text \<open>A grant of one exact target allows a request for another: the two targets intersect to no \<open>none\<close>.\<close>

definition second_post :: ApplicationScopeExpression where
  "second_post = ScopeTarget ''Post'' [(''id'', ScalarNumber (NInt 2))]"

lemma other_target_allowed:
  "case authorize sample_authority ((edit_request ''bob'')\<lparr>ar_target := first_post\<rparr>)
      (putGrant ((edit_grant ''g'' ''bob'')\<lparr>gr_scope := second_post\<rparr>) InMemoryApplicationAuthorityRepository) of
     Inr (Allowed r _, s) \<Rightarrow> rc_matchedGrantIds r = [''g''] | _ \<Rightarrow> False"
  by code_simp

text \<open>A runtime grant without transports, audiences and expiry passes the bounds of an issuer that has them.\<close>

definition narrow_lead :: ApplicationGrantRecord where
  "narrow_lead = (edit_grant ''lead'' ''ann'')\<lparr>gr_canGrant := Some True, gr_audiences := Some [''web''], gr_transports := Some [Http],
     gr_expiresAt := Some ''late''\<rparr>"

lemma issuer_bounds_escaped:
  "case assignGrant sample_authority (runtime_grant\<lparr>gr_expiresAt := None\<rparr>)
      (putGrant narrow_lead (putPermission edit_permission InMemoryApplicationAuthorityRepository)) of
     Inr (g, s) \<Rightarrow> gr_audiences g = None \<and> gr_transports g = None \<and> gr_expiresAt g = None | _ \<Rightarrow> False"
  by code_simp

text \<open>Reconciling the same manifest again brings back a grant that was explicitly revoked.\<close>

lemma reconciliation_revives_revoked_grant:
  "case map_of (st_grants (authority_after (left @ [(sample_authority, Reconcile edit_manifest)]))) ''once'' of
     Some g \<Rightarrow> unset (gr_revokedAt g) | None \<Rightarrow> False"
  by code_simp

text \<open>An approval whose grant carries the id of a stored grant of somebody else overwrites that grant.\<close>

lemma approval_overwrites_foreign_grant:
  "case decideGrantRequest sample_authority ''q'' (edit_approval\<lparr>gd_grant := Some (runtime_grant\<lparr>gr_id := ''once'', gr_maximumUses := Some (NInt 2)\<rparr>)\<rparr>)
      (authority_after asked) of
     Inr (q, s) \<Rightarrow> map_option (ref_id \<circ> gr_identity) (map_of (st_grants s) ''once'') = Some ''cat'' | _ \<Rightarrow> False"
  by code_simp

text \<open>
  One more grant takes authority away: only the first live grant is tried, so an exhausted grant or one of
  an empty scope hides a later grant that would allow the request.
\<close>

lemma added_grant_denies:
  "(case authorize sample_authority (edit_request ''bob'')
      (putGrant (edit_grant ''b'' ''bob'') InMemoryApplicationAuthorityRepository) of
      Inr (Allowed r _, s) \<Rightarrow> True | _ \<Rightarrow> False) \<and>
   (case authorize sample_authority (edit_request ''bob'')
      (putGrant (edit_grant ''b'' ''bob'') (putGrant ((edit_grant ''a'' ''bob'')\<lparr>gr_scope := ScopeNone ''off''\<rparr>)
        InMemoryApplicationAuthorityRepository)) of
      Inr (Denied code message, s) \<Rightarrow> code = ''AUTHORIZATION_SCOPE_EMPTY'' | _ \<Rightarrow> False)"
  by code_simp

text \<open>A receipt that rests on a role's permission passes every check after the permission was retired.\<close>

definition role_receipt :: ApplicationAuthorizationReceipt where
  "role_receipt = grant_receipt sample_authority 0 (edit_request ''bob'') None (Some edit_permission) None ''r''"

lemma retired_permission_still_passes:
  "case revalidateReceipt sample_authority role_receipt edit_catalog Execution ''t''
      (putPermission (edit_permission\<lparr>pm_retiredAt := Some ''now''\<rparr>) InMemoryApplicationAuthorityRepository) of
     (Allowed r _, s) \<Rightarrow> rc_matchedPermissionIds r = [''edit''] | _ \<Rightarrow> False"
  by code_simp

end
