(* ===== verification/Spec2Isabelle.thy ===== *)
theory Spec2Isabelle
  imports Deployment_Decode Output_Reference Valkey_Resp Valkey_Cluster Agent_Laws Signal_Laws
    Catalog_Laws Authority_Findings
begin

text \<open>
  \<^bold>\<open>A verification library for applik8s\<close>

  applik8s turns a typed application description into Kubernetes deployments and runs the
  application's conversations, workflows and data clients. This library covers six parts of it:

  \<^item> the deployment contract, \<^verbatim>\<open>packages/deployment-contract/src\<close>: the deployment graph that the compiler
    hands to the deployers, its validation, canonical serialization and digest, its decoder and the
    references to node outputs;
  \<^item> the Valkey client, \<^verbatim>\<open>packages/applik8s/src/valkey-protocol.ts\<close>: the RESP wire protocol, pooled
    exchanges, and cluster slots and redirects;
  \<^item> the conversation store, \<^verbatim>\<open>packages/conversations/src/memory.ts\<close>, and the paging loop of
    \<^verbatim>\<open>tanstack-persistence.ts\<close>;
  \<^item> the agent persistence seam on that store, \<^verbatim>\<open>packages/conversations/src/agent-persistence.ts\<close>;
  \<^item> one-shot workflow signals with their outbox relay, \<^verbatim>\<open>packages/applik8s/src/signal-runtime.ts\<close>;
  \<^item> the operation authority, \<^verbatim>\<open>packages/operations/src/authority.ts\<close> and \<^verbatim>\<open>catalog.ts\<close> over the
    contracts of \<^verbatim>\<open>packages/core/src/application-operation-authority.ts\<close>: who may call which operation
    of which catalog revision, in which scope, how often and until when.

  \<^bold>\<open>Theories and sources\<close>

  \<^item> \<open>Js_Prelude\<close>, \<open>Js_Integers\<close>, \<open>Utf8\<close>, \<open>Js_Json\<close>, \<open>Json_Printer\<close>: the JavaScript library the sources use (numbers,
    objects, strings, \<open>sort\<close>, UTF-8, \<open>JSON.parse\<close> and the printing of strings and numbers), with the
    locales \<open>comparator\<close> (a sort comparator agrees with a key), \<open>checker\<close> (a routine that pushes
    diagnostics pushes none exactly where a specification holds), \<open>prefix_codec\<close> (an encoder whose
    decoder reads one value off the front) and \<open>json_printer\<close> (a printer of JSON whose texts parse back).
  \<^item> \<open>Sha256\<close>: \<open>sha256Hex\<close> of \<^verbatim>\<open>serialization.ts\<close> and its equality with SHA-256 of FIPS 180-4,
    whose constants are specified by the roots of the first primes and whose input by RFC 3629.
  \<^item> \<open>Canonical_Json\<close>: \<open>normalizeJson\<close> and \<open>stableJsonStringify\<close>; the text determines the value up to
    the order of members and parses back to it.
  \<^item> \<open>Deployment_Types\<close>, \<open>Deployment_Validation\<close>, \<open>Deployment_Cycles\<close>, \<open>Deployment_Wellformed\<close>: the records
    of \<^verbatim>\<open>types.ts\<close>, the routines of \<^verbatim>\<open>validation.ts\<close>, the depth-first search for cycles, and what an
    accepted graph satisfies, acyclicity of the causal edges included.
  \<^item> \<open>Deployment_Serialization\<close>: \<open>normalizeApplicationDeploymentGraph\<close> and the digests; permuted graphs
    have equal digests.
  \<^item> \<open>Deployment_Codec\<close>, \<open>Deployment_Decode\<close>: the shape checks of \<^verbatim>\<open>codec.ts\<close> and the decoder, which
    accepts only wire images of valid graphs.
  \<^item> \<open>Output_Reference\<close>: printing and parsing of \<^verbatim>\<open>output-reference.ts\<close> are inverse.
  \<^item> \<open>Valkey_Protocol\<close> (definitions), \<open>Valkey_Resp\<close> (round trip of every form of reply, any chunking of
    the reply stream, termination of the parser), \<open>Valkey_Cluster\<close> (slots against CRC-16 of the hash tag, redirects).
  \<^item> \<open>Conversation_Store\<close> (definitions: one per operation of the store, on a record of its four maps),
    \<open>Conversation_Laws\<close> (the store invariant over every sequence of calls, isolation of principal
    scopes, the locale \<open>optimistic_log\<close> for appends under an expected position and the locale
    \<open>paged_log\<close> for page-by-page reading, both interpreted for messages and for run events).
  \<^item> \<open>Agent_Persistence\<close> (definitions in the state monad; at each \<open>await\<close> the other clients of the store
    make arbitrary calls), \<open>Agent_Laws\<close> (a weakest-precondition calculus, the locale
    \<open>stable_assertion\<close> for what survives interference, and the laws of \<open>begin\<close>, \<open>append\<close>, \<open>complete\<close> and
    \<open>terminate\<close>).
  \<^item> \<open>Signal_Runtime\<close> (definitions), \<open>Signal_Laws\<close> (a step relation as abstract specification, the
    refinement of every operation and relay round by steps, the invariant by rule induction, and the
    one-shot, outbox and expiry laws).
  \<^item> \<open>Stable_Json\<close>, \<open>Scope_Algebra\<close> (definitions of the scope language: normalization, intersection,
    validation, the narrowing check), \<open>Scope_Laws\<close> (what a scope means under an interpretation of its
    atoms; intersection is conjunction, and an accepted narrowing is an implication).
  \<^item> \<open>Operation_Catalog\<close> (catalog revisions, their comparison, the catalog manager and its store),
    \<open>Catalog_Laws\<close> (a step relation over its calls: one active revision, protected references).
  \<^item> \<open>Authority_Types\<close>, \<open>Authority_Repository\<close>, \<open>Authority_Service\<close>, \<open>Authority_Decisions\<close> (definitions:
    the records, the in-memory repository and its transactions, and one function per operation of
    \<open>ApplicationAuthorityService\<close>, \<open>authorize\<close> among them); \<open>Authority_Laws\<close> (every operation as a
    value, the locale \<open>untouched_part\<close> for what an operation leaves alone), \<open>Authority_Grants\<close>,
    \<open>Authority_Writes\<close> (the locale \<open>grant_writes\<close>: which grants an operation may write),
    \<open>Authority_Kept\<close> (the locale \<open>kept_fact\<close>: a fact about a stored grant that every operation keeps,
    interpreted for revocation, leases and bounds), \<open>Authority_Derivation\<close> (the declarative side:
    covering, narrowing and derivation), \<open>Authority_Properties\<close> (the properties over every sequence
    of operations) and \<open>Authority_Findings\<close> (runs that depart from the design document).

  \<^bold>\<open>Conventions\<close>

  A class or interface is a record, a union a datatype, a \<open>Map\<close> an association list in insertion order.
  A thrown error is the left injection of a sum, or an element of the list of diagnostics; a
  stateful operation returns its result with the next state. Machine words appear in \<open>Sha256\<close> and in the
  CRC of \<open>Valkey_Cluster\<close>; JavaScript numbers are integers or fractions, with \<open>NaN\<close> and the infinities.
  Texts are lists of characters below 256, read as code points. Where the source awaits, the agent
  persistence admits arbitrary calls of other clients; a relay round of the signals and the paging
  loop \<open>loadAllMessages\<close> run without interleaving, and an operation of the authority service is one
  transaction of its repository, as in the source. One reading of the clock stands for the readings
  that a single grant validation or one filter over the grants makes in a row.

  \<^bold>\<open>Parameters\<close>

  The decimal printing and reading of numbers that are not safe integers (\<open>fmt\<close>, \<open>rd\<close>), \<open>Date.parse\<close>
  and \<open>toISOString\<close>, \<open>localeCompare\<close>, the hash of \<open>node:crypto\<close> (assumed collision free on the texts a
  history hashes), the server behind a Valkey connection, the callbacks the options of the signal
  runtime pass in, and the clock and the generator of ids of the authority service (\<open>authority_env\<close>). Each property with such a hypothesis has a witness with a concrete function.

  \<^bold>\<open>Fuel\<close>

  The JSON parser gets twice the length of its text plus two units, the RESP parser twice the rest of
  the buffer plus two, a nested decoder the length of its input; each is proved to be enough. The loop
  of \<open>loadAllMessages\<close> is a partial function and is proved to return. All other recursion is
  structural or has a measure.

  \<^bold>\<open>Not modelled\<close>

  PostgreSQL stores, sockets, TLS and timers, the compilers that emit source text, the builders over
  third-party resource types, provider clients, user interfaces and the command line. The
  deployment compiler, deployment leases, the operation runtime and the identity runtime are the next
  parts of the plan, in this order.
\<close>

end
